(* ===== verification/Blog_Prelude.thy ===== *)
theory Blog_Prelude
  imports Main "HOL-Library.Multiset"
begin

text \<open>
  Shared vocabulary of the development: the result type of fallible operations, the
  string operations the program uses on both sides of the wire
  (\<^verbatim>\<open>String.prototype.trim\<close>), lists of records addressed by a key (the shape of a
  document collection), and sorting by a descending numeric key (the shape of
  \<^verbatim>\<open>sort({ createdAt: -1 })\<close>). Everything here is polymorphic and knows nothing of
  blogs; the component theories instantiate it.

  Strings are \<open>char list\<close>. A JavaScript string is a sequence of UTF-16 code units; the
  model keeps the code units below 256, which covers every character the program itself
  compares against or produces.
\<close>

named_theorems keyed_simps "characteristic equations of the keyed-list operations"

type_synonym ('e, 'a) result = "'e + 'a"

section \<open>Whitespace and trimming\<close>

text \<open>
  The code units below 256 that \<^verbatim>\<open>trim\<close> removes: TAB, LF, VT, FF, CR, SPACE and the
  no-break space.
\<close>

definition is_space :: "char \<Rightarrow> bool" where
  "is_space c \<longleftrightarrow> of_char c \<in> {9, 10, 11, 12, 13, 32, 160 :: nat}"

definition trim :: "string \<Rightarrow> string" where
  "trim s = rev (dropWhile is_space (rev (dropWhile is_space s)))"

definition blank :: "string \<Rightarrow> bool" where
  "blank s \<longleftrightarrow> list_all is_space s"

section \<open>Lists of records addressed by a key\<close>

definition lookup_by :: "('a \<Rightarrow> 'k) \<Rightarrow> 'k \<Rightarrow> 'a list \<Rightarrow> 'a option" where
  "lookup_by key k xs = find (\<lambda>x. key x = k) xs"

fun replace_by :: "('a \<Rightarrow> 'k) \<Rightarrow> 'k \<Rightarrow> 'a \<Rightarrow> 'a list \<Rightarrow> 'a list" where
  "replace_by key k y [] = []"
| "replace_by key k y (x # xs) =
     (if key x = k then y # xs else x # replace_by key k y xs)"

fun delete_by :: "('a \<Rightarrow> 'k) \<Rightarrow> 'k \<Rightarrow> 'a list \<Rightarrow> 'a list" where
  "delete_by key k [] = []"
| "delete_by key k (x # xs) = (if key x = k then xs else x # delete_by key k xs)"

definition keys_of :: "('a \<Rightarrow> 'k) \<Rightarrow> 'a list \<Rightarrow> 'k set" where
  "keys_of key xs = key ` set xs"

definition keyed_map :: "('a \<Rightarrow> 'k) \<Rightarrow> 'a list \<Rightarrow> ('k \<rightharpoonup> 'a)" where
  "keyed_map key xs = map_of (map (\<lambda>x. (key x, x)) xs)"

section \<open>Sorting by a descending key\<close>

definition sort_desc :: "('a \<Rightarrow> nat) \<Rightarrow> 'a list \<Rightarrow> 'a list" where
  "sort_desc f xs = sort_key (\<lambda>x. - int (f x)) xs"

definition descending :: "('a \<Rightarrow> nat) \<Rightarrow> 'a list \<Rightarrow> bool" where
  "descending f xs \<longleftrightarrow> sorted_wrt (\<lambda>a b. f b \<le> f a) xs"

section \<open>Lemmas: trimming\<close>

lemma is_space_simps [simp]:
  "is_space (CHR '' '')" "is_space (CHR 0x09)" "is_space (CHR 0x0A)"
  "is_space (CHR 0x0D)"
  by (simp_all add: is_space_def)

lemma blank_Nil [simp]: "blank []"
  by (simp add: blank_def)

lemma blank_Cons [simp]: "blank (c # s) \<longleftrightarrow> is_space c \<and> blank s"
  by (simp add: blank_def)

lemma blank_append [simp]: "blank (s @ t) \<longleftrightarrow> blank s \<and> blank t"
  by (simp add: blank_def)

lemma blank_rev [simp]: "blank (rev s) \<longleftrightarrow> blank s"
  by (simp add: blank_def list_all_iff)

lemma dropWhile_is_space_Nil: "dropWhile is_space s = [] \<longleftrightarrow> blank s"
  by (simp add: blank_def list_all_iff dropWhile_eq_Nil_conv)

lemma blank_dropWhile: "blank (dropWhile is_space s) \<longleftrightarrow> blank s"
  by (induction s) auto

text \<open>A string trims to the empty string exactly when it consists of whitespace.\<close>

lemma trim_Nil_iff: "trim s = [] \<longleftrightarrow> blank s"
proof -
  have "trim s = [] \<longleftrightarrow> dropWhile is_space (rev (dropWhile is_space s)) = []"
    by (simp add: trim_def)
  also have "\<dots> \<longleftrightarrow> blank (rev (dropWhile is_space s))"
    by (rule dropWhile_is_space_Nil)
  also have "\<dots> \<longleftrightarrow> blank s"
    by (simp add: blank_dropWhile)
  finally show ?thesis .
qed

lemma trim_Nil [simp]: "trim [] = []"
  by (simp add: trim_def)

lemma trim_blank [simp]: "blank s \<Longrightarrow> trim s = []"
  by (simp add: trim_Nil_iff)

lemma hd_dropWhile_not_space:
  "dropWhile is_space s \<noteq> [] \<Longrightarrow> \<not> is_space (hd (dropWhile is_space s))"
  by (rule hd_dropWhile)

text \<open>The ends of a trimmed string are not whitespace.\<close>

lemma trim_last: "trim s \<noteq> [] \<Longrightarrow> \<not> is_space (last (trim s))"
  by (simp add: trim_def last_rev hd_dropWhile)

lemma dropWhile_rev_keeps_hd:
  assumes "s \<noteq> []" and "\<not> P (hd s)"
  shows "hd (rev (dropWhile P (rev s))) = hd s"
proof -
  from assms obtain c t where s: "s = c # t" and c: "\<not> P c"
    by (cases s) auto
  have "dropWhile P (rev t @ [c]) = dropWhile P (rev t) @ [c] \<or>
        dropWhile P (rev t @ [c]) = [c]"
    using c by (simp add: dropWhile_append)
  with s show ?thesis
    by (auto simp: hd_rev dropWhile_append3 split: if_splits)
qed

lemma trim_hd: "trim s \<noteq> [] \<Longrightarrow> \<not> is_space (hd (trim s))"
proof -
  assume ne: "trim s \<noteq> []"
  let ?d = "dropWhile is_space s"
  have d: "?d \<noteq> []"
  proof
    assume "?d = []"
    then have "trim s = []"
      unfolding trim_def by (simp only: rev.simps dropWhile.simps)
    with ne show False ..
  qed
  then have h: "\<not> is_space (hd ?d)"
    by (rule hd_dropWhile)
  from d h have "hd (rev (dropWhile is_space (rev ?d))) = hd ?d"
    by (rule dropWhile_rev_keeps_hd)
  with h show ?thesis
    by (simp add: trim_def)
qed

text \<open>A string with no whitespace at either end is left alone.\<close>

lemma trim_id:
  assumes "s \<noteq> []" and "\<not> is_space (hd s)" and "\<not> is_space (last s)"
  shows "trim s = s"
proof -
  from assms(1,2) have "dropWhile is_space s = s"
    by (cases s) auto
  moreover from assms(1,3) have "dropWhile is_space (rev s) = rev s"
    by (cases "rev s") (auto simp: hd_rev [symmetric])
  ultimately show ?thesis
    by (simp add: trim_def)
qed

lemma trim_idem [simp]: "trim (trim s) = trim s"
proof (cases "trim s = []")
  case True
  then show ?thesis by simp
next
  case False
  then show ?thesis
    by (intro trim_id trim_hd trim_last)
qed

lemma length_trim_le: "length (trim s) \<le> length s"
proof -
  have "length (trim s) \<le> length (dropWhile is_space s)"
    unfolding trim_def length_rev
    by (metis length_dropWhile_le length_rev)
  also have "\<dots> \<le> length s"
    by (rule length_dropWhile_le)
  finally show ?thesis .
qed

lemma set_trim_subset: "set (trim s) \<subseteq> set s"
proof
  fix c
  assume "c \<in> set (trim s)"
  then have "c \<in> set (rev (dropWhile is_space s))"
    by (auto simp: trim_def dest: set_dropWhileD)
  then show "c \<in> set s"
    by (auto dest: set_dropWhileD)
qed

section \<open>Lemmas: keyed lists\<close>

lemma lookup_by_Nil [keyed_simps, simp]: "lookup_by key k [] = None"
  by (simp add: lookup_by_def)

lemma lookup_by_Cons [keyed_simps, simp]:
  "lookup_by key k (x # xs) = (if key x = k then Some x else lookup_by key k xs)"
  by (simp add: lookup_by_def)

lemma lookup_by_append [keyed_simps]:
  "lookup_by key k (xs @ ys) =
     (case lookup_by key k xs of Some x \<Rightarrow> Some x | None \<Rightarrow> lookup_by key k ys)"
  by (induction xs) auto

lemma lookup_by_SomeD: "lookup_by key k xs = Some x \<Longrightarrow> x \<in> set xs \<and> key x = k"
  by (induction xs) (auto split: if_splits)

lemma lookup_by_None_iff: "lookup_by key k xs = None \<longleftrightarrow> k \<notin> keys_of key xs"
  by (induction xs) (auto simp: keys_of_def)

lemma lookup_by_Some_iff:
  "distinct (map key xs) \<Longrightarrow> lookup_by key k xs = Some x \<longleftrightarrow> x \<in> set xs \<and> key x = k"
  by (induction xs) (auto simp: rev_image_eqI)

lemma keyed_map_lookup: "keyed_map key xs k = lookup_by key k xs"
  by (induction xs) (auto simp: keyed_map_def)

lemma keys_of_simps [simp]:
  "keys_of key [] = {}"
  "keys_of key (x # xs) = insert (key x) (keys_of key xs)"
  "keys_of key (xs @ ys) = keys_of key xs \<union> keys_of key ys"
  by (auto simp: keys_of_def)

lemma dom_keyed_map: "dom (keyed_map key xs) = keys_of key xs"
  by (auto simp: keyed_map_lookup lookup_by_None_iff dom_def)

lemma map_key_replace_by [keyed_simps]:
  "key y = k \<Longrightarrow> map key (replace_by key k y xs) = map key xs"
  by (induction xs) auto

lemma length_replace_by [simp]: "length (replace_by key k y xs) = length xs"
  by (induction xs) auto

lemma keys_of_replace_by [keyed_simps]:
  "key y = k \<Longrightarrow> keys_of key (replace_by key k y xs) = keys_of key xs"
  by (induction xs) auto

lemma set_replace_by_subset: "set (replace_by key k y xs) \<subseteq> insert y (set xs)"
  by (induction xs) auto

lemma replace_by_absent [keyed_simps]:
  "k \<notin> keys_of key xs \<Longrightarrow> replace_by key k y xs = xs"
  by (induction xs) auto

lemma lookup_by_replace_by [keyed_simps]:
  "key y = k \<Longrightarrow>
   lookup_by key j (replace_by key k y xs) =
     (if j = k \<and> k \<in> keys_of key xs then Some y else lookup_by key j xs)"
  by (induction xs) (auto simp: lookup_by_None_iff)

lemma set_delete_by_subset: "set (delete_by key k xs) \<subseteq> set xs"
  by (induction xs) auto

lemma delete_by_absent [keyed_simps]:
  "k \<notin> keys_of key xs \<Longrightarrow> delete_by key k xs = xs"
  by (induction xs) auto

lemma delete_by_filter:
  "distinct (map key xs) \<Longrightarrow> delete_by key k xs = filter (\<lambda>x. key x \<noteq> k) xs"
proof (induction xs)
  case Nil
  then show ?case by simp
next
  case (Cons x xs)
  from Cons.prems have "\<forall>y \<in> set xs. key y \<noteq> key x"
    by (auto simp: image_iff)
  then have "filter (\<lambda>y. key y \<noteq> key x) xs = xs"
    by (intro filter_True) simp
  with Cons show ?case by auto
qed

lemma keys_of_delete_by [keyed_simps]:
  "distinct (map key xs) \<Longrightarrow> keys_of key (delete_by key k xs) = keys_of key xs - {k}"
  by (auto simp: delete_by_filter keys_of_def)

lemma distinct_delete_by [keyed_simps]:
  "distinct (map key xs) \<Longrightarrow> distinct (map key (delete_by key k xs))"
  by (simp add: delete_by_filter distinct_map_filter)

lemma lookup_by_delete_by [keyed_simps]:
  "distinct (map key xs) \<Longrightarrow>
   lookup_by key j (delete_by key k xs) = (if j = k then None else lookup_by key j xs)"
  by (induction xs) (auto simp: lookup_by_None_iff rev_image_eqI keys_of_def)

lemma length_delete_by:
  "lookup_by key k xs = Some x \<Longrightarrow> Suc (length (delete_by key k xs)) = length xs"
  by (induction xs) (auto split: if_splits)

lemma mset_delete_by:
  "lookup_by key k xs = Some x \<Longrightarrow> add_mset x (mset (delete_by key k xs)) = mset xs"
  by (induction xs) (auto split: if_splits)

text \<open>
  The keyed list implements a finite map: replacing and deleting are the map's update
  and removal.
\<close>

lemma keyed_map_replace_by:
  "key y = k \<Longrightarrow> k \<in> keys_of key xs \<Longrightarrow>
   keyed_map key (replace_by key k y xs) = (keyed_map key xs)(k \<mapsto> y)"
  by (rule ext) (simp add: keyed_map_lookup lookup_by_replace_by)

lemma keyed_map_delete_by:
  "distinct (map key xs) \<Longrightarrow>
   keyed_map key (delete_by key k xs) = (keyed_map key xs)(k := None)"
  by (rule ext) (simp add: keyed_map_lookup lookup_by_delete_by)

lemma keyed_map_snoc:
  assumes "key y \<notin> keys_of key xs"
  shows "keyed_map key (xs @ [y]) = (keyed_map key xs)(key y \<mapsto> y)"
proof (rule ext)
  fix j
  from assms have "lookup_by key (key y) xs = None"
    by (simp add: lookup_by_None_iff)
  then show "keyed_map key (xs @ [y]) j = ((keyed_map key xs)(key y \<mapsto> y)) j"
    by (cases "lookup_by key j xs") (auto simp: keyed_map_lookup lookup_by_append)
qed

section \<open>Lemmas: descending sort\<close>

lemma mset_sort_desc [simp]: "mset (sort_desc f xs) = mset xs"
  by (simp add: sort_desc_def)

lemma set_sort_desc [simp]: "set (sort_desc f xs) = set xs"
  by (simp add: sort_desc_def)

lemma length_sort_desc [simp]: "length (sort_desc f xs) = length xs"
  by (simp add: sort_desc_def)

lemma descending_iff_sorted:
  "descending f xs \<longleftrightarrow> sorted (map (\<lambda>x. - int (f x)) xs)"
  by (simp add: descending_def sorted_map)

lemma descending_sort_desc: "descending f (sort_desc f xs)"
  by (simp add: descending_iff_sorted sort_desc_def)

text \<open>The sort is stable: records with the same key keep their relative order.\<close>

lemma sort_desc_stable:
  "filter (\<lambda>x. f x = k) (sort_desc f xs) = filter (\<lambda>x. f x = k) xs"
proof -
  have "filter (\<lambda>x. - int (f x) = - int k) (sort_key (\<lambda>x. - int (f x)) xs) =
        filter (\<lambda>x. - int (f x) = - int k) xs"
    by (rule sort_key_stable)
  then show ?thesis
    by (simp add: sort_desc_def)
qed

lemma descending_Cons:
  "descending f (x # xs) \<longleftrightarrow> (\<forall>y \<in> set xs. f y \<le> f x) \<and> descending f xs"
  by (simp add: descending_def)

lemma distinct_sort_desc [simp]: "distinct (sort_desc f xs) \<longleftrightarrow> distinct xs"
  by (simp add: sort_desc_def)

lemma ran_keyed_map: "distinct (map key xs) \<Longrightarrow> ran (keyed_map key xs) = set xs"
  by (auto simp: ran_def keyed_map_lookup lookup_by_Some_iff)

text \<open>The white space that \<open>trim\<close> removes: a prefix and a suffix, and nothing in between.\<close>

lemma trim_decomp:
  "s = takeWhile is_space s @ trim s @ rev (takeWhile is_space (rev (dropWhile is_space s)))"
proof -
  let ?d = "dropWhile is_space s"
  have "rev (takeWhile is_space (rev ?d) @ dropWhile is_space (rev ?d)) = rev (rev ?d)"
    by (simp only: takeWhile_dropWhile_id)
  then have "rev (dropWhile is_space (rev ?d)) @ rev (takeWhile is_space (rev ?d)) = ?d"
    by (simp only: rev_append rev_rev_ident)
  then have "?d = trim s @ rev (takeWhile is_space (rev ?d))"
    unfolding trim_def by (rule sym)
  then have "takeWhile is_space s @ ?d =
      takeWhile is_space s @ trim s @ rev (takeWhile is_space (rev ?d))"
    by simp
  then show ?thesis
    by simp
qed

lemma blank_takeWhile [simp]: "blank (takeWhile is_space s)"
  by (simp add: blank_def list_all_iff) (auto dest: set_takeWhileD)

section \<open>Properties of trimming\<close>

text \<open>
  C33. Trimming removes white space at both ends and nothing else: the string is a
  blank prefix, the trimmed string and a blank suffix; the trimmed string is empty
  exactly when the string is blank, and otherwise neither begins nor ends with white
  space; trimming twice is trimming once.
\<close>

theorem trim_removes_outer_space:
  "(\<exists>l r. s = l @ trim s @ r \<and> blank l \<and> blank r) \<and>
   (trim s = [] \<longleftrightarrow> blank s) \<and>
   (trim s \<noteq> [] \<longrightarrow> \<not> is_space (hd (trim s)) \<and> \<not> is_space (last (trim s))) \<and>
   trim (trim s) = trim s"
proof -
  have "blank (rev (takeWhile is_space (rev (dropWhile is_space s))))"
    by (simp add: blank_def list_all_iff) (auto dest: set_takeWhileD)
  with trim_decomp [of s] have "\<exists>l r. s = l @ trim s @ r \<and> blank l \<and> blank r"
    using blank_takeWhile by blast
  then show ?thesis
    by (simp add: trim_Nil_iff trim_hd trim_last)
qed

theorem trim_removes_outer_space_witness:
  "trim '' a b  '' = ''a b'' \<and> \<not> is_space (hd (trim '' a b  ''))"
  using trim_removes_outer_space [of "'' a b  ''"]
  by (simp add: trim_def is_space_def)

end
