(* ===== verification/Js_Value.thy ===== *)
theory Js_Value
  imports Blog_Prelude
begin

text \<open>
  The JavaScript values that reach the request handlers: what \<^verbatim>\<open>express.json()\<close> puts in
  \<^verbatim>\<open>req.body\<close> and what a handler reads out of it. The handlers of
  \<^verbatim>\<open>src/index.js\<close> use three pieces of the language's semantics on such values, and this
  theory models exactly these: truthiness (\<^verbatim>\<open>!title\<close>), the short-circuit
  \<^verbatim>\<open>author || 'Anonymous'\<close>, and destructuring \<^verbatim>\<open>const { title, body, author } = req.body\<close>,
  which throws when the value is \<^verbatim>\<open>undefined\<close> or \<^verbatim>\<open>null\<close>.

  Numbers are the integers: a JSON number with a fraction is outside the model (the
  handlers only ask whether a number is zero, and the schema prints it as a string).
  Objects are association lists in which the first binding of a key is the one read.
\<close>

section \<open>Values\<close>

datatype jsval =
    JUndefined
  | JNull
  | JBool bool
  | JNum int
  | JStr string
  | JArr "jsval list"
  | JObj "(string \<times> jsval) list"

datatype js_error = TypeError string

text \<open>\<^verbatim>\<open>!v\<close> is \<open>\<not> truthy v\<close>: the falsy values are \<^verbatim>\<open>undefined\<close>, \<^verbatim>\<open>null\<close>,
  \<^verbatim>\<open>false\<close>, \<^verbatim>\<open>0\<close> and the empty string; arrays and objects are truthy even when empty.\<close>

fun truthy :: "jsval \<Rightarrow> bool" where
  "truthy JUndefined = False"
| "truthy JNull = False"
| "truthy (JBool b) = b"
| "truthy (JNum n) = (n \<noteq> 0)"
| "truthy (JStr s) = (s \<noteq> [])"
| "truthy (JArr vs) = True"
| "truthy (JObj kvs) = True"

text \<open>\<^verbatim>\<open>a || b\<close>.\<close>

definition js_or :: "jsval \<Rightarrow> jsval \<Rightarrow> jsval" where
  "js_or a b = (if truthy a then a else b)"

text \<open>
  Reading a property that is not a built-in member (the handlers read \<^verbatim>\<open>title\<close>,
  \<^verbatim>\<open>body\<close> and \<^verbatim>\<open>author\<close>): an object yields the bound value, or \<^verbatim>\<open>undefined\<close> when
  the key is absent; every other value that can be read from yields \<^verbatim>\<open>undefined\<close>.
\<close>

fun get_prop :: "jsval \<Rightarrow> string \<Rightarrow> jsval" where
  "get_prop (JObj kvs) k = (case map_of kvs k of None \<Rightarrow> JUndefined | Some v \<Rightarrow> v)"
| "get_prop v k = JUndefined"

definition nullish :: "jsval \<Rightarrow> bool" where
  "nullish v \<longleftrightarrow> v = JUndefined \<or> v = JNull"

text \<open>
  \<^verbatim>\<open>const { title, body, author } = v\<close>: a \<^verbatim>\<open>TypeError\<close> on \<^verbatim>\<open>undefined\<close> and
  \<^verbatim>\<open>null\<close>, the three properties otherwise.
\<close>

type_synonym fields = "jsval \<times> jsval \<times> jsval"

definition destructure :: "jsval \<Rightarrow> (js_error, fields) result" where
  "destructure v =
     (if nullish v then Inl (TypeError ''Cannot destructure property of req.body'')
      else Inr (get_prop v ''title'', get_prop v ''body'', get_prop v ''author''))"

fun js_message :: "js_error \<Rightarrow> string" where
  "js_message (TypeError m) = m"

section \<open>Printing numbers\<close>

text \<open>\<^verbatim>\<open>Number.prototype.toString\<close> on an integer: decimal digits, a minus sign first
  when negative.\<close>

definition digit_char :: "nat \<Rightarrow> char" where
  "digit_char d = char_of (48 + d)"

fun dec :: "nat \<Rightarrow> string" where
  "dec n = (if n < 10 then [digit_char n] else dec (n div 10) @ [digit_char (n mod 10)])"

declare dec.simps [simp del]

definition num_to_string :: "int \<Rightarrow> string" where
  "num_to_string i = (if i < 0 then CHR ''-'' # dec (nat (- i)) else dec (nat i))"

definition bool_to_string :: "bool \<Rightarrow> string" where
  "bool_to_string b = (if b then ''true'' else ''false'')"

section \<open>Lemmas\<close>

lemma falsy_iff:
  "\<not> truthy v \<longleftrightarrow> v = JUndefined \<or> v = JNull \<or> v = JBool False \<or> v = JNum 0 \<or> v = JStr []"
  by (cases v) auto

lemma nullish_not_truthy: "nullish v \<Longrightarrow> \<not> truthy v"
  by (auto simp: nullish_def)

lemma nullish_simps [simp]:
  "nullish JUndefined" "nullish JNull" "\<not> nullish (JBool b)" "\<not> nullish (JNum n)"
  "\<not> nullish (JStr s)" "\<not> nullish (JArr vs)" "\<not> nullish (JObj kvs)"
  by (simp_all add: nullish_def)

lemma js_or_truthy [simp]: "truthy a \<Longrightarrow> js_or a b = a"
  by (simp add: js_or_def)

lemma js_or_falsy [simp]: "\<not> truthy a \<Longrightarrow> js_or a b = b"
  by (simp add: js_or_def)

lemma truthy_js_or: "truthy (js_or a b) \<longleftrightarrow> truthy a \<or> truthy b"
  by (simp add: js_or_def)

lemma get_prop_absent: "k \<notin> fst ` set kvs \<Longrightarrow> get_prop (JObj kvs) k = JUndefined"
  by (simp add: map_of_eq_None_iff [THEN iffD2])

lemma get_prop_first: "get_prop (JObj ((k, v) # kvs)) k = v"
  by simp

lemma get_prop_truthy_obj: "truthy (get_prop v k) \<Longrightarrow> \<exists>kvs. v = JObj kvs"
  by (cases v) auto

text \<open>Destructuring fails exactly on \<^verbatim>\<open>undefined\<close> and \<^verbatim>\<open>null\<close>.\<close>

lemma destructure_Inl_iff: "(\<exists>e. destructure v = Inl e) \<longleftrightarrow> nullish v"
  by (simp add: destructure_def)

lemma destructure_obj [simp]:
  "destructure (JObj kvs) =
     Inr (get_prop (JObj kvs) ''title'', get_prop (JObj kvs) ''body'',
          get_prop (JObj kvs) ''author'')"
  by (simp add: destructure_def)

lemma destructure_nullish [simp]:
  "nullish v \<Longrightarrow> destructure v = Inl (TypeError ''Cannot destructure property of req.body'')"
  by (simp add: destructure_def)

lemma dec_small [simp]: "n < 10 \<Longrightarrow> dec n = [digit_char n]"
  by (simp add: dec.simps)

lemma dec_large: "\<not> n < 10 \<Longrightarrow> dec n = dec (n div 10) @ [digit_char (n mod 10)]"
  by (subst dec.simps) simp

lemma dec_nonempty [simp]: "dec n \<noteq> []"
  by (subst dec.simps) simp

lemma digit_char_not_space: "d < 10 \<Longrightarrow> \<not> is_space (digit_char d)"
  by (auto simp: is_space_def digit_char_def)

lemma dec_no_space: "c \<in> set (dec n) \<Longrightarrow> \<not> is_space c"
proof (induction n rule: dec.induct)
  case (1 n)
  show ?case
  proof (cases "n < 10")
    case True
    with "1.prems" show ?thesis
      by (simp add: digit_char_not_space)
  next
    case False
    with "1.prems" have "c \<in> set (dec (n div 10)) \<or> c = digit_char (n mod 10)"
      by (auto simp: dec_large)
    with False "1.IH" show ?thesis
      by (auto simp: digit_char_not_space)
  qed
qed

lemma num_to_string_nonempty [simp]: "num_to_string i \<noteq> []"
  by (simp add: num_to_string_def)

lemma num_to_string_no_space: "c \<in> set (num_to_string i) \<Longrightarrow> \<not> is_space c"
  by (auto simp: num_to_string_def is_space_def dest: dec_no_space split: if_splits)

text \<open>Printed numbers and booleans survive trimming unchanged.\<close>

lemma trim_no_space: "s \<noteq> [] \<Longrightarrow> \<forall>c \<in> set s. \<not> is_space c \<Longrightarrow> trim s = s"
  by (rule trim_id) auto

lemma trim_num_to_string [simp]: "trim (num_to_string i) = num_to_string i"
  by (rule trim_no_space) (auto dest: num_to_string_no_space)

lemma trim_bool_to_string [simp]: "trim (bool_to_string b) = bool_to_string b"
  by (rule trim_no_space) (auto simp: bool_to_string_def is_space_def)

lemma bool_to_string_nonempty [simp]: "bool_to_string b \<noteq> []"
  by (simp add: bool_to_string_def)

lemma truthy_get_prop_not_nullish: "truthy (get_prop v k) \<Longrightarrow> \<not> nullish v"
  by (auto dest: get_prop_truthy_obj)

end
