(* ===== verification/Object_Id.thy ===== *)
theory Object_Id
  imports Blog_Prelude "HOL-Library.Word"
begin

text \<open>
  The store's identifier format. An identifier is twelve bytes, a \<open>96 word\<close>; on the
  wire and in the route parameter \<^verbatim>\<open>:id\<close> it is a string of 24 hexadecimal digits.
  \<^verbatim>\<open>mongoose.Types.ObjectId.isValid(id)\<close>, the guard of three handlers of
  \<^verbatim>\<open>src/index.js\<close>, is \<open>isValid\<close>: the string has length 24 and every character is
  a hexadecimal digit of either case. \<open>toHexString\<close> prints an identifier (lower case, as
  the store does) and \<open>oid_of_string\<close> is the cast the store applies to the string it is
  queried with. The lemmas are the round trips between the two and the agreement of the
  guard with the cast: a string is valid exactly when the cast succeeds.
\<close>

type_synonym oid = "96 word"

section \<open>Hexadecimal digits\<close>

definition hex_digit :: "nat \<Rightarrow> char" where
  "hex_digit d = (if d < 10 then char_of (48 + d) else char_of (87 + d))"

definition hex_val :: "char \<Rightarrow> nat option" where
  "hex_val c =
     (let n = of_char c :: nat in
      if 48 \<le> n \<and> n \<le> 57 then Some (n - 48)
      else if 97 \<le> n \<and> n \<le> 102 then Some (n - 87)
      else if 65 \<le> n \<and> n \<le> 70 then Some (n - 55)
      else None)"

definition is_hex :: "char \<Rightarrow> bool" where
  "is_hex c \<longleftrightarrow> hex_val c \<noteq> None"

definition lower_hex :: "char \<Rightarrow> char" where
  "lower_hex c = (case hex_val c of None \<Rightarrow> c | Some v \<Rightarrow> hex_digit v)"

section \<open>Strings of digits\<close>

text \<open>\<open>hex_fixed k n\<close>: the \<open>k\<close> low digits of \<open>n\<close>, most significant first.\<close>

fun hex_fixed :: "nat \<Rightarrow> nat \<Rightarrow> string" where
  "hex_fixed 0 n = []"
| "hex_fixed (Suc k) n = hex_fixed k (n div 16) @ [hex_digit (n mod 16)]"

text \<open>\<open>hex_acc a s\<close>: the number \<open>s\<close> denotes after the digits accumulated in \<open>a\<close>;
  \<open>None\<close> at the first character that is not a digit.\<close>

fun hex_acc :: "nat \<Rightarrow> string \<Rightarrow> nat option" where
  "hex_acc a [] = Some a"
| "hex_acc a (c # cs) =
     (case hex_val c of None \<Rightarrow> None | Some v \<Rightarrow> hex_acc (16 * a + v) cs)"

section \<open>Identifiers\<close>

definition isValid :: "string \<Rightarrow> bool" where
  "isValid s \<longleftrightarrow> length s = 24 \<and> list_all is_hex s"

definition toHexString :: "oid \<Rightarrow> string" where
  "toHexString w = hex_fixed 24 (unat w)"

definition oid_of_string :: "string \<Rightarrow> oid option" where
  "oid_of_string s =
     (if length s = 24 then map_option word_of_nat (hex_acc 0 s) else None)"

text \<open>A sample: the identifier of the number zero.\<close>

definition zero_id :: string where
  "zero_id = ''000000000000000000000000''"

section \<open>Lemmas: digits\<close>

lemma hex_val_hex_digit [simp]: "d < 16 \<Longrightarrow> hex_val (hex_digit d) = Some d"
  by (auto simp: hex_val_def hex_digit_def Let_def)

lemma hex_val_bound: "hex_val c = Some v \<Longrightarrow> v < 16"
  by (auto simp: hex_val_def Let_def split: if_splits)

lemma is_hex_hex_digit [simp]: "d < 16 \<Longrightarrow> is_hex (hex_digit d)"
  by (simp add: is_hex_def)

lemma lower_hex_hex_digit [simp]: "d < 16 \<Longrightarrow> lower_hex (hex_digit d) = hex_digit d"
  by (simp add: lower_hex_def)

lemma hex_val_lower_hex [simp]: "hex_val (lower_hex c) = hex_val c"
  by (cases "hex_val c") (auto simp: lower_hex_def dest: hex_val_bound)

lemma is_hex_simps [simp]:
  "is_hex (CHR ''0'')" "is_hex (CHR ''9'')" "is_hex (CHR ''a'')" "is_hex (CHR ''f'')"
  "is_hex (CHR ''A'')" "is_hex (CHR ''F'')" "\<not> is_hex (CHR ''g'')" "\<not> is_hex (CHR ''-'')"
  by (simp_all add: is_hex_def hex_val_def)

section \<open>Lemmas: printing and reading\<close>

lemma length_hex_fixed [simp]: "length (hex_fixed k n) = k"
  by (induction k arbitrary: n) auto

lemma is_hex_hex_fixed: "list_all is_hex (hex_fixed k n)"
  by (induction k arbitrary: n) auto

lemma lower_hex_hex_fixed: "map lower_hex (hex_fixed k n) = hex_fixed k n"
  by (induction k arbitrary: n) auto

lemma hex_acc_append:
  "hex_acc a (s @ t) = (case hex_acc a s of None \<Rightarrow> None | Some b \<Rightarrow> hex_acc b t)"
  by (induction s arbitrary: a) (auto split: option.splits)

lemma hex_acc_Some_iff: "(\<exists>n. hex_acc a s = Some n) \<longleftrightarrow> list_all is_hex s"
  by (induction s arbitrary: a) (auto simp: is_hex_def split: option.splits)

lemma hex_acc_None_iff: "hex_acc a s = None \<longleftrightarrow> \<not> list_all is_hex s"
  using hex_acc_Some_iff [of a s] by auto

text \<open>Reading what was printed gives the printed digits back: \<open>n\<close> modulo \<open>16 ^ k\<close>.\<close>

lemma hex_acc_hex_fixed: "hex_acc a (hex_fixed k n) = Some (a * 16 ^ k + n mod 16 ^ k)"
proof (induction k arbitrary: n)
  case 0
  show ?case by simp
next
  case (Suc k)
  have "n mod (16 * 16 ^ k) = 16 * (n div 16 mod 16 ^ k) + n mod 16"
    by (rule mod_mult2_eq)
  with Suc show ?case
    by (simp add: hex_acc_append algebra_simps)
qed

text \<open>What was read is below \<open>16 ^ length s\<close> beyond the accumulator, and printing it
  gives the string back in lower case.\<close>

lemma hex_acc_snoc:
  "hex_acc a (s @ [c]) = Some n \<longleftrightarrow>
     (\<exists>m v. hex_acc a s = Some m \<and> hex_val c = Some v \<and> n = 16 * m + v)"
  by (auto simp: hex_acc_append split: option.splits)

lemma hex_acc_bound:
  "hex_acc a s = Some n \<Longrightarrow> a * 16 ^ length s \<le> n \<and> n < (a + 1) * 16 ^ length s"
proof (induction s arbitrary: n rule: rev_induct)
  case Nil
  then show ?case by simp
next
  case (snoc c s)
  then obtain m v where m: "hex_acc a s = Some m" and v: "hex_val c = Some v"
    and n: "n = 16 * m + v"
    by (auto simp: hex_acc_snoc)
  from snoc.IH [OF m] have "a * 16 ^ length s \<le> m" and "m + 1 \<le> (a + 1) * 16 ^ length s"
    by auto
  then have "16 * (a * 16 ^ length s) \<le> 16 * m"
    and "16 * (m + 1) \<le> 16 * ((a + 1) * 16 ^ length s)"
    by (simp_all only: mult_le_mono2)
  with hex_val_bound [OF v] n show ?case
    by (simp add: algebra_simps)
qed

lemma hex_fixed_hex_acc:
  "hex_acc a s = Some n \<Longrightarrow> hex_fixed (length s) n = map lower_hex s"
proof (induction s arbitrary: n rule: rev_induct)
  case Nil
  then show ?case by simp
next
  case (snoc c s)
  then obtain m v where m: "hex_acc a s = Some m" and v: "hex_val c = Some v"
    and n: "n = 16 * m + v"
    by (auto simp: hex_acc_snoc)
  from hex_val_bound [OF v] n have "n div 16 = m" and "n mod 16 = v"
    by simp_all
  with snoc.IH [OF m] v show ?case
    by (simp add: lower_hex_def)
qed

section \<open>Lemmas: identifiers\<close>

lemma pow16_24: "(16::nat) ^ 24 = 2 ^ 96"
  by simp

lemma isValid_toHexString [simp]: "isValid (toHexString w)"
  by (simp add: isValid_def toHexString_def is_hex_hex_fixed)

lemma length_toHexString [simp]: "length (toHexString w) = 24"
  by (simp add: toHexString_def)

text \<open>The guard and the cast agree.\<close>

lemma isValid_iff_cast: "isValid s \<longleftrightarrow> (\<exists>w. oid_of_string s = Some w)"
  using hex_acc_Some_iff [of 0 s] by (auto simp: isValid_def oid_of_string_def)

lemma oid_of_string_None_iff: "oid_of_string s = None \<longleftrightarrow> \<not> isValid s"
  by (simp add: isValid_iff_cast)

text \<open>Reading a printed identifier gives the identifier back.\<close>

lemma oid_of_string_toHexString [simp]: "oid_of_string (toHexString w) = Some w"
proof -
  have "unat w < 16 ^ 24"
    using unsigned_less [of w, where ?'a = nat] by simp
  then show ?thesis
    by (simp add: oid_of_string_def toHexString_def hex_acc_hex_fixed)
qed

text \<open>Printing a read identifier gives the string back in lower case: two valid strings
  name the same identifier exactly when they differ in the case of digits only.\<close>

lemma toHexString_oid_of_string:
  assumes "oid_of_string s = Some w"
  shows "toHexString w = map lower_hex s"
proof -
  from assms obtain n where len: "length s = 24" and n: "hex_acc 0 s = Some n"
    and w: "w = word_of_nat n"
    by (auto simp: oid_of_string_def split: if_splits)
  from hex_acc_bound [OF n] len have "n < 2 ^ 96"
    by simp
  then have "unat w = n"
    by (simp add: w unat_of_nat)
  with hex_fixed_hex_acc [OF n] len show ?thesis
    by (simp add: toHexString_def)
qed

lemma oid_of_string_lower: "oid_of_string (map lower_hex s) = oid_of_string s"
proof (cases "oid_of_string s")
  case None
  then have "\<not> isValid s"
    by (simp add: oid_of_string_None_iff)
  then have "\<not> isValid (map lower_hex s)"
    by (simp add: isValid_def list_all_iff is_hex_def)
  then have "oid_of_string (map lower_hex s) = None"
    by (simp add: oid_of_string_None_iff)
  with None show ?thesis
    by simp
next
  case (Some w)
  then have "map lower_hex s = toHexString w"
    by (simp add: toHexString_oid_of_string)
  with Some show ?thesis by simp
qed

lemma oid_of_string_eq_iff:
  assumes "isValid s" and "isValid t"
  shows "oid_of_string s = oid_of_string t \<longleftrightarrow> map lower_hex s = map lower_hex t"
proof
  assume eq: "oid_of_string s = oid_of_string t"
  from assms obtain w where w: "oid_of_string s = Some w"
    by (auto simp: isValid_iff_cast)
  with eq have "oid_of_string t = Some w" by simp
  with w show "map lower_hex s = map lower_hex t"
    by (simp add: toHexString_oid_of_string [symmetric])
next
  assume "map lower_hex s = map lower_hex t"
  then have "oid_of_string (map lower_hex s) = oid_of_string (map lower_hex t)"
    by simp
  then show "oid_of_string s = oid_of_string t"
    by (simp add: oid_of_string_lower)
qed

lemma toHexString_inj: "toHexString v = toHexString w \<longleftrightarrow> v = w"
  by (metis oid_of_string_toHexString option.inject)

section \<open>Properties of the identifier format\<close>

lemma oid_zero: "oid_of_string zero_id = Some 0"
  by (simp add: zero_id_def oid_of_string_def hex_val_def)

lemma isValid_zero: "isValid zero_id"
  by (simp add: isValid_iff_cast oid_zero)

lemma lower_toHexString: "map lower_hex (toHexString w) = toHexString w"
  by (simp add: toHexString_def lower_hex_hex_fixed)

lemma hex_digit_samples: "hex_digit 0 = CHR ''0''" "hex_digit 2 = CHR ''2''" "hex_digit 10 = CHR ''a''"
  by code_simp+

text \<open>
  C18. Printing an identifier and reading it back gives the identifier: the printed
  form has 24 characters, all of them lower-case hexadecimal digits, passes the check of
  the handlers and is read as the identifier it was printed from.
\<close>

theorem print_then_parse:
  "oid_of_string (toHexString w) = Some w \<and> isValid (toHexString w) \<and>
   length (toHexString w) = 24 \<and> map lower_hex (toHexString w) = toHexString w"
  by (simp add: lower_toHexString)

text \<open>
  C19. The check of the handlers and the cast of the store agree: a string passes
  \<open>isValid\<close> exactly when it is read as an identifier, and then printing that identifier
  gives the string back in lower case.
\<close>

theorem parse_then_print:
  "(isValid s \<longleftrightarrow> (\<exists>w. oid_of_string s = Some w)) \<and>
   (\<forall>w. oid_of_string s = Some w \<longrightarrow> toHexString w = map lower_hex s)"
  by (simp add: isValid_iff_cast toHexString_oid_of_string)

theorem parse_then_print_witness:
  "isValid ''00000000000000000000002A'' \<and>
   (\<exists>w. oid_of_string ''00000000000000000000002A'' = Some w \<and>
      toHexString w = ''00000000000000000000002a'')"
  using parse_then_print [of "''00000000000000000000002A''"]
  by (auto simp: isValid_def is_hex_def hex_val_def lower_hex_def hex_digit_samples)

text \<open>
  C20. Two well-formed strings name the same identifier exactly when they are equal up
  to the case of their digits.
\<close>

theorem same_identifier_iff_same_digits:
  assumes "isValid s" and "isValid t"
  shows "oid_of_string s = oid_of_string t \<longleftrightarrow> map lower_hex s = map lower_hex t"
  using assms by (rule oid_of_string_eq_iff)

theorem same_identifier_iff_same_digits_witness:
  "oid_of_string ''00000000000000000000002A'' = oid_of_string ''00000000000000000000002a''"
  using same_identifier_iff_same_digits [of "''00000000000000000000002A''"
      "''00000000000000000000002a''"]
  by (simp add: isValid_def is_hex_def hex_val_def lower_hex_def)

end
