(* ===== verification/Blog_Schema.thy ===== *)
theory Blog_Schema
  imports Js_Value Object_Id
begin

text \<open>
  The Blog entity of \<^verbatim>\<open>src/models/Blog.js\<close>. The file is a declaration: three string
  paths with their options (\<open>title_path\<close>, \<open>body_path\<close>, \<open>author_path\<close>, collected in
  \<open>blogSchema\<close>), and the schema options \<open>blog_options\<close>. What the declaration means is
  the object-document mapper's: a value given for a path is cast to a string
  (\<open>castString\<close>), passed through the path's setters (\<open>set_path\<close>: trimming), replaced by
  the path's default when it is \<^verbatim>\<open>undefined\<close> (\<open>apply_default\<close>), and checked by the
  \<^verbatim>\<open>required\<close> validator (\<open>check_required\<close>). \<open>validate_path\<close> composes the four for a
  new document, \<open>validate_update_path\<close> the three an update runs (an update applies no
  defaults), and \<open>validated\<close> and \<open>validated_update\<close> run them over the three fields a
  handler supplies, collecting the failing paths in schema order.

  A stored document is a \<open>blog\<close>; \<open>valid_blog\<close> is the well-formedness the schema
  enforces on it.
\<close>

section \<open>The schema as data\<close>

record schema_path =
  required :: bool
  trimmed :: bool
  default_value :: "string option"

definition title_path :: schema_path where
  "title_path = \<lparr>required = True, trimmed = True, default_value = None\<rparr>"

definition body_path :: schema_path where
  "body_path = \<lparr>required = True, trimmed = False, default_value = None\<rparr>"

definition author_path :: schema_path where
  "author_path = \<lparr>required = False, trimmed = True, default_value = Some ''Anonymous''\<rparr>"

record schema_options =
  timestamps :: bool
  collection :: string

definition blog_options :: schema_options where
  "blog_options = \<lparr>timestamps = True, collection = ''posts''\<rparr>"

definition blogSchema :: "(string \<times> schema_path) list" where
  "blogSchema = [(''title'', title_path), (''body'', body_path), (''author'', author_path)]"

section \<open>Documents\<close>

record blog =
  doc_id :: oid
  title :: string
  body :: string
  author :: "string option"
  createdAt :: nat
  updatedAt :: nat

datatype path_error = CastError | ValidatorError

type_synonym path_errors = "(string \<times> path_error) list"

type_synonym valid_fields = "string \<times> string \<times> string option"

section \<open>What a path does to a value\<close>

text \<open>
  Casting to a string: \<^verbatim>\<open>null\<close> and \<^verbatim>\<open>undefined\<close> pass through as "no value",
  strings are kept, numbers and booleans are printed, an object that carries a non-empty
  string \<^verbatim>\<open>_id\<close> stands for that string, and arrays and other objects are a cast error.
\<close>

fun castString :: "jsval \<Rightarrow> (path_error, string option) result" where
  "castString JUndefined = Inr None"
| "castString JNull = Inr None"
| "castString (JBool b) = Inr (Some (bool_to_string b))"
| "castString (JNum n) = Inr (Some (num_to_string n))"
| "castString (JStr s) = Inr (Some s)"
| "castString (JArr vs) = Inl CastError"
| "castString (JObj kvs) =
     (case map_of kvs ''_id'' of
        Some (JStr i) \<Rightarrow> if i = [] then Inl CastError else Inr (Some i)
      | _ \<Rightarrow> Inl CastError)"

definition set_path :: "schema_path \<Rightarrow> jsval \<Rightarrow> (path_error, string option) result" where
  "set_path p v =
     (case castString v of
        Inl e \<Rightarrow> Inl e
      | Inr None \<Rightarrow> Inr None
      | Inr (Some s) \<Rightarrow> Inr (Some (if trimmed p then trim s else s)))"

definition apply_default :: "schema_path \<Rightarrow> jsval \<Rightarrow> jsval" where
  "apply_default p v =
     (if v = JUndefined then (case default_value p of None \<Rightarrow> JUndefined | Some d \<Rightarrow> JStr d)
      else v)"

text \<open>The \<^verbatim>\<open>required\<close> validator of a string path: a value is there and is not the empty
  string.\<close>

definition check_required :: "schema_path \<Rightarrow> string option \<Rightarrow> bool" where
  "check_required p r \<longleftrightarrow>
     \<not> required p \<or> (case r of None \<Rightarrow> False | Some s \<Rightarrow> s \<noteq> [])"

definition validate_update_path ::
    "schema_path \<Rightarrow> jsval \<Rightarrow> (path_error, string option) result" where
  "validate_update_path p v =
     (case set_path p v of
        Inl e \<Rightarrow> Inl e
      | Inr r \<Rightarrow> if check_required p r then Inr r else Inl ValidatorError)"

definition validate_path :: "schema_path \<Rightarrow> jsval \<Rightarrow> (path_error, string option) result" where
  "validate_path p v = validate_update_path p (apply_default p v)"

fun errs :: "string \<Rightarrow> (path_error, 'a) result \<Rightarrow> path_errors" where
  "errs k (Inl e) = [(k, e)]"
| "errs k (Inr r) = []"

section \<open>A new document and an update, validated\<close>

definition collect ::
    "(path_error, string option) result \<Rightarrow> (path_error, string option) result \<Rightarrow>
     (path_error, string option) result \<Rightarrow> (path_errors, valid_fields) result" where
  "collect rt rb ra =
     (case (rt, rb, ra) of
        (Inr (Some t), Inr (Some b), Inr a) \<Rightarrow> Inr (t, b, a)
      | _ \<Rightarrow> Inl (errs ''title'' rt @ errs ''body'' rb @ errs ''author'' ra))"

definition validated :: "fields \<Rightarrow> (path_errors, valid_fields) result" where
  "validated f =
     (case f of (vt, vb, va) \<Rightarrow>
        collect (validate_path title_path vt) (validate_path body_path vb)
          (validate_path author_path va))"

definition validated_update :: "fields \<Rightarrow> (path_errors, valid_fields) result" where
  "validated_update f =
     (case f of (vt, vb, va) \<Rightarrow>
        collect (validate_update_path title_path vt) (validate_update_path body_path vb)
          (validate_update_path author_path va))"

section \<open>Well-formed documents\<close>

definition clean :: "string \<Rightarrow> bool" where
  "clean s \<longleftrightarrow> trim s = s"

definition valid_fields :: "valid_fields \<Rightarrow> bool" where
  "valid_fields f \<longleftrightarrow>
     (case f of (t, b, a) \<Rightarrow>
        t \<noteq> [] \<and> clean t \<and> b \<noteq> [] \<and> (case a of None \<Rightarrow> True | Some s \<Rightarrow> clean s))"

definition valid_blog :: "blog \<Rightarrow> bool" where
  "valid_blog d \<longleftrightarrow> valid_fields (title d, body d, author d)"

section \<open>Lemmas: single paths\<close>

lemma clean_trim [simp]: "clean (trim s)"
  by (simp add: clean_def)

lemma clean_Nil [simp]: "clean []"
  by (simp add: clean_def)

lemma castString_None_iff: "castString v = Inr None \<longleftrightarrow> nullish v"
  by (cases v) (auto simp: nullish_def split: option.splits jsval.splits)

lemma set_path_str [simp]:
  "set_path p (JStr s) = Inr (Some (if trimmed p then trim s else s))"
  by (simp add: set_path_def)

lemma set_path_nullish [simp]: "nullish v \<Longrightarrow> set_path p v = Inr None"
  by (auto simp: set_path_def nullish_def)

lemma set_path_num [simp]: "set_path p (JNum n) = Inr (Some (num_to_string n))"
  by (simp add: set_path_def)

lemma set_path_bool [simp]: "set_path p (JBool b) = Inr (Some (bool_to_string b))"
  by (simp add: set_path_def)

lemma set_path_arr [simp]: "set_path p (JArr vs) = Inl CastError"
  by (simp add: set_path_def)

lemma set_path_clean:
  "trimmed p \<Longrightarrow> set_path p v = Inr (Some s) \<Longrightarrow> clean s"
  by (auto simp: set_path_def split: sum.splits option.splits)

text \<open>The title path on a string: whitespace only is a validation error, anything else
  is stored trimmed.\<close>

lemma validate_title_str:
  "validate_update_path title_path (JStr s) =
     (if blank s then Inl ValidatorError else Inr (Some (trim s)))"
  by (simp add: validate_update_path_def title_path_def check_required_def trim_Nil_iff)

text \<open>The body path on a string: stored verbatim unless empty.\<close>

lemma validate_body_str:
  "validate_update_path body_path (JStr s) =
     (if s = [] then Inl ValidatorError else Inr (Some s))"
  by (simp add: validate_update_path_def body_path_def check_required_def)

text \<open>The author path never fails on a string and stores it trimmed, possibly empty.\<close>

lemma validate_author_str:
  "validate_update_path author_path (JStr s) = Inr (Some (trim s))"
  by (simp add: validate_update_path_def author_path_def check_required_def)

lemma validate_author_nullish:
  "nullish v \<Longrightarrow> validate_update_path author_path v = Inr None"
  by (simp add: validate_update_path_def author_path_def check_required_def)

lemma validate_required_nullish:
  "nullish v \<Longrightarrow> required p \<Longrightarrow> validate_update_path p v = Inl ValidatorError"
  by (simp add: validate_update_path_def check_required_def)

lemma apply_default_defined [simp]: "v \<noteq> JUndefined \<Longrightarrow> apply_default p v = v"
  by (simp add: apply_default_def)

lemma apply_default_title [simp]: "apply_default title_path v = v"
  by (simp add: apply_default_def title_path_def)

lemma apply_default_body [simp]: "apply_default body_path v = v"
  by (simp add: apply_default_def body_path_def)

lemma apply_default_author:
  "apply_default author_path v = (if v = JUndefined then JStr ''Anonymous'' else v)"
  by (simp add: apply_default_def author_path_def)

lemma validate_path_title [simp]:
  "validate_path title_path v = validate_update_path title_path v"
  by (simp add: validate_path_def)

lemma validate_path_body [simp]:
  "validate_path body_path v = validate_update_path body_path v"
  by (simp add: validate_path_def)

lemma validate_path_author_defined:
  "v \<noteq> JUndefined \<Longrightarrow> validate_path author_path v = validate_update_path author_path v"
  by (simp add: validate_path_def)

lemma trim_Anonymous: "trim ''Anonymous'' = ''Anonymous''"
  by (rule trim_id) (simp_all add: is_space_def)

text \<open>The schema default: an absent author is stored as \<^verbatim>\<open>Anonymous\<close>.\<close>

lemma validate_path_author_undefined:
  "validate_path author_path JUndefined = Inr (Some ''Anonymous'')"
  by (simp add: validate_path_def apply_default_author validate_author_str trim_Anonymous)

text \<open>What a path that accepts a value has accepted.\<close>

lemma validate_update_path_InrD:
  "validate_update_path p v = Inr r \<Longrightarrow> set_path p v = Inr r \<and> check_required p r"
  by (simp add: validate_update_path_def split: sum.splits if_splits)

lemma validate_title_Inr:
  assumes "validate_update_path title_path v = Inr r"
  shows "\<exists>s. r = Some s \<and> s \<noteq> [] \<and> clean s"
proof -
  from assms have sp: "set_path title_path v = Inr r" and cr: "check_required title_path r"
    by (simp_all add: validate_update_path_InrD)
  from cr obtain s where r: "r = Some s" and ne: "s \<noteq> []"
    by (cases r) (simp_all add: check_required_def title_path_def)
  from sp r have "clean s"
    by (intro set_path_clean [of title_path v]) (simp_all add: title_path_def)
  with r ne show ?thesis by simp
qed

lemma validate_body_Inr:
  assumes "validate_update_path body_path v = Inr r"
  shows "\<exists>s. r = Some s \<and> s \<noteq> []"
proof -
  from assms have "check_required body_path r"
    by (simp add: validate_update_path_InrD)
  then show ?thesis
    by (cases r) (simp_all add: check_required_def body_path_def)
qed

lemma validate_author_Inr:
  assumes "validate_update_path author_path v = Inr (Some s)"
  shows "clean s"
proof -
  from assms have "set_path author_path v = Inr (Some s)"
    by (simp add: validate_update_path_InrD)
  then show ?thesis
    by (intro set_path_clean [of author_path v]) (simp_all add: author_path_def)
qed

lemma validate_path_author_Inr:
  "validate_path author_path v = Inr (Some s) \<Longrightarrow> clean s"
  unfolding validate_path_def by (rule validate_author_Inr)

section \<open>Lemmas: the three fields together\<close>

lemma collect_Inr_iff:
  "collect rt rb ra = Inr f \<longleftrightarrow>
     (\<exists>t b a. rt = Inr (Some t) \<and> rb = Inr (Some b) \<and> ra = Inr a \<and> f = (t, b, a))"
  by (auto simp: collect_def split: sum.splits option.splits)

lemma collect_Inl_nonempty:
  assumes "collect rt rb ra = Inl es"
    and "\<And>r. rt = Inr r \<Longrightarrow> r \<noteq> None" and "\<And>r. rb = Inr r \<Longrightarrow> r \<noteq> None"
  shows "es \<noteq> []"
  using assms by (auto simp: collect_def split: sum.splits option.splits)

text \<open>Every field set that passes validation is well formed, on creation and on update.\<close>

lemma validated_update_valid: "validated_update f = Inr g \<Longrightarrow> valid_fields g"
  by (cases f)
    (auto simp: validated_update_def collect_Inr_iff valid_fields_def
      dest: validate_title_Inr validate_body_Inr validate_author_Inr split: option.splits)

lemma validated_valid: "validated f = Inr g \<Longrightarrow> valid_fields g"
  by (cases f)
    (auto simp: validated_def collect_Inr_iff valid_fields_def
      dest: validate_title_Inr validate_body_Inr validate_path_author_Inr
      split: option.splits)

text \<open>A failed validation names at least one path.\<close>

lemma collect_title_body_Inl:
  assumes "collect (validate_update_path title_path vt)
             (validate_update_path body_path vb) ra = Inl es"
  shows "es \<noteq> []"
  using assms
proof (rule collect_Inl_nonempty)
  fix r
  assume "validate_update_path title_path vt = Inr r"
  then show "r \<noteq> None"
    by (auto dest: validate_title_Inr)
next
  fix r
  assume "validate_update_path body_path vb = Inr r"
  then show "r \<noteq> None"
    by (auto dest: validate_body_Inr)
qed

lemma validated_update_Inl: "validated_update f = Inl es \<Longrightarrow> es \<noteq> []"
  by (cases f) (auto simp: validated_update_def dest: collect_title_body_Inl)

lemma validated_Inl: "validated f = Inl es \<Longrightarrow> es \<noteq> []"
  by (cases f) (auto simp: validated_def dest: collect_title_body_Inl)

text \<open>Strings: the three fields of a request as the static client sends them.\<close>

lemma validated_strs:
  "validated (JStr t, JStr b, JStr a) =
     (if blank t \<or> b = [] then
        Inl ((if blank t then [(''title'', ValidatorError)] else []) @
             (if b = [] then [(''body'', ValidatorError)] else []))
      else Inr (trim t, b, Some (trim a)))"
  by (simp add: validated_def collect_def validate_title_str validate_body_str
      validate_path_author_defined validate_author_str)

lemma validated_update_strs:
  "validated_update (JStr t, JStr b, JStr a) =
     (if blank t \<or> b = [] then
        Inl ((if blank t then [(''title'', ValidatorError)] else []) @
             (if b = [] then [(''body'', ValidatorError)] else []))
      else Inr (trim t, b, Some (trim a)))"
  by (simp add: validated_update_def collect_def validate_title_str validate_body_str
      validate_author_str)

lemma validated_update_no_author:
  "nullish a \<Longrightarrow>
   validated_update (JStr t, JStr b, a) =
     (if blank t \<or> b = [] then
        Inl ((if blank t then [(''title'', ValidatorError)] else []) @
             (if b = [] then [(''body'', ValidatorError)] else []))
      else Inr (trim t, b, None))"
  by (simp add: validated_update_def collect_def validate_title_str validate_body_str
      validate_author_nullish)

text \<open>A title of white space only is rejected by the schema, whatever the other fields are.\<close>

lemma validated_blank_title:
  assumes "blank t"
  shows "\<exists>es. validated (JStr t, vb, va) = Inl es"
    and "\<exists>es. validated_update (JStr t, vb, va) = Inl es"
  using assms by (simp_all add: validated_def validated_update_def collect_def validate_title_str)

lemma validated_no_author:
  "validated (JStr t, JStr b, JUndefined) =
     (if blank t \<or> b = [] then
        Inl ((if blank t then [(''title'', ValidatorError)] else []) @
             (if b = [] then [(''body'', ValidatorError)] else []))
      else Inr (trim t, b, Some ''Anonymous''))"
  by (simp add: validated_def collect_def validate_title_str validate_body_str
      validate_path_author_undefined)

section \<open>Properties of the schema\<close>

text \<open>
  C32. What the schema accepts is well formed, for a new document and for an update: the
  title is non-empty and trimmed, the body is non-empty, and an author is trimmed. What
  it rejects comes with at least one path in error.
\<close>

theorem accepted_fields_are_well_formed:
  "(validated f = Inr g \<longrightarrow> valid_fields g) \<and>
   (validated_update f = Inr g \<longrightarrow> valid_fields g) \<and>
   (validated f = Inl es \<longrightarrow> es \<noteq> []) \<and>
   (validated_update f = Inl es \<longrightarrow> es \<noteq> [])"
  by (simp add: validated_valid validated_update_valid validated_Inl validated_update_Inl)

theorem accepted_fields_are_well_formed_witness:
  "validated (JStr '' T '', JStr ''B'', JUndefined) = Inr (''T'', ''B'', Some ''Anonymous'') \<and>
   valid_fields (''T'', ''B'', Some ''Anonymous'')"
  using accepted_fields_are_well_formed [of "(JStr '' T '', JStr ''B'', JUndefined)"
      "(''T'', ''B'', Some ''Anonymous'')"]
  by (simp add: validated_no_author trim_def is_space_def)

end
