(* ===== verification/Blog_Store.thy ===== *)
theory Blog_Store
  imports Blog_Schema
begin

text \<open>
  The persistence adapter: the five calls the handlers of \<^verbatim>\<open>src/index.js\<close> make on the
  \<^verbatim>\<open>Blog\<close> model, over an explicit state. A \<open>store\<close> is the \<^verbatim>\<open>posts\<close> collection, a
  list of documents in insertion order, and the count of identifiers the process has
  generated. Each call takes an \<open>env\<close>, what the world does during that call: the clock
  reading \<open>now\<close>, and \<open>fault\<close>, the message of a store failure if the call is to fail.
  A call returns \<open>Inl\<close> of a \<open>persist_error\<close> where the promise rejects.

  \<^item> \<open>new_Blog\<close> and \<open>save\<close>: \<^verbatim>\<open>new Blog({...})\<close> and \<^verbatim>\<open>blog.save()\<close>. The constructor
    takes the next identifier and validates; saving rejects with the validation errors,
    or the fault, or a duplicate key, and otherwise appends the document with both
    timestamps set to \<open>now\<close>.
  \<^item> \<open>find_sorted\<close>: \<^verbatim>\<open>Blog.find().sort({ createdAt: -1 })\<close>.
  \<^item> \<open>findById\<close>, \<open>findByIdAndUpdate\<close>, \<open>findByIdAndDelete\<close>: the identifier string is
    cast first; the update validates the new fields (\<^verbatim>\<open>runValidators: true\<close>), replaces
    the three fields, refreshes \<open>updatedAt\<close> and returns the document after the update
    (\<^verbatim>\<open>new: true\<close>); the delete returns the document it removed.

  Identifiers come from a counter taken modulo \<open>2 ^ 96\<close>; the unique index on the
  identifier is the duplicate-key check of \<open>save\<close>. \<open>store_inv\<close> is the invariant of the
  collection; \<open>abs_store\<close> maps a store to the finite map it implements, and the
  refinement lemmas say that each call is the corresponding map operation. The contract
  of the adapter is stated on finite maps (\<open>create_spec\<close>, \<open>updateById_spec\<close>,
  \<open>deleteById_spec\<close>, \<open>listAll_spec\<close>), and the last section proves that the calls
  implement it. \<open>quiet\<close>, \<open>failing\<close>, \<open>sample_doc\<close> and \<open>sample_store\<close> are sample
  data for instances of the theorems.
\<close>

section \<open>State, environment, errors\<close>

record store =
  posts :: "blog list"
  next_oid :: nat

record env =
  now :: nat
  fault :: "string option"

datatype persist_error =
    ValidationError path_errors
  | CastIdError
  | DuplicateKey
  | StoreFailure string

record draft =
  draft_id :: oid
  draft_fields :: "(path_errors, valid_fields) result"

definition empty_store :: store where
  "empty_store = \<lparr>posts = [], next_oid = 0\<rparr>"

section \<open>Creating\<close>

definition fresh_oid :: "store \<Rightarrow> oid" where
  "fresh_oid s = word_of_nat (next_oid s)"

definition new_Blog :: "fields \<Rightarrow> store \<Rightarrow> draft \<times> store" where
  "new_Blog f s =
     (\<lparr>draft_id = fresh_oid s, draft_fields = validated f\<rparr>,
      s\<lparr>next_oid := Suc (next_oid s)\<rparr>)"

definition new_doc :: "nat \<Rightarrow> oid \<Rightarrow> valid_fields \<Rightarrow> blog" where
  "new_doc t i g =
     (case g of (ti, bo, au) \<Rightarrow>
        \<lparr>doc_id = i, title = ti, body = bo, author = au, createdAt = t, updatedAt = t\<rparr>)"

definition save :: "env \<Rightarrow> draft \<Rightarrow> store \<Rightarrow> (persist_error, blog \<times> store) result" where
  "save e dr s =
     (case draft_fields dr of
        Inl es \<Rightarrow> Inl (ValidationError es)
      | Inr g \<Rightarrow>
          (case fault e of
             Some m \<Rightarrow> Inl (StoreFailure m)
           | None \<Rightarrow>
               (case lookup_by doc_id (draft_id dr) (posts s) of
                  Some d \<Rightarrow> Inl DuplicateKey
                | None \<Rightarrow>
                    let d = new_doc (now e) (draft_id dr) g
                    in Inr (d, s\<lparr>posts := posts s @ [d]\<rparr>))))"

section \<open>Reading\<close>

definition find_sorted :: "env \<Rightarrow> store \<Rightarrow> (persist_error, blog list) result" where
  "find_sorted e s =
     (case fault e of
        Some m \<Rightarrow> Inl (StoreFailure m)
      | None \<Rightarrow> Inr (sort_desc createdAt (posts s)))"

definition findById :: "env \<Rightarrow> string \<Rightarrow> store \<Rightarrow> (persist_error, blog option) result" where
  "findById e i s =
     (case oid_of_string i of
        None \<Rightarrow> Inl CastIdError
      | Some w \<Rightarrow>
          (case fault e of
             Some m \<Rightarrow> Inl (StoreFailure m)
           | None \<Rightarrow> Inr (lookup_by doc_id w (posts s))))"

section \<open>Updating and deleting\<close>

definition apply_update :: "nat \<Rightarrow> valid_fields \<Rightarrow> blog \<Rightarrow> blog" where
  "apply_update t g d =
     (case g of (ti, bo, au) \<Rightarrow>
        d\<lparr>title := ti, body := bo, author := au, updatedAt := t\<rparr>)"

definition findByIdAndUpdate ::
    "env \<Rightarrow> string \<Rightarrow> fields \<Rightarrow> store \<Rightarrow> (persist_error, blog option \<times> store) result" where
  "findByIdAndUpdate e i f s =
     (case oid_of_string i of
        None \<Rightarrow> Inl CastIdError
      | Some w \<Rightarrow>
          (case validated_update f of
             Inl es \<Rightarrow> Inl (ValidationError es)
           | Inr g \<Rightarrow>
               (case fault e of
                  Some m \<Rightarrow> Inl (StoreFailure m)
                | None \<Rightarrow>
                    (case lookup_by doc_id w (posts s) of
                       None \<Rightarrow> Inr (None, s)
                     | Some d \<Rightarrow>
                         let d' = apply_update (now e) g d
                         in Inr (Some d', s\<lparr>posts := replace_by doc_id w d' (posts s)\<rparr>)))))"

definition findByIdAndDelete ::
    "env \<Rightarrow> string \<Rightarrow> store \<Rightarrow> (persist_error, blog option \<times> store) result" where
  "findByIdAndDelete e i s =
     (case oid_of_string i of
        None \<Rightarrow> Inl CastIdError
      | Some w \<Rightarrow>
          (case fault e of
             Some m \<Rightarrow> Inl (StoreFailure m)
           | None \<Rightarrow>
               (case lookup_by doc_id w (posts s) of
                  None \<Rightarrow> Inr (None, s)
                | Some d \<Rightarrow> Inr (Some d, s\<lparr>posts := delete_by doc_id w (posts s)\<rparr>))))"

section \<open>Error messages\<close>

fun path_message :: "string \<times> path_error \<Rightarrow> string" where
  "path_message (k, ValidatorError) = k @ '': Path '' @ k @ '' is required.''"
| "path_message (k, CastError) = k @ '': Cast to string failed at path '' @ k"

fun join :: "string \<Rightarrow> string list \<Rightarrow> string" where
  "join sep [] = []"
| "join sep [x] = x"
| "join sep (x # y # ys) = x @ sep @ join sep (y # ys)"

fun error_message :: "persist_error \<Rightarrow> string" where
  "error_message (ValidationError es) =
     ''Blog validation failed: '' @ join '', '' (map path_message es)"
| "error_message CastIdError = ''Cast to ObjectId failed''"
| "error_message DuplicateKey = ''E11000 duplicate key error''"
| "error_message (StoreFailure m) = m"

section \<open>The invariant and the abstraction\<close>

definition ids :: "store \<Rightarrow> oid set" where
  "ids s = keys_of doc_id (posts s)"

definition store_inv :: "store \<Rightarrow> bool" where
  "store_inv s \<longleftrightarrow>
     distinct (map doc_id (posts s)) \<and>
     (\<forall>d \<in> set (posts s). valid_blog d) \<and>
     (next_oid s \<le> 2 ^ 96 \<longrightarrow> (\<forall>d \<in> set (posts s). unat (doc_id d) < next_oid s))"

definition abs_store :: "store \<Rightarrow> (oid \<rightharpoonup> blog)" where
  "abs_store s = keyed_map doc_id (posts s)"

text \<open>The timestamps of a collection read off a clock that had not passed \<open>t\<close>: no
  document was updated before it was created, or after \<open>t\<close>.\<close>

definition stamped_by :: "nat \<Rightarrow> store \<Rightarrow> bool" where
  "stamped_by t s \<longleftrightarrow>
     (\<forall>d \<in> set (posts s). createdAt d \<le> updatedAt d \<and> updatedAt d \<le> t)"

text \<open>A draft made by \<open>new_Blog\<close> in the state just before: its identifier is below the
  counter and its fields, if valid, are well formed.\<close>

definition draft_ok :: "draft \<Rightarrow> store \<Rightarrow> bool" where
  "draft_ok dr s \<longleftrightarrow>
     (next_oid s \<le> 2 ^ 96 \<longrightarrow> unat (draft_id dr) < next_oid s) \<and>
     (case draft_fields dr of Inl es \<Rightarrow> es \<noteq> [] | Inr g \<Rightarrow> valid_fields g)"

section \<open>The contract of the adapter\<close>

text \<open>
  What the adapter promises, stated on the collection seen as a finite map from
  identifiers to records: creating adds a record under a key that is not taken, updating
  replaces the record under a key and returns the new one, deleting removes it and
  returns the old one, and listing returns every record once, newest first.
\<close>

type_synonym collection = "oid \<rightharpoonup> blog"

definition create_spec :: "blog \<Rightarrow> collection \<Rightarrow> collection option" where
  "create_spec d m = (case m (doc_id d) of None \<Rightarrow> Some (m(doc_id d \<mapsto> d)) | Some d' \<Rightarrow> None)"

definition updateById_spec ::
    "oid \<Rightarrow> (blog \<Rightarrow> blog) \<Rightarrow> collection \<Rightarrow> blog option \<times> collection" where
  "updateById_spec w u m =
     (case m w of None \<Rightarrow> (None, m) | Some d \<Rightarrow> (Some (u d), m(w \<mapsto> u d)))"

definition deleteById_spec :: "oid \<Rightarrow> collection \<Rightarrow> blog option \<times> collection" where
  "deleteById_spec w m = (m w, m(w := None))"

definition listAll_spec :: "collection \<Rightarrow> blog list \<Rightarrow> bool" where
  "listAll_spec m ds \<longleftrightarrow> distinct ds \<and> set ds = ran m \<and> descending createdAt ds"

section \<open>Sample data\<close>

definition quiet :: "nat \<Rightarrow> env" where
  "quiet t = \<lparr>now = t, fault = None\<rparr>"

definition failing :: "nat \<Rightarrow> string \<Rightarrow> env" where
  "failing t m = \<lparr>now = t, fault = Some m\<rparr>"

definition sample_doc :: blog where
  "sample_doc =
     \<lparr>doc_id = 0, title = ''Old'', body = ''Text'', author = Some ''Ann'', createdAt = 3,
      updatedAt = 3\<rparr>"

definition sample_store :: store where
  "sample_store = \<lparr>posts = [sample_doc], next_oid = 1\<rparr>"

section \<open>Lemmas: what each call returns\<close>

lemma lookup_ids: "lookup_by doc_id w (posts s) = None \<longleftrightarrow> w \<notin> ids s"
  by (simp add: ids_def lookup_by_None_iff)

lemma lookup_ids_Some: "lookup_by doc_id w (posts s) = Some d \<Longrightarrow> w \<in> ids s \<and> doc_id d = w"
  by (auto simp: ids_def keys_of_def dest: lookup_by_SomeD)

lemma save_invalid:
  "draft_fields dr = Inl es \<Longrightarrow> save e dr s = Inl (ValidationError es)"
  by (simp add: save_def)

lemma save_fault:
  "draft_fields dr = Inr g \<Longrightarrow> fault e = Some m \<Longrightarrow> save e dr s = Inl (StoreFailure m)"
  by (simp add: save_def)

lemma save_duplicate:
  "draft_fields dr = Inr g \<Longrightarrow> fault e = None \<Longrightarrow> draft_id dr \<in> ids s \<Longrightarrow>
   save e dr s = Inl DuplicateKey"
  by (cases "lookup_by doc_id (draft_id dr) (posts s)") (auto simp: save_def lookup_ids)

lemma save_ok:
  "draft_fields dr = Inr g \<Longrightarrow> fault e = None \<Longrightarrow> draft_id dr \<notin> ids s \<Longrightarrow>
   save e dr s =
     Inr (new_doc (now e) (draft_id dr) g,
          s\<lparr>posts := posts s @ [new_doc (now e) (draft_id dr) g]\<rparr>)"
  by (simp add: save_def Let_def lookup_ids [THEN iffD2])

lemma save_InrD:
  assumes "save e dr s = Inr (d, s')"
  obtains g where "draft_fields dr = Inr g" and "fault e = None"
    and "draft_id dr \<notin> ids s" and "d = new_doc (now e) (draft_id dr) g"
    and "s' = s\<lparr>posts := posts s @ [d]\<rparr>"
  using assms
  by (auto simp: save_def Let_def lookup_ids split: sum.splits option.splits)

lemma find_sorted_ok: "fault e = None \<Longrightarrow> find_sorted e s = Inr (sort_desc createdAt (posts s))"
  by (simp add: find_sorted_def)

lemma find_sorted_fault: "fault e = Some m \<Longrightarrow> find_sorted e s = Inl (StoreFailure m)"
  by (simp add: find_sorted_def)

lemma findById_ok:
  "oid_of_string i = Some w \<Longrightarrow> fault e = None \<Longrightarrow>
   findById e i s = Inr (lookup_by doc_id w (posts s))"
  by (simp add: findById_def)

lemma findById_fault:
  "isValid i \<Longrightarrow> fault e = Some m \<Longrightarrow> findById e i s = Inl (StoreFailure m)"
  by (auto simp: findById_def isValid_iff_cast)

lemma findById_invalid: "\<not> isValid i \<Longrightarrow> findById e i s = Inl CastIdError"
  by (simp add: findById_def oid_of_string_None_iff [THEN iffD2])

lemma findByIdAndUpdate_found:
  "oid_of_string i = Some w \<Longrightarrow> validated_update f = Inr g \<Longrightarrow> fault e = None \<Longrightarrow>
   lookup_by doc_id w (posts s) = Some d \<Longrightarrow>
   findByIdAndUpdate e i f s =
     Inr (Some (apply_update (now e) g d),
          s\<lparr>posts := replace_by doc_id w (apply_update (now e) g d) (posts s)\<rparr>)"
  by (simp add: findByIdAndUpdate_def Let_def)

lemma findByIdAndUpdate_missing:
  "oid_of_string i = Some w \<Longrightarrow> validated_update f = Inr g \<Longrightarrow> fault e = None \<Longrightarrow>
   w \<notin> ids s \<Longrightarrow> findByIdAndUpdate e i f s = Inr (None, s)"
  by (simp add: findByIdAndUpdate_def lookup_ids [THEN iffD2])

lemma findByIdAndUpdate_invalid:
  "oid_of_string i = Some w \<Longrightarrow> validated_update f = Inl es \<Longrightarrow>
   findByIdAndUpdate e i f s = Inl (ValidationError es)"
  by (simp add: findByIdAndUpdate_def)

lemma findByIdAndUpdate_fault:
  "oid_of_string i = Some w \<Longrightarrow> validated_update f = Inr g \<Longrightarrow> fault e = Some m \<Longrightarrow>
   findByIdAndUpdate e i f s = Inl (StoreFailure m)"
  by (simp add: findByIdAndUpdate_def)

lemma findByIdAndDelete_ok:
  assumes "oid_of_string i = Some w" and "fault e = None"
  shows "findByIdAndDelete e i s =
     Inr (lookup_by doc_id w (posts s), s\<lparr>posts := delete_by doc_id w (posts s)\<rparr>)"
proof (cases "lookup_by doc_id w (posts s)")
  case None
  then have "delete_by doc_id w (posts s) = posts s"
    by (simp add: lookup_by_None_iff delete_by_absent)
  with None assms show ?thesis
    by (simp add: findByIdAndDelete_def)
qed (use assms in \<open>simp add: findByIdAndDelete_def\<close>)

lemma findByIdAndUpdate_cases [consumes 1, case_names missing found]:
  assumes "findByIdAndUpdate e i f s = Inr (r, s')"
  obtains (missing) w g where "oid_of_string i = Some w" and "validated_update f = Inr g"
      and "fault e = None" and "w \<notin> ids s" and "r = None" and "s' = s"
  | (found) w g d where "oid_of_string i = Some w" and "validated_update f = Inr g"
      and "fault e = None" and "lookup_by doc_id w (posts s) = Some d"
      and "r = Some (apply_update (now e) g d)"
      and "s' = s\<lparr>posts := replace_by doc_id w (apply_update (now e) g d) (posts s)\<rparr>"
proof -
  from assms obtain w where w: "oid_of_string i = Some w"
    by (cases "oid_of_string i") (simp_all add: findByIdAndUpdate_def)
  from assms w obtain g where g: "validated_update f = Inr g"
    by (cases "validated_update f") (simp_all add: findByIdAndUpdate_def)
  from assms w g have e: "fault e = None"
    by (cases "fault e") (simp_all add: findByIdAndUpdate_def)
  show thesis
  proof (cases "lookup_by doc_id w (posts s)")
    case None
    with assms w g e have "r = None" and "s' = s"
      by (simp_all add: findByIdAndUpdate_def)
    with None w g e show thesis
      by (intro missing) (simp_all add: lookup_ids)
  next
    case (Some d)
    with assms w g e have "r = Some (apply_update (now e) g d)"
      and "s' = s\<lparr>posts := replace_by doc_id w (apply_update (now e) g d) (posts s)\<rparr>"
      by (simp_all add: findByIdAndUpdate_def Let_def)
    with Some w g e show thesis
      by (intro found)
  qed
qed

lemma findByIdAndDelete_cases [consumes 1, case_names missing found]:
  assumes "findByIdAndDelete e i s = Inr (r, s')"
  obtains (missing) w where "oid_of_string i = Some w" and "fault e = None"
      and "w \<notin> ids s" and "r = None" and "s' = s"
  | (found) w d where "oid_of_string i = Some w" and "fault e = None"
      and "lookup_by doc_id w (posts s) = Some d" and "r = Some d"
      and "s' = s\<lparr>posts := delete_by doc_id w (posts s)\<rparr>"
proof -
  from assms obtain w where w: "oid_of_string i = Some w"
    by (cases "oid_of_string i") (simp_all add: findByIdAndDelete_def)
  from assms w have e: "fault e = None"
    by (cases "fault e") (simp_all add: findByIdAndDelete_def)
  show thesis
  proof (cases "lookup_by doc_id w (posts s)")
    case None
    with assms w e have "r = None" and "s' = s"
      by (simp_all add: findByIdAndDelete_def)
    with None w e show thesis
      by (intro missing) (simp_all add: lookup_ids)
  next
    case (Some d)
    with assms w e have "r = Some d"
      and "s' = s\<lparr>posts := delete_by doc_id w (posts s)\<rparr>"
      by (simp_all add: findByIdAndDelete_def)
    with Some w e show thesis
      by (intro found)
  qed
qed

section \<open>Lemmas: documents\<close>

lemma new_doc_simps [simp]:
  "doc_id (new_doc t i g) = i" "createdAt (new_doc t i g) = t" "updatedAt (new_doc t i g) = t"
  "title (new_doc t i g) = fst g" "body (new_doc t i g) = fst (snd g)"
  "author (new_doc t i g) = snd (snd g)"
  by (simp_all add: new_doc_def split: prod.splits)

lemma apply_update_simps [simp]:
  "doc_id (apply_update t g d) = doc_id d" "createdAt (apply_update t g d) = createdAt d"
  "updatedAt (apply_update t g d) = t"
  "title (apply_update t g d) = fst g" "body (apply_update t g d) = fst (snd g)"
  "author (apply_update t g d) = snd (snd g)"
  by (simp_all add: apply_update_def split: prod.splits)

lemma valid_blog_new_doc [simp]: "valid_blog (new_doc t i g) \<longleftrightarrow> valid_fields g"
  by (simp add: valid_blog_def)

lemma valid_blog_apply_update [simp]: "valid_blog (apply_update t g d) \<longleftrightarrow> valid_fields g"
  by (simp add: valid_blog_def)

section \<open>Lemmas: the invariant\<close>

lemma store_inv_empty: "store_inv empty_store"
  by (simp add: store_inv_def empty_store_def)

lemma store_invD:
  "store_inv s \<Longrightarrow> distinct (map doc_id (posts s))"
  "store_inv s \<Longrightarrow> d \<in> set (posts s) \<Longrightarrow> valid_blog d"
  "store_inv s \<Longrightarrow> next_oid s \<le> 2 ^ 96 \<Longrightarrow> d \<in> set (posts s) \<Longrightarrow>
     unat (doc_id d) < next_oid s"
  by (auto simp: store_inv_def)

lemma ids_simps [simp]:
  "ids (s\<lparr>next_oid := n\<rparr>) = ids s"
  "ids (s\<lparr>posts := ds\<rparr>) = keys_of doc_id ds"
  "ids empty_store = {}"
  by (simp_all add: ids_def empty_store_def)

text \<open>Below \<open>2 ^ 96\<close> generated identifiers the next one is new to the collection.\<close>

lemma fresh_oid_fresh:
  assumes "store_inv s" and "next_oid s < 2 ^ 96"
  shows "fresh_oid s \<notin> ids s"
proof
  assume "fresh_oid s \<in> ids s"
  then obtain d where d: "d \<in> set (posts s)" and eq: "doc_id d = fresh_oid s"
    by (auto simp: ids_def keys_of_def)
  from assms d have "unat (doc_id d) < next_oid s"
    by (simp add: store_invD)
  moreover from assms(2) have "unat (fresh_oid s) = next_oid s"
    by (simp add: fresh_oid_def unat_of_nat)
  ultimately show False
    using eq by simp
qed

lemma new_Blog_inv:
  assumes "store_inv s" and "new_Blog f s = (dr, s')"
  shows "store_inv s'" and "draft_ok dr s'"
proof -
  from assms(2) have s': "s' = s\<lparr>next_oid := Suc (next_oid s)\<rparr>"
    and dr: "draft_id dr = fresh_oid s" "draft_fields dr = validated f"
    by (auto simp: new_Blog_def)
  from assms(1) show "store_inv s'"
    by (auto simp: s' store_inv_def intro: less_SucI)
  have "unat (fresh_oid s) \<le> next_oid s"
    by (simp add: fresh_oid_def unat_of_nat)
  then show "draft_ok dr s'"
    by (auto simp: draft_ok_def s' dr dest: validated_Inl validated_valid split: sum.splits)
qed

lemma new_Blog_fresh:
  assumes "store_inv s" and "next_oid s < 2 ^ 96" and "new_Blog f s = (dr, s')"
  shows "draft_id dr \<notin> ids s'"
  using fresh_oid_fresh [OF assms(1,2)] assms(3) by (auto simp: new_Blog_def)

lemma save_inv:
  assumes "store_inv s" and "draft_ok dr s" and "save e dr s = Inr (d, s')"
  shows "store_inv s'"
proof -
  from assms(3) obtain g where g: "draft_fields dr = Inr g"
    and fresh: "draft_id dr \<notin> ids s" and d: "d = new_doc (now e) (draft_id dr) g"
    and s': "s' = s\<lparr>posts := posts s @ [d]\<rparr>"
    by (rule save_InrD)
  from assms(2) g have "valid_fields g"
    and "next_oid s \<le> 2 ^ 96 \<longrightarrow> unat (draft_id dr) < next_oid s"
    by (simp_all add: draft_ok_def)
  with assms(1) fresh show ?thesis
    by (auto simp: store_inv_def s' d ids_def keys_of_def)
qed

lemma update_inv:
  assumes "store_inv s" and "findByIdAndUpdate e i f s = Inr (r, s')"
  shows "store_inv s'"
  using assms(2)
proof (cases rule: findByIdAndUpdate_cases)
  case (missing w g)
  with assms(1) show ?thesis by simp
next
  case (found w g d)
  let ?d = "apply_update (now e) g d"
  from found(2) have vg: "valid_fields g"
    by (rule validated_update_valid)
  from found(4) have w: "doc_id ?d = w" and dm: "d \<in> set (posts s)"
    by (auto dest: lookup_by_SomeD)
  have sub: "set (posts s') \<subseteq> insert ?d (set (posts s))"
    by (simp add: found(6) set_replace_by_subset)
  from w have keys: "map doc_id (posts s') = map doc_id (posts s)"
    by (simp add: found(6) map_key_replace_by)
  from assms(1) vg dm sub show ?thesis
    unfolding store_inv_def keys by (auto simp: found(6) w)
qed

lemma delete_inv:
  assumes "store_inv s" and "findByIdAndDelete e i s = Inr (r, s')"
  shows "store_inv s'"
  using assms(2)
proof (cases rule: findByIdAndDelete_cases)
  case (missing w)
  with assms(1) show ?thesis by simp
next
  case (found w d)
  have "set (posts s') \<subseteq> set (posts s)"
    by (simp add: found(5) set_delete_by_subset)
  with assms(1) show ?thesis
    by (auto simp: store_inv_def found(5) distinct_delete_by)
qed

section \<open>Lemmas: the store implements a finite map\<close>

lemma abs_store_lookup: "abs_store s w = lookup_by doc_id w (posts s)"
  by (simp add: abs_store_def keyed_map_lookup)

lemma dom_abs_store: "dom (abs_store s) = ids s"
  by (simp add: abs_store_def ids_def dom_keyed_map)

lemma abs_store_empty [simp]: "abs_store empty_store = Map.empty"
  by (simp add: abs_store_def empty_store_def keyed_map_def)

lemma findById_refines:
  "oid_of_string i = Some w \<Longrightarrow> fault e = None \<Longrightarrow> findById e i s = Inr (abs_store s w)"
  by (simp add: findById_ok abs_store_lookup)

lemma save_refines:
  assumes "save e dr s = Inr (d, s')"
  shows "abs_store s' = (abs_store s)(doc_id d \<mapsto> d)" and "doc_id d \<notin> dom (abs_store s)"
proof -
  from assms obtain g where fresh: "draft_id dr \<notin> ids s"
    and d: "d = new_doc (now e) (draft_id dr) g" and s': "s' = s\<lparr>posts := posts s @ [d]\<rparr>"
    by (rule save_InrD)
  from fresh d show "doc_id d \<notin> dom (abs_store s)"
    by (simp add: dom_abs_store)
  from fresh d show "abs_store s' = (abs_store s)(doc_id d \<mapsto> d)"
    by (simp add: abs_store_def s' ids_def keyed_map_snoc)
qed

lemma update_refines:
  assumes "findByIdAndUpdate e i f s = Inr (r, s')" and "oid_of_string i = Some w"
  shows "abs_store s' = (case r of None \<Rightarrow> abs_store s | Some d \<Rightarrow> (abs_store s)(w \<mapsto> d))"
  using assms(1)
proof (cases rule: findByIdAndUpdate_cases)
  case (missing v g)
  then show ?thesis by simp
next
  case (found v g d)
  with assms(2) have v: "v = w" by simp
  from found(4) have "w \<in> keys_of doc_id (posts s)" and "doc_id d = w"
    using lookup_ids_Some [of v s d] by (simp_all add: v ids_def)
  then show ?thesis
    by (simp add: found(5,6) v abs_store_def keyed_map_replace_by)
qed

lemma update_result:
  assumes "findByIdAndUpdate e i f s = Inr (r, s')" and "oid_of_string i = Some w"
  shows "r = None \<longleftrightarrow> abs_store s w = None"
  using assms(1)
proof (cases rule: findByIdAndUpdate_cases)
  case (missing v g)
  with assms(2) show ?thesis
    by (simp add: abs_store_lookup lookup_ids)
next
  case (found v g d)
  with assms(2) show ?thesis
    by (simp add: abs_store_lookup)
qed

lemma delete_result:
  assumes "findByIdAndDelete e i s = Inr (r, s')" and "oid_of_string i = Some w"
  shows "r = abs_store s w"
  using assms(1)
proof (cases rule: findByIdAndDelete_cases)
  case (missing v)
  with assms(2) have "abs_store s w = None"
    by (simp add: abs_store_lookup lookup_ids)
  with missing show ?thesis by simp
next
  case (found v d)
  with assms(2) show ?thesis
    by (simp add: abs_store_lookup)
qed

lemma delete_refines:
  assumes "store_inv s" and "findByIdAndDelete e i s = Inr (r, s')"
    and "oid_of_string i = Some w"
  shows "abs_store s' = (abs_store s)(w := None)"
  using assms(2)
proof (cases rule: findByIdAndDelete_cases)
  case (missing v)
  with assms(3) have "abs_store s w = None"
    by (simp add: abs_store_lookup lookup_ids)
  with missing show ?thesis
    by (simp add: fun_upd_idem)
next
  case (found v d)
  with assms(3) have v: "v = w" by simp
  from assms(1) show ?thesis
    by (simp add: found(5) v abs_store_def keyed_map_delete_by store_invD)
qed

section \<open>Lemmas: the sorted listing\<close>

lemma find_sorted_InrD:
  "find_sorted e s = Inr ds \<Longrightarrow> fault e = None \<and> ds = sort_desc createdAt (posts s)"
  by (auto simp: find_sorted_def split: option.splits)

lemma find_sorted_props:
  assumes "find_sorted e s = Inr ds"
  shows "mset ds = mset (posts s)" and "length ds = length (posts s)"
    and "descending createdAt ds"
  using find_sorted_InrD [OF assms] by (simp_all add: descending_sort_desc)

section \<open>Lemmas: timestamps\<close>

lemma stamped_by_empty [simp]: "stamped_by t empty_store"
  by (simp add: stamped_by_def empty_store_def)

lemma stamped_by_mono: "stamped_by t s \<Longrightarrow> t \<le> u \<Longrightarrow> stamped_by u s"
  by (fastforce simp: stamped_by_def)

lemma stamped_by_counter [simp]: "stamped_by t (s\<lparr>next_oid := n\<rparr>) = stamped_by t s"
  by (simp add: stamped_by_def)

lemma save_stamped:
  assumes "stamped_by t s" and "t \<le> now e" and "save e dr s = Inr (d, s')"
  shows "stamped_by (now e) s'"
proof -
  from assms(3) obtain g where "d = new_doc (now e) (draft_id dr) g"
    and "s' = s\<lparr>posts := posts s @ [d]\<rparr>"
    by (rule save_InrD)
  with stamped_by_mono [OF assms(1,2)] show ?thesis
    by (auto simp: stamped_by_def)
qed

lemma update_stamped:
  assumes "stamped_by t s" and "t \<le> now e" and "findByIdAndUpdate e i f s = Inr (r, s')"
  shows "stamped_by (now e) s'"
  using assms(3)
proof (cases rule: findByIdAndUpdate_cases)
  case (missing w g)
  with stamped_by_mono [OF assms(1,2)] show ?thesis by simp
next
  case (found w g d)
  let ?d = "apply_update (now e) g d"
  from found(4) have "d \<in> set (posts s)"
    by (auto dest: lookup_by_SomeD)
  with assms(1,2) have "createdAt ?d \<le> updatedAt ?d"
    by (fastforce simp: stamped_by_def)
  moreover have "set (posts s') \<subseteq> insert ?d (set (posts s))"
    by (simp add: found(6) set_replace_by_subset)
  ultimately show ?thesis
    using stamped_by_mono [OF assms(1,2)] by (auto simp: stamped_by_def)
qed

lemma delete_stamped:
  assumes "stamped_by t s" and "t \<le> now e" and "findByIdAndDelete e i s = Inr (r, s')"
  shows "stamped_by (now e) s'"
proof -
  from assms(3) have "set (posts s') \<subseteq> set (posts s)"
    by (cases rule: findByIdAndDelete_cases) (auto dest: set_delete_by_subset [THEN subsetD])
  with stamped_by_mono [OF assms(1,2)] show ?thesis
    by (auto simp: stamped_by_def)
qed

section \<open>Lemmas: the sample data\<close>

lemmas env_defs = quiet_def failing_def

lemma store_inv_sample: "store_inv sample_store"
  by (simp add: store_inv_def sample_store_def sample_doc_def valid_blog_def valid_fields_def
      clean_def trim_def is_space_def)

lemma lookup_sample: "lookup_by doc_id 0 (posts sample_store) = Some sample_doc"
  by (simp add: sample_store_def sample_doc_def lookup_by_def)

lemma posts_sample: "posts sample_store = [sample_doc]"
  by (simp add: sample_store_def)

lemma next_oid_sample: "next_oid sample_store = 1"
  by (simp add: sample_store_def)

lemma abs_store_sample: "abs_store sample_store = [0 \<mapsto> sample_doc]"
  by (rule ext) (simp add: abs_store_lookup sample_store_def sample_doc_def lookup_by_def)

section \<open>The adapter implements its contract\<close>

text \<open>
  C21. Saving a validated draft on a store that answers implements the creation of the
  contract: it fails with a duplicate-key error exactly when the contract has no result,
  and otherwise returns the new record, with the fields validated and both timestamps
  equal to the time of the call, and leaves the collection of the contract.
\<close>

theorem create_implements_contract:
  assumes "draft_fields dr = Inr g" and "fault e = None"
  shows "case save e dr s of
      Inl err \<Rightarrow> err = DuplicateKey \<and>
        create_spec (new_doc (now e) (draft_id dr) g) (abs_store s) = None
    | Inr (d, s') \<Rightarrow> d = new_doc (now e) (draft_id dr) g \<and>
        create_spec d (abs_store s) = Some (abs_store s')"
proof (cases "draft_id dr \<in> ids s")
  case True
  then obtain d' where "abs_store s (draft_id dr) = Some d'"
    by (auto simp: dom_abs_store [symmetric])
  with assms True show ?thesis
    by (simp add: save_duplicate create_spec_def)
next
  case False
  then have "abs_store s (draft_id dr) = None"
    by (simp add: abs_store_lookup lookup_ids)
  with assms False show ?thesis
    by (simp add: save_ok create_spec_def abs_store_def keyed_map_snoc ids_def)
qed

theorem create_implements_contract_witness:
  "case save (quiet 5) \<lparr>draft_id = 1, draft_fields = Inr (''T'', ''B'', None)\<rparr> sample_store of
     Inl err \<Rightarrow> False
   | Inr (d, s') \<Rightarrow> abs_store s' = [0 \<mapsto> sample_doc, 1 \<mapsto> d]"
  using create_implements_contract [of "\<lparr>draft_id = 1, draft_fields = Inr (''T'', ''B'', None)\<rparr>"
      "(''T'', ''B'', None)" "quiet 5" sample_store]
  by (auto simp: quiet_def create_spec_def abs_store_sample split: sum.splits option.splits)

text \<open>
  C22. Updating by identifier, with fields that pass the validation and on a store that
  answers, implements the update of the contract: it returns the record after the
  update, or nothing when no record has the identifier, and leaves the collection of the
  contract.
\<close>

theorem update_implements_contract:
  assumes "oid_of_string i = Some w" and "validated_update f = Inr g" and "fault e = None"
  shows "\<exists>r s'. findByIdAndUpdate e i f s = Inr (r, s') \<and>
    (r, abs_store s') = updateById_spec w (apply_update (now e) g) (abs_store s)"
proof (cases "lookup_by doc_id w (posts s)")
  case None
  with assms show ?thesis
    by (simp add: findByIdAndUpdate_missing lookup_ids [symmetric] updateById_spec_def
        abs_store_lookup)
next
  case (Some d)
  then have "w \<in> keys_of doc_id (posts s)" and "doc_id (apply_update (now e) g d) = w"
    by (auto dest: lookup_by_SomeD simp: keys_of_def)
  with assms Some show ?thesis
    by (simp add: findByIdAndUpdate_found updateById_spec_def abs_store_def keyed_map_lookup
        keyed_map_replace_by)
qed

theorem update_implements_contract_witness:
  "\<exists>r s'. findByIdAndUpdate (quiet 8) zero_id (JStr ''New'', JStr ''Body'', JNull)
       sample_store = Inr (r, s') \<and>
     r = Some (sample_doc\<lparr>title := ''New'', body := ''Body'', author := None, updatedAt := 8\<rparr>) \<and>
     abs_store s' = [0 \<mapsto> sample_doc\<lparr>title := ''New'', body := ''Body'', author := None,
       updatedAt := 8\<rparr>]"
  using update_implements_contract [OF oid_zero, of "(JStr ''New'', JStr ''Body'', JNull)"
      "(''New'', ''Body'', None)" "quiet 8" sample_store]
  by (auto simp: quiet_def validated_update_no_author updateById_spec_def abs_store_sample
      apply_update_def trim_def is_space_def)

text \<open>
  C23. Deleting by identifier on a store that answers implements the deletion of the
  contract: it returns the record as it was, or nothing when no record has the
  identifier, and the record is gone from the collection afterwards.
\<close>

theorem delete_implements_contract:
  assumes "store_inv s" and "oid_of_string i = Some w" and "fault e = None"
  shows "\<exists>r s'. findByIdAndDelete e i s = Inr (r, s') \<and>
    (r, abs_store s') = deleteById_spec w (abs_store s)"
  using assms
  by (simp add: findByIdAndDelete_ok deleteById_spec_def abs_store_def keyed_map_lookup
      keyed_map_delete_by store_inv_def)

theorem delete_implements_contract_witness:
  "\<exists>s'. findByIdAndDelete (quiet 8) zero_id sample_store = Inr (Some sample_doc, s') \<and>
     abs_store s' = Map.empty"
  using delete_implements_contract [OF store_inv_sample oid_zero, of "quiet 8"]
  by (auto simp: quiet_def deleteById_spec_def abs_store_sample)

text \<open>
  C24. Reading implements the contract: on a store that answers, the listing returns
  every record of the collection exactly once, newest first, and a lookup by identifier
  returns the record of the collection under that identifier, if there is one.
\<close>

theorem reads_implement_contract:
  assumes "store_inv s" and "fault e = None"
  shows "(\<exists>ds. find_sorted e s = Inr ds \<and> listAll_spec (abs_store s) ds) \<and>
    (\<forall>w. oid_of_string i = Some w \<longrightarrow> findById e i s = Inr (abs_store s w))"
proof -
  from assms(1) have d: "distinct (map doc_id (posts s))"
    by (simp add: store_inv_def)
  then have "distinct (posts s)"
    by (simp add: distinct_map)
  with d have "listAll_spec (abs_store s) (sort_desc createdAt (posts s))"
    by (simp add: listAll_spec_def abs_store_def ran_keyed_map descending_sort_desc
        distinct_sort_desc)
  with assms(2) show ?thesis
    by (simp add: find_sorted_ok findById_refines)
qed

theorem reads_implement_contract_witness:
  "find_sorted (quiet 9) sample_store = Inr [sample_doc] \<and>
   findById (quiet 9) zero_id sample_store = Inr (Some sample_doc)"
  using reads_implement_contract [OF store_inv_sample, of "quiet 9" zero_id]
  by (simp add: quiet_def oid_zero abs_store_sample find_sorted_ok sort_desc_def
      posts_sample)

end
