(* ===== verification/Blog_Handlers.thy ===== *)
theory Blog_Handlers
  imports Blog_Store
begin

text \<open>
  The five request handlers of \<^verbatim>\<open>src/index.js\<close>, with the checks in the order the code
  makes them. A handler takes the environment of its one store call, its inputs (the
  route parameter \<^verbatim>\<open>:id\<close> as a string, \<^verbatim>\<open>req.body\<close> as a \<open>jsval\<close>) and the store. Its
  \<^verbatim>\<open>try\<close> block (\<open>post_blogs_try\<close> and so on) sends a response, at an early \<^verbatim>\<open>return\<close>
  or at its end, or throws what the destructuring or the store call threw. \<open>try_catch\<close>
  is the \<^verbatim>\<open>catch\<close> block that every handler has: it writes the label of the route and
  the error to the console and sends the 500 response. The whole handler
  (\<open>post_blogs_io\<close> and so on) returns the lines written to the console, the response
  and the store afterwards; \<open>post_blogs\<close>, \<open>get_blogs\<close>, \<open>get_blog\<close>, \<open>put_blog\<close> and
  \<open>delete_blog\<close> are its response and store. A \<open>response\<close> is the status code and the
  fields of the JSON envelope; a field the handler does not write is \<open>None\<close>.

  \<open>request\<close> names the five endpoints and \<open>handle\<close> dispatches on it. The lemmas give the
  response of each handler on each branch, the shape of every response
  (\<open>wf_response\<close>), what each handler does to the store, that each keeps the store's
  invariant, and what each writes to the console. \<open>reaches_store\<close> says whether a request
  gets as far as its store call; a request that does not is answered from the request
  alone, and one that does is answered 500 when the store fails. \<open>delta\<close> reads off a
  response what the request added to the number of documents.
\<close>

section \<open>Responses\<close>

datatype payload = Doc blog | Docs "blog list"

record response =
  status :: nat
  success :: bool
  error :: "string option"
  message :: string
  count :: "nat option"
  data :: "payload option"

definition failure :: "nat \<Rightarrow> string \<Rightarrow> string \<Rightarrow> response" where
  "failure c err msg =
     \<lparr>status = c, success = False, error = Some err, message = msg, count = None,
      data = None\<rparr>"

definition ok :: "nat \<Rightarrow> string \<Rightarrow> payload \<Rightarrow> response" where
  "ok c msg p =
     \<lparr>status = c, success = True, error = None, message = msg, count = None, data = Some p\<rparr>"

definition ok_list :: "blog list \<Rightarrow> response" where
  "ok_list ds =
     \<lparr>status = 200, success = True, error = None,
      message = ''Blogs retrieved successfully'', count = Some (length ds),
      data = Some (Docs ds)\<rparr>"

definition title_required :: response where
  "title_required = failure 400 ''Validation failed'' ''Title is required field''"

definition body_required :: response where
  "body_required = failure 400 ''Validation failed'' ''Body is required field''"

definition invalid_id :: response where
  "invalid_id = failure 400 ''Invalid ID'' ''The provided blog ID is not valid''"

definition not_found :: response where
  "not_found = failure 404 ''Not found'' ''Blog post not found''"

definition server_error :: "string \<Rightarrow> response" where
  "server_error msg = failure 500 ''Server error'' msg"

section \<open>Exceptions and the console\<close>

text \<open>
  What the \<^verbatim>\<open>catch\<close> block of a handler catches: an exception of the language or the
  rejection of a store call. \<open>thrown_message\<close> is its \<^verbatim>\<open>err.message\<close>. A line of the
  console is the text of a \<^verbatim>\<open>console.log\<close>, or the label and the error of a
  \<^verbatim>\<open>console.error\<close>.
\<close>

datatype thrown = Js_error js_error | Store_error persist_error

fun thrown_message :: "thrown \<Rightarrow> string" where
  "thrown_message (Js_error err) = js_message err"
| "thrown_message (Store_error err) = error_message err"

datatype log_line = Info string | Failure string thrown

type_synonym attempt = "(thrown + response) \<times> store"

type_synonym outcome = "(log_line list \<times> response) \<times> store"

text \<open>
  \<^verbatim>\<open>try { ... } catch (err) { console.error(label, err); res.status(500).json({...}) }\<close>:
  the response the \<^verbatim>\<open>try\<close> block sent, or the line on the console and the 500 response
  of the \<^verbatim>\<open>catch\<close> block.
\<close>

definition try_catch :: "string \<Rightarrow> attempt \<Rightarrow> outcome" where
  "try_catch label a =
     (case a of
        (Inr sent, s) \<Rightarrow> (([], sent), s)
      | (Inl err, s) \<Rightarrow> (([Failure label err], server_error (thrown_message err)), s))"

text \<open>The response and the store of an outcome, without the console.\<close>

definition answer :: "outcome \<Rightarrow> response \<times> store" where
  "answer out = (snd (fst out), snd out)"

section \<open>The handlers\<close>

text \<open>
  Each handler is given in three layers: its \<^verbatim>\<open>try\<close> block, which sends a response or
  throws; the whole handler with its \<^verbatim>\<open>catch\<close> block, which also writes to the console;
  and the response and store of that, which is what a client observes.
\<close>

text \<open>\<^verbatim>\<open>app.post('/blogs', ...)\<close>\<close>

definition post_blogs_try :: "env \<Rightarrow> jsval \<Rightarrow> store \<Rightarrow> attempt" where
  "post_blogs_try e reqbody s =
     (case destructure reqbody of
        Inl err \<Rightarrow> (Inl (Js_error err), s)
      | Inr (vtitle, vbody, vauthor) \<Rightarrow>
          if \<not> truthy vtitle then (Inr title_required, s)
          else if \<not> truthy vbody then (Inr body_required, s)
          else
            (case new_Blog (vtitle, vbody, js_or vauthor (JStr ''Anonymous'')) s of
               (blog, s1) \<Rightarrow>
                 (case save e blog s1 of
                    Inl err \<Rightarrow> (Inl (Store_error err), s1)
                  | Inr (savedBlog, s2) \<Rightarrow>
                      (Inr (ok 201 ''Blog post created successfully'' (Doc savedBlog)), s2))))"

definition post_blogs_io :: "env \<Rightarrow> jsval \<Rightarrow> store \<Rightarrow> outcome" where
  "post_blogs_io e reqbody s = try_catch ''Error creating blog:'' (post_blogs_try e reqbody s)"

definition post_blogs :: "env \<Rightarrow> jsval \<Rightarrow> store \<Rightarrow> response \<times> store" where
  "post_blogs e reqbody s = answer (post_blogs_io e reqbody s)"

text \<open>\<^verbatim>\<open>app.get('/blogs', ...)\<close>\<close>

definition get_blogs_try :: "env \<Rightarrow> store \<Rightarrow> attempt" where
  "get_blogs_try e s =
     (case find_sorted e s of
        Inl err \<Rightarrow> (Inl (Store_error err), s)
      | Inr blogs \<Rightarrow> (Inr (ok_list blogs), s))"

definition get_blogs_io :: "env \<Rightarrow> store \<Rightarrow> outcome" where
  "get_blogs_io e s = try_catch ''Error fetching blogs:'' (get_blogs_try e s)"

definition get_blogs :: "env \<Rightarrow> store \<Rightarrow> response \<times> store" where
  "get_blogs e s = answer (get_blogs_io e s)"

text \<open>\<^verbatim>\<open>app.get('/blogs/:id', ...)\<close>\<close>

definition get_blog_try :: "env \<Rightarrow> string \<Rightarrow> store \<Rightarrow> attempt" where
  "get_blog_try e i s =
     (if \<not> isValid i then (Inr invalid_id, s)
      else
        (case findById e i s of
           Inl err \<Rightarrow> (Inl (Store_error err), s)
         | Inr None \<Rightarrow> (Inr not_found, s)
         | Inr (Some blog) \<Rightarrow> (Inr (ok 200 ''Blog retrieved successfully'' (Doc blog)), s)))"

definition get_blog_io :: "env \<Rightarrow> string \<Rightarrow> store \<Rightarrow> outcome" where
  "get_blog_io e i s = try_catch ''Error fetching blog:'' (get_blog_try e i s)"

definition get_blog :: "env \<Rightarrow> string \<Rightarrow> store \<Rightarrow> response \<times> store" where
  "get_blog e i s = answer (get_blog_io e i s)"

text \<open>\<^verbatim>\<open>app.put('/blogs/:id', ...)\<close>: the body is destructured before the identifier is
  checked.\<close>

definition put_blog_try :: "env \<Rightarrow> string \<Rightarrow> jsval \<Rightarrow> store \<Rightarrow> attempt" where
  "put_blog_try e i reqbody s =
     (case destructure reqbody of
        Inl err \<Rightarrow> (Inl (Js_error err), s)
      | Inr (vtitle, vbody, vauthor) \<Rightarrow>
          if \<not> isValid i then (Inr invalid_id, s)
          else if \<not> truthy vtitle then (Inr title_required, s)
          else if \<not> truthy vbody then (Inr body_required, s)
          else
            (case findByIdAndUpdate e i (vtitle, vbody, vauthor) s of
               Inl err \<Rightarrow> (Inl (Store_error err), s)
             | Inr (None, s1) \<Rightarrow> (Inr not_found, s1)
             | Inr (Some updatedBlog, s1) \<Rightarrow>
                 (Inr (ok 200 ''Blog post updated successfully'' (Doc updatedBlog)), s1)))"

definition put_blog_io :: "env \<Rightarrow> string \<Rightarrow> jsval \<Rightarrow> store \<Rightarrow> outcome" where
  "put_blog_io e i reqbody s = try_catch ''Error updating blog:'' (put_blog_try e i reqbody s)"

definition put_blog :: "env \<Rightarrow> string \<Rightarrow> jsval \<Rightarrow> store \<Rightarrow> response \<times> store" where
  "put_blog e i reqbody s = answer (put_blog_io e i reqbody s)"

text \<open>\<^verbatim>\<open>app.delete('/blogs/:id', ...)\<close>\<close>

definition delete_blog_try :: "env \<Rightarrow> string \<Rightarrow> store \<Rightarrow> attempt" where
  "delete_blog_try e i s =
     (if \<not> isValid i then (Inr invalid_id, s)
      else
        (case findByIdAndDelete e i s of
           Inl err \<Rightarrow> (Inl (Store_error err), s)
         | Inr (None, s1) \<Rightarrow> (Inr not_found, s1)
         | Inr (Some deletedBlog, s1) \<Rightarrow>
             (Inr (ok 200 ''Blog post deleted successfully'' (Doc deletedBlog)), s1)))"

definition delete_blog_io :: "env \<Rightarrow> string \<Rightarrow> store \<Rightarrow> outcome" where
  "delete_blog_io e i s = try_catch ''Error deleting blog:'' (delete_blog_try e i s)"

definition delete_blog :: "env \<Rightarrow> string \<Rightarrow> store \<Rightarrow> response \<times> store" where
  "delete_blog e i s = answer (delete_blog_io e i s)"

text \<open>The object literal given to \<^verbatim>\<open>new Blog\<close>, as a function of the request body.\<close>

definition post_fields :: "jsval \<Rightarrow> fields" where
  "post_fields b =
     (get_prop b ''title'', get_prop b ''body'',
      js_or (get_prop b ''author'') (JStr ''Anonymous''))"

definition put_fields :: "jsval \<Rightarrow> fields" where
  "put_fields b = (get_prop b ''title'', get_prop b ''body'', get_prop b ''author'')"

section \<open>Requests\<close>

datatype request =
    POST_blogs jsval
  | GET_blogs
  | GET_blog string
  | PUT_blog string jsval
  | DELETE_blog string

fun handle :: "env \<Rightarrow> request \<Rightarrow> store \<Rightarrow> response \<times> store" where
  "handle e (POST_blogs b) s = post_blogs e b s"
| "handle e GET_blogs s = get_blogs e s"
| "handle e (GET_blog i) s = get_blog e i s"
| "handle e (PUT_blog i b) s = put_blog e i b s"
| "handle e (DELETE_blog i) s = delete_blog e i s"

text \<open>The \<^verbatim>\<open>try\<close> block of the handler of a request.\<close>

fun handle_try :: "env \<Rightarrow> request \<Rightarrow> store \<Rightarrow> attempt" where
  "handle_try e (POST_blogs b) s = post_blogs_try e b s"
| "handle_try e GET_blogs s = get_blogs_try e s"
| "handle_try e (GET_blog i) s = get_blog_try e i s"
| "handle_try e (PUT_blog i b) s = put_blog_try e i b s"
| "handle_try e (DELETE_blog i) s = delete_blog_try e i s"

text \<open>The whole handler: what it sends, stores and writes to the console.\<close>

fun handle_io :: "env \<Rightarrow> request \<Rightarrow> store \<Rightarrow> outcome" where
  "handle_io e (POST_blogs b) s = post_blogs_io e b s"
| "handle_io e GET_blogs s = get_blogs_io e s"
| "handle_io e (GET_blog i) s = get_blog_io e i s"
| "handle_io e (PUT_blog i b) s = put_blog_io e i b s"
| "handle_io e (DELETE_blog i) s = delete_blog_io e i s"

text \<open>The label that the \<^verbatim>\<open>catch\<close> block of each route gives to \<^verbatim>\<open>console.error\<close>.\<close>

fun error_label :: "request \<Rightarrow> string" where
  "error_label (POST_blogs b) = ''Error creating blog:''"
| "error_label GET_blogs = ''Error fetching blogs:''"
| "error_label (GET_blog i) = ''Error fetching blog:''"
| "error_label (PUT_blog i b) = ''Error updating blog:''"
| "error_label (DELETE_blog i) = ''Error deleting blog:''"

text \<open>What a request adds to the number of stored documents, read off its response.\<close>

definition delta :: "request \<Rightarrow> response \<Rightarrow> int" where
  "delta r resp =
     (if success resp
      then (case r of POST_blogs b \<Rightarrow> 1 | DELETE_blog i \<Rightarrow> - 1 | _ \<Rightarrow> 0)
      else 0)"

text \<open>
  Whether a request gets as far as its store call: it has a body, passes the handler's
  checks, and its fields pass the validation that the model layer runs before it talks to
  the database.
\<close>

definition reaches_store :: "request \<Rightarrow> bool" where
  "reaches_store r =
     (case r of
        POST_blogs b \<Rightarrow>
          \<not> nullish b \<and> truthy (get_prop b ''title'') \<and> truthy (get_prop b ''body'') \<and>
          \<not> isl (validated (post_fields b))
      | GET_blogs \<Rightarrow> True
      | GET_blog i \<Rightarrow> isValid i
      | PUT_blog i b \<Rightarrow>
          \<not> nullish b \<and> isValid i \<and> truthy (get_prop b ''title'') \<and>
          truthy (get_prop b ''body'') \<and> \<not> isl (validated_update (put_fields b))
      | DELETE_blog i \<Rightarrow> isValid i)"

section \<open>The envelope contract\<close>

text \<open>
  What the static client relies on: \<open>success\<close> says whether the status is 200 or 201; a
  success carries data and no error category; a failure carries no data and the category
  that belongs to its status; a count, when present, is the length of the list sent.
\<close>

definition category :: "nat \<Rightarrow> string set" where
  "category c =
     (if c = 400 then {''Validation failed'', ''Invalid ID''}
      else if c = 404 then {''Not found''}
      else if c = 500 then {''Server error''}
      else {})"

definition wf_response :: "response \<Rightarrow> bool" where
  "wf_response r \<longleftrightarrow>
     (if success r
      then status r \<in> {200, 201} \<and> error r = None \<and> data r \<noteq> None \<and>
           (case count r of
              None \<Rightarrow> True
            | Some n \<Rightarrow> (case data r of Some (Docs ds) \<Rightarrow> n = length ds | _ \<Rightarrow> False))
      else data r = None \<and> count r = None \<and>
           (case error r of None \<Rightarrow> False | Some c \<Rightarrow> c \<in> category (status r)))"

section \<open>Lemmas: responses\<close>

lemmas failure_defs =
  title_required_def body_required_def invalid_id_def not_found_def server_error_def

lemma failure_simps [simp]:
  "status (failure c err msg) = c" "success (failure c err msg) = False"
  "error (failure c err msg) = Some err" "message (failure c err msg) = msg"
  "count (failure c err msg) = None" "data (failure c err msg) = None"
  by (simp_all add: failure_def)

lemma ok_simps [simp]:
  "status (ok c msg p) = c" "success (ok c msg p) = True" "error (ok c msg p) = None"
  "message (ok c msg p) = msg" "count (ok c msg p) = None" "data (ok c msg p) = Some p"
  by (simp_all add: ok_def)

lemma ok_list_simps [simp]:
  "status (ok_list ds) = 200" "success (ok_list ds) = True" "error (ok_list ds) = None"
  "count (ok_list ds) = Some (length ds)" "data (ok_list ds) = Some (Docs ds)"
  by (simp_all add: ok_list_def)

lemma status_failures [simp]:
  "status title_required = 400" "status body_required = 400" "status invalid_id = 400"
  "status not_found = 404" "status (server_error m) = 500"
  by (simp_all add: failure_defs)

lemma success_failures [simp]:
  "\<not> success title_required" "\<not> success body_required" "\<not> success invalid_id"
  "\<not> success not_found" "\<not> success (server_error m)"
  by (simp_all add: failure_defs)

lemma error_failures [simp]:
  "error title_required = Some ''Validation failed''"
  "error body_required = Some ''Validation failed''"
  "error invalid_id = Some ''Invalid ID''" "error not_found = Some ''Not found''"
  "error (server_error m) = Some ''Server error''"
  by (simp_all add: failure_defs)

lemma message_server_error [simp]: "message (server_error m) = m"
  by (simp add: server_error_def)

lemma wf_failures [simp]:
  "wf_response title_required" "wf_response body_required" "wf_response invalid_id"
  "wf_response not_found" "wf_response (server_error m)"
  by (simp_all add: wf_response_def failure_defs category_def)

lemma wf_ok [simp]: "c = 200 \<or> c = 201 \<Longrightarrow> wf_response (ok c msg p)"
  by (auto simp: wf_response_def)

lemma wf_ok_list [simp]: "wf_response (ok_list ds)"
  by (simp add: wf_response_def)

section \<open>Lemmas: the response and store of each handler, branch by branch\<close>

lemma answer_try_catch [simp]:
  "answer (try_catch l (Inr r, s)) = (r, s)"
  "answer (try_catch l (Inl err, s)) = (server_error (thrown_message err), s)"
  by (simp_all add: try_catch_def answer_def)

lemma console_try_catch [simp]:
  "fst (fst (try_catch l (Inr r, s))) = []"
  "fst (fst (try_catch l (Inl err, s))) = [Failure l err]"
  by (simp_all add: try_catch_def)

lemmas handler_defs =
  post_blogs_def post_blogs_io_def post_blogs_try_def get_blogs_def get_blogs_io_def
  get_blogs_try_def get_blog_def get_blog_io_def get_blog_try_def put_blog_def put_blog_io_def
  put_blog_try_def delete_blog_def delete_blog_io_def delete_blog_try_def

lemma post_blogs_unfold:
  "post_blogs e reqbody s =
     (case destructure reqbody of
        Inl err \<Rightarrow> (server_error (js_message err), s)
      | Inr (vtitle, vbody, vauthor) \<Rightarrow>
          if \<not> truthy vtitle then (title_required, s)
          else if \<not> truthy vbody then (body_required, s)
          else
            (case new_Blog (vtitle, vbody, js_or vauthor (JStr ''Anonymous'')) s of
               (blog, s1) \<Rightarrow>
                 (case save e blog s1 of
                    Inl err \<Rightarrow> (server_error (error_message err), s1)
                  | Inr (savedBlog, s2) \<Rightarrow>
                      (ok 201 ''Blog post created successfully'' (Doc savedBlog), s2))))"
  by (simp add: handler_defs split: sum.splits prod.splits)

lemma get_blogs_unfold:
  "get_blogs e s =
     (case find_sorted e s of
        Inl err \<Rightarrow> (server_error (error_message err), s)
      | Inr blogs \<Rightarrow> (ok_list blogs, s))"
  by (simp add: handler_defs split: sum.splits)

lemma get_blog_unfold:
  "get_blog e i s =
     (if \<not> isValid i then (invalid_id, s)
      else
        (case findById e i s of
           Inl err \<Rightarrow> (server_error (error_message err), s)
         | Inr None \<Rightarrow> (not_found, s)
         | Inr (Some blog) \<Rightarrow> (ok 200 ''Blog retrieved successfully'' (Doc blog), s)))"
  by (simp add: handler_defs split: sum.splits option.splits)

lemma put_blog_unfold:
  "put_blog e i reqbody s =
     (case destructure reqbody of
        Inl err \<Rightarrow> (server_error (js_message err), s)
      | Inr (vtitle, vbody, vauthor) \<Rightarrow>
          if \<not> isValid i then (invalid_id, s)
          else if \<not> truthy vtitle then (title_required, s)
          else if \<not> truthy vbody then (body_required, s)
          else
            (case findByIdAndUpdate e i (vtitle, vbody, vauthor) s of
               Inl err \<Rightarrow> (server_error (error_message err), s)
             | Inr (None, s1) \<Rightarrow> (not_found, s1)
             | Inr (Some updatedBlog, s1) \<Rightarrow>
                 (ok 200 ''Blog post updated successfully'' (Doc updatedBlog), s1)))"
  by (simp add: handler_defs split: sum.splits prod.splits option.splits)

lemma delete_blog_unfold:
  "delete_blog e i s =
     (if \<not> isValid i then (invalid_id, s)
      else
        (case findByIdAndDelete e i s of
           Inl err \<Rightarrow> (server_error (error_message err), s)
         | Inr (None, s1) \<Rightarrow> (not_found, s1)
         | Inr (Some deletedBlog, s1) \<Rightarrow>
             (ok 200 ''Blog post deleted successfully'' (Doc deletedBlog), s1)))"
  by (simp add: handler_defs split: sum.splits prod.splits option.splits)

section \<open>Lemmas: every response honours the envelope contract\<close>

lemma post_blogs_wf: "wf_response (fst (post_blogs e b s))"
  by (simp add: post_blogs_unfold split: sum.splits prod.splits)

lemma get_blogs_wf: "wf_response (fst (get_blogs e s))"
  by (simp add: get_blogs_unfold split: sum.splits)

lemma get_blog_wf: "wf_response (fst (get_blog e i s))"
  by (simp add: get_blog_unfold split: sum.splits option.splits)

lemma put_blog_wf: "wf_response (fst (put_blog e i b s))"
  by (simp add: put_blog_unfold split: sum.splits prod.splits option.splits)

lemma delete_blog_wf: "wf_response (fst (delete_blog e i s))"
  by (simp add: delete_blog_unfold split: sum.splits prod.splits option.splits)

lemmas handler_wf = post_blogs_wf get_blogs_wf get_blog_wf put_blog_wf delete_blog_wf

lemma handle_wf: "wf_response (fst (handle e r s))"
  by (cases r) (simp_all add: handler_wf)

section \<open>Lemmas: the branches of each handler\<close>

lemma destructure_fields: "\<not> nullish b \<Longrightarrow> destructure b = Inr (put_fields b)"
  by (simp add: destructure_def put_fields_def)

lemma get_blogs_store [simp]: "snd (get_blogs e s) = s"
  by (simp add: get_blogs_unfold split: sum.splits)

lemma get_blog_store [simp]: "snd (get_blog e i s) = s"
  by (simp add: get_blog_unfold split: sum.splits option.splits)

lemma post_blogs_cases [consumes 1, case_names threw no_title no_body rejected created]:
  assumes "post_blogs e b s = (r, s')"
  obtains (threw) m where "nullish b" and "r = server_error m" and "s' = s"
  | (no_title) "\<not> nullish b" and "\<not> truthy (get_prop b ''title'')"
      and "r = title_required" and "s' = s"
  | (no_body) "\<not> nullish b" and "truthy (get_prop b ''title'')"
      and "\<not> truthy (get_prop b ''body'')" and "r = body_required" and "s' = s"
  | (rejected) dr s1 err where "\<not> nullish b" and "truthy (get_prop b ''title'')"
      and "truthy (get_prop b ''body'')" and "new_Blog (post_fields b) s = (dr, s1)"
      and "save e dr s1 = Inl err" and "r = server_error (error_message err)" and "s' = s1"
  | (created) dr s1 d where "\<not> nullish b" and "truthy (get_prop b ''title'')"
      and "truthy (get_prop b ''body'')" and "new_Blog (post_fields b) s = (dr, s1)"
      and "save e dr s1 = Inr (d, s')"
      and "r = ok 201 ''Blog post created successfully'' (Doc d)"
proof (cases "nullish b")
  case True
  with assms show thesis
    by (intro threw) (auto simp: post_blogs_unfold)
next
  case False
  note d = destructure_fields [OF False, unfolded put_fields_def]
  obtain dr s1 where nb: "new_Blog (post_fields b) s = (dr, s1)"
    by force
  consider "\<not> truthy (get_prop b ''title'')"
    | "truthy (get_prop b ''title'')" "\<not> truthy (get_prop b ''body'')"
    | "truthy (get_prop b ''title'')" "truthy (get_prop b ''body'')"
    by blast
  then show thesis
  proof cases
    case 1
    with assms False show thesis
      by (intro no_title) (simp_all add: post_blogs_unfold d)
  next
    case 2
    with assms False show thesis
      by (intro no_body) (simp_all add: post_blogs_unfold d)
  next
    case 3
    show thesis
    proof (cases "save e dr s1")
      case (Inl err)
      with assms False 3 nb show thesis
        by (intro rejected [of dr s1 err]) (simp_all add: post_blogs_unfold d post_fields_def)
    next
      case (Inr p)
      with assms False 3 nb show thesis
        by (cases p, intro created [of dr s1 "fst p"])
          (auto simp: post_blogs_unfold d post_fields_def)
    qed
  qed
qed

lemma get_blog_cases [consumes 1, case_names invalid failed missing found]:
  assumes "get_blog e i s = (r, s')"
  obtains (invalid) "\<not> isValid i" and "r = invalid_id"
  | (failed) m where "isValid i" and "fault e = Some m" and "r = server_error m"
  | (missing) w where "oid_of_string i = Some w" and "fault e = None" and "w \<notin> ids s"
      and "r = not_found"
  | (found) w d where "oid_of_string i = Some w" and "fault e = None"
      and "lookup_by doc_id w (posts s) = Some d"
      and "r = ok 200 ''Blog retrieved successfully'' (Doc d)"
proof (cases "oid_of_string i")
  case None
  with assms show thesis
    by (intro invalid) (auto simp: get_blog_unfold oid_of_string_None_iff)
next
  case (Some w)
  then have v: "isValid i"
    by (auto simp: isValid_iff_cast)
  show thesis
  proof (cases "fault e")
    case (Some m)
    with assms v show thesis
      by (intro failed [of m]) (auto simp: get_blog_unfold findById_fault)
  next
    case None
    with assms v \<open>oid_of_string i = Some w\<close> show thesis
      by (cases "lookup_by doc_id w (posts s)")
        (auto simp: get_blog_unfold findById_ok lookup_ids intro: missing found)
  qed
qed

lemma put_blog_guards:
  assumes "\<not> nullish b" and "isValid i" and "truthy (get_prop b ''title'')"
    and "truthy (get_prop b ''body'')"
  shows "put_blog e i b s =
     (case findByIdAndUpdate e i (put_fields b) s of
        Inl err \<Rightarrow> (server_error (error_message err), s)
      | Inr (None, s1) \<Rightarrow> (not_found, s1)
      | Inr (Some d, s1) \<Rightarrow> (ok 200 ''Blog post updated successfully'' (Doc d), s1))"
  using assms by (simp add: put_blog_unfold destructure_fields put_fields_def)

lemma put_blog_cases
    [consumes 1, case_names threw invalid no_title no_body rejected missing updated]:
  assumes "put_blog e i b s = (r, s')"
  obtains (threw) m where "nullish b" and "r = server_error m" and "s' = s"
  | (invalid) "\<not> nullish b" and "\<not> isValid i" and "r = invalid_id" and "s' = s"
  | (no_title) "\<not> nullish b" and "isValid i" and "\<not> truthy (get_prop b ''title'')"
      and "r = title_required" and "s' = s"
  | (no_body) "\<not> nullish b" and "isValid i" and "truthy (get_prop b ''title'')"
      and "\<not> truthy (get_prop b ''body'')" and "r = body_required" and "s' = s"
  | (rejected) err where "\<not> nullish b" and "isValid i"
      and "findByIdAndUpdate e i (put_fields b) s = Inl err"
      and "r = server_error (error_message err)" and "s' = s"
  | (missing) "\<not> nullish b" and "isValid i"
      and "findByIdAndUpdate e i (put_fields b) s = Inr (None, s')" and "r = not_found"
  | (updated) d where "\<not> nullish b" and "isValid i"
      and "findByIdAndUpdate e i (put_fields b) s = Inr (Some d, s')"
      and "r = ok 200 ''Blog post updated successfully'' (Doc d)"
proof (cases "nullish b")
  case True
  with assms show thesis
    by (intro threw) (auto simp: put_blog_unfold)
next
  case False
  note d = destructure_fields [OF False, unfolded put_fields_def]
  consider "\<not> isValid i" | "isValid i" "\<not> truthy (get_prop b ''title'')"
    | "isValid i" "truthy (get_prop b ''title'')" "\<not> truthy (get_prop b ''body'')"
    | "isValid i" "truthy (get_prop b ''title'')" "truthy (get_prop b ''body'')"
    by blast
  then show thesis
  proof cases
    case 1
    with assms False show thesis
      by (intro invalid) (simp_all add: put_blog_unfold d)
  next
    case 2
    with assms False show thesis
      by (intro no_title) (simp_all add: put_blog_unfold d)
  next
    case 3
    with assms False show thesis
      by (intro no_body) (simp_all add: put_blog_unfold d)
  next
    case 4
    note eq = assms [unfolded put_blog_guards [OF False 4]]
    show thesis
    proof (cases "findByIdAndUpdate e i (put_fields b) s")
      case (Inl err)
      with eq False 4 show thesis
        by (intro rejected [of err]) simp_all
    next
      case (Inr p)
      with eq False 4 show thesis
        by (cases p; cases "fst p") (auto intro: missing updated)
    qed
  qed
qed

lemma delete_blog_cases [consumes 1, case_names invalid rejected missing deleted]:
  assumes "delete_blog e i s = (r, s')"
  obtains (invalid) "\<not> isValid i" and "r = invalid_id" and "s' = s"
  | (rejected) err where "isValid i" and "findByIdAndDelete e i s = Inl err"
      and "r = server_error (error_message err)" and "s' = s"
  | (missing) "isValid i" and "findByIdAndDelete e i s = Inr (None, s')"
      and "r = not_found"
  | (deleted) d where "isValid i" and "findByIdAndDelete e i s = Inr (Some d, s')"
      and "r = ok 200 ''Blog post deleted successfully'' (Doc d)"
proof (cases "isValid i")
  case False
  with assms show thesis
    by (intro invalid) (simp_all add: delete_blog_unfold)
next
  case True
  show thesis
  proof (cases "findByIdAndDelete e i s")
    case (Inl err)
    with assms True show thesis
      by (intro rejected [of err]) (simp_all add: delete_blog_unfold)
  next
    case (Inr p)
    with assms True show thesis
      by (cases p; cases "fst p") (auto simp: delete_blog_unfold intro: missing deleted)
  qed
qed

section \<open>Lemmas: every handler keeps the store's invariant\<close>

lemma post_blogs_inv:
  assumes "store_inv s"
  shows "store_inv (snd (post_blogs e b s))"
proof -
  obtain r s' where eq: "post_blogs e b s = (r, s')"
    by force
  then have "store_inv s'"
  proof (cases rule: post_blogs_cases)
    case (rejected dr s1 err)
    with assms show ?thesis
      by (auto dest: new_Blog_inv)
  next
    case (created dr s1 d)
    from new_Blog_inv [OF assms created(4)] created(5) show ?thesis
      by (auto intro: save_inv)
  qed (use assms in simp_all)
  with eq show ?thesis by simp
qed

lemma put_blog_inv:
  assumes "store_inv s"
  shows "store_inv (snd (put_blog e i b s))"
proof -
  obtain r s' where eq: "put_blog e i b s = (r, s')"
    by force
  then have "store_inv s'"
    by (cases rule: put_blog_cases) (use assms in \<open>auto intro: update_inv\<close>)
  with eq show ?thesis by simp
qed

lemma delete_blog_inv:
  assumes "store_inv s"
  shows "store_inv (snd (delete_blog e i s))"
proof -
  obtain r s' where eq: "delete_blog e i s = (r, s')"
    by force
  then have "store_inv s'"
    by (cases rule: delete_blog_cases) (use assms in \<open>auto intro: delete_inv\<close>)
  with eq show ?thesis by simp
qed

lemma handle_inv: "store_inv s \<Longrightarrow> store_inv (snd (handle e r s))"
  by (cases r) (simp_all add: post_blogs_inv put_blog_inv delete_blog_inv)

section \<open>Lemmas: timestamps under a clock that does not run backwards\<close>

lemma post_blogs_stamped:
  assumes "stamped_by t s" and "t \<le> now e"
  shows "stamped_by (now e) (snd (post_blogs e b s))"
proof -
  obtain r s' where eq: "post_blogs e b s = (r, s')"
    by force
  have s: "stamped_by (now e) s"
    using assms by (rule stamped_by_mono)
  from eq have "stamped_by (now e) s'"
  proof (cases rule: post_blogs_cases)
    case (rejected dr s1 err)
    with s show ?thesis
      by (auto simp: new_Blog_def)
  next
    case (created dr s1 d)
    from created(4) assms(1) have "stamped_by t s1"
      by (auto simp: new_Blog_def)
    with created(5) assms(2) show ?thesis
      by (auto intro: save_stamped)
  qed (use s in simp_all)
  with eq show ?thesis by simp
qed

lemma put_blog_stamped:
  assumes "stamped_by t s" and "t \<le> now e"
  shows "stamped_by (now e) (snd (put_blog e i b s))"
proof -
  obtain r s' where eq: "put_blog e i b s = (r, s')"
    by force
  have s: "stamped_by (now e) s"
    using assms by (rule stamped_by_mono)
  from eq have "stamped_by (now e) s'"
    by (cases rule: put_blog_cases) (use s assms in \<open>auto intro: update_stamped\<close>)
  with eq show ?thesis by simp
qed

lemma delete_blog_stamped:
  assumes "stamped_by t s" and "t \<le> now e"
  shows "stamped_by (now e) (snd (delete_blog e i s))"
proof -
  obtain r s' where eq: "delete_blog e i s = (r, s')"
    by force
  have s: "stamped_by (now e) s"
    using assms by (rule stamped_by_mono)
  from eq have "stamped_by (now e) s'"
    by (cases rule: delete_blog_cases) (use s assms in \<open>auto intro: delete_stamped\<close>)
  with eq show ?thesis by simp
qed

lemma handle_stamped:
  "stamped_by t s \<Longrightarrow> t \<le> now e \<Longrightarrow> stamped_by (now e) (snd (handle e r s))"
  by (cases r)
    (simp_all add: post_blogs_stamped put_blog_stamped delete_blog_stamped stamped_by_mono)

section \<open>Lemmas: a failed request leaves the collection as it was\<close>

lemma update_missing_same: "findByIdAndUpdate e i f s = Inr (None, s') \<Longrightarrow> s' = s"
  by (cases rule: findByIdAndUpdate_cases) auto

lemma delete_missing_same: "findByIdAndDelete e i s = Inr (None, s') \<Longrightarrow> s' = s"
  by (cases rule: findByIdAndDelete_cases) auto

lemma post_blogs_failure:
  assumes "\<not> success (fst (post_blogs e b s))"
  shows "posts (snd (post_blogs e b s)) = posts s"
proof -
  obtain r s' where eq: "post_blogs e b s = (r, s')"
    by force
  from eq assms have "posts s' = posts s"
    by (cases rule: post_blogs_cases) (auto simp: eq new_Blog_def)
  with eq show ?thesis by simp
qed

lemma put_blog_failure:
  assumes "\<not> success (fst (put_blog e i b s))"
  shows "snd (put_blog e i b s) = s"
proof -
  obtain r s' where eq: "put_blog e i b s = (r, s')"
    by force
  from eq assms have "s' = s"
    by (cases rule: put_blog_cases) (auto simp: eq dest: update_missing_same)
  with eq show ?thesis by simp
qed

lemma delete_blog_failure:
  assumes "\<not> success (fst (delete_blog e i s))"
  shows "snd (delete_blog e i s) = s"
proof -
  obtain r s' where eq: "delete_blog e i s = (r, s')"
    by force
  from eq assms have "s' = s"
    by (cases rule: delete_blog_cases) (auto simp: eq dest: delete_missing_same)
  with eq show ?thesis by simp
qed

lemma handle_failure:
  "\<not> success (fst (handle e r s)) \<Longrightarrow> posts (snd (handle e r s)) = posts s"
  by (cases r) (simp_all add: post_blogs_failure put_blog_failure delete_blog_failure)

section \<open>Lemmas: the response on each path\<close>

text \<open>Malformed identifiers: decided before the store is asked.\<close>

lemma get_blog_invalid: "\<not> isValid i \<Longrightarrow> get_blog e i s = (invalid_id, s)"
  by (simp add: get_blog_unfold)

lemma delete_blog_invalid: "\<not> isValid i \<Longrightarrow> delete_blog e i s = (invalid_id, s)"
  by (simp add: delete_blog_unfold)

lemma put_blog_invalid:
  "\<not> nullish b \<Longrightarrow> \<not> isValid i \<Longrightarrow> put_blog e i b s = (invalid_id, s)"
  by (simp add: put_blog_unfold destructure_fields put_fields_def)

lemma put_blog_nullish:
  "nullish b \<Longrightarrow>
   put_blog e i b s = (server_error ''Cannot destructure property of req.body'', s)"
  by (simp add: put_blog_unfold)

lemma post_blogs_nullish:
  "nullish b \<Longrightarrow>
   post_blogs e b s = (server_error ''Cannot destructure property of req.body'', s)"
  by (simp add: post_blogs_unfold)

text \<open>Missing fields.\<close>

lemma post_blogs_no_title:
  "\<not> nullish b \<Longrightarrow> \<not> truthy (get_prop b ''title'') \<Longrightarrow>
   post_blogs e b s = (title_required, s)"
  by (simp add: post_blogs_unfold destructure_fields put_fields_def)

lemma post_blogs_no_body:
  "\<not> nullish b \<Longrightarrow> truthy (get_prop b ''title'') \<Longrightarrow> \<not> truthy (get_prop b ''body'') \<Longrightarrow>
   post_blogs e b s = (body_required, s)"
  by (simp add: post_blogs_unfold destructure_fields put_fields_def)

lemma put_blog_no_title:
  "\<not> nullish b \<Longrightarrow> isValid i \<Longrightarrow> \<not> truthy (get_prop b ''title'') \<Longrightarrow>
   put_blog e i b s = (title_required, s)"
  by (simp add: put_blog_unfold destructure_fields put_fields_def)

lemma put_blog_no_body:
  "\<not> nullish b \<Longrightarrow> isValid i \<Longrightarrow> truthy (get_prop b ''title'') \<Longrightarrow>
   \<not> truthy (get_prop b ''body'') \<Longrightarrow> put_blog e i b s = (body_required, s)"
  by (simp add: put_blog_unfold destructure_fields put_fields_def)

text \<open>Reading one document.\<close>

lemma get_blog_fault:
  "isValid i \<Longrightarrow> fault e = Some m \<Longrightarrow> get_blog e i s = (server_error m, s)"
  by (simp add: get_blog_unfold findById_fault)

lemma get_blog_missing:
  "oid_of_string i = Some w \<Longrightarrow> fault e = None \<Longrightarrow> w \<notin> ids s \<Longrightarrow>
   get_blog e i s = (not_found, s)"
  by (simp add: get_blog_unfold findById_ok isValid_iff_cast lookup_ids [THEN iffD2])

lemma get_blog_found:
  "oid_of_string i = Some w \<Longrightarrow> fault e = None \<Longrightarrow>
   lookup_by doc_id w (posts s) = Some d \<Longrightarrow>
   get_blog e i s = (ok 200 ''Blog retrieved successfully'' (Doc d), s)"
  by (simp add: get_blog_unfold findById_ok isValid_iff_cast)

text \<open>Listing.\<close>

lemma get_blogs_ok:
  "fault e = None \<Longrightarrow> get_blogs e s = (ok_list (sort_desc createdAt (posts s)), s)"
  by (simp add: get_blogs_unfold find_sorted_ok)

lemma get_blogs_fault: "fault e = Some m \<Longrightarrow> get_blogs e s = (server_error m, s)"
  by (simp add: get_blogs_unfold find_sorted_fault)

text \<open>Creating: the request passed both checks.\<close>

lemma post_blogs_saved:
  assumes "\<not> nullish b" and "truthy (get_prop b ''title'')" and "truthy (get_prop b ''body'')"
  shows "post_blogs e b s =
     (case save e \<lparr>draft_id = fresh_oid s, draft_fields = validated (post_fields b)\<rparr>
             (s\<lparr>next_oid := Suc (next_oid s)\<rparr>) of
        Inl err \<Rightarrow> (server_error (error_message err), s\<lparr>next_oid := Suc (next_oid s)\<rparr>)
      | Inr (d, s2) \<Rightarrow> (ok 201 ''Blog post created successfully'' (Doc d), s2))"
  using assms
  by (simp add: post_blogs_unfold destructure_fields put_fields_def new_Blog_def post_fields_def)

lemma post_blogs_created:
  assumes "store_inv s" and "next_oid s < 2 ^ 96" and "fault e = None"
    and "\<not> nullish b" and "truthy (get_prop b ''title'')" and "truthy (get_prop b ''body'')"
    and "validated (post_fields b) = Inr g"
  shows "post_blogs e b s =
     (ok 201 ''Blog post created successfully'' (Doc (new_doc (now e) (fresh_oid s) g)),
      \<lparr>posts = posts s @ [new_doc (now e) (fresh_oid s) g], next_oid = Suc (next_oid s)\<rparr>)"
proof -
  from assms(1,2) have "fresh_oid s \<notin> ids (s\<lparr>next_oid := Suc (next_oid s)\<rparr>)"
    by (simp add: fresh_oid_fresh)
  with assms(3,7) show ?thesis
    by (simp add: post_blogs_saved [OF assms(4-6)] save_ok)
qed

lemma post_blogs_invalid:
  assumes "\<not> nullish b" and "truthy (get_prop b ''title'')" and "truthy (get_prop b ''body'')"
    and "validated (post_fields b) = Inl es"
  shows "post_blogs e b s =
     (server_error (error_message (ValidationError es)), s\<lparr>next_oid := Suc (next_oid s)\<rparr>)"
  using assms(4) by (simp add: post_blogs_saved [OF assms(1-3)] save_invalid)

lemma post_blogs_fault:
  assumes "\<not> nullish b" and "truthy (get_prop b ''title'')" and "truthy (get_prop b ''body'')"
    and "validated (post_fields b) = Inr g" and "fault e = Some m"
  shows "post_blogs e b s = (server_error m, s\<lparr>next_oid := Suc (next_oid s)\<rparr>)"
  using assms(4,5) by (simp add: post_blogs_saved [OF assms(1-3)] save_fault)

text \<open>Updating and deleting: the request passed the checks.\<close>

lemma put_blog_updated:
  assumes "\<not> nullish b" and "truthy (get_prop b ''title'')" and "truthy (get_prop b ''body'')"
    and "oid_of_string i = Some w" and "validated_update (put_fields b) = Inr g"
    and "fault e = None" and "lookup_by doc_id w (posts s) = Some d"
  shows "put_blog e i b s =
     (ok 200 ''Blog post updated successfully'' (Doc (apply_update (now e) g d)),
      s\<lparr>posts := replace_by doc_id w (apply_update (now e) g d) (posts s)\<rparr>)"
proof -
  from assms(4) have "isValid i"
    by (auto simp: isValid_iff_cast)
  from put_blog_guards [OF assms(1) this assms(2,3)] show ?thesis
    by (simp add: findByIdAndUpdate_found [OF assms(4-7)])
qed

lemma put_blog_missing:
  assumes "\<not> nullish b" and "truthy (get_prop b ''title'')" and "truthy (get_prop b ''body'')"
    and "oid_of_string i = Some w" and "validated_update (put_fields b) = Inr g"
    and "fault e = None" and "w \<notin> ids s"
  shows "put_blog e i b s = (not_found, s)"
proof -
  from assms(4) have "isValid i"
    by (auto simp: isValid_iff_cast)
  from put_blog_guards [OF assms(1) this assms(2,3)] show ?thesis
    by (simp add: findByIdAndUpdate_missing [OF assms(4-7)])
qed

lemma put_blog_rejected:
  assumes "\<not> nullish b" and "truthy (get_prop b ''title'')" and "truthy (get_prop b ''body'')"
    and "oid_of_string i = Some w" and "validated_update (put_fields b) = Inl es"
  shows "put_blog e i b s = (server_error (error_message (ValidationError es)), s)"
proof -
  from assms(4) have "isValid i"
    by (auto simp: isValid_iff_cast)
  from put_blog_guards [OF assms(1) this assms(2,3)] show ?thesis
    by (simp add: findByIdAndUpdate_invalid [OF assms(4,5)])
qed

lemma put_blog_fault:
  assumes "\<not> nullish b" and "truthy (get_prop b ''title'')" and "truthy (get_prop b ''body'')"
    and "oid_of_string i = Some w" and "validated_update (put_fields b) = Inr g"
    and "fault e = Some m"
  shows "put_blog e i b s = (server_error m, s)"
proof -
  from assms(4) have "isValid i"
    by (auto simp: isValid_iff_cast)
  from put_blog_guards [OF assms(1) this assms(2,3)] show ?thesis
    by (simp add: findByIdAndUpdate_fault [OF assms(4-6)])
qed

lemma delete_blog_deleted:
  "oid_of_string i = Some w \<Longrightarrow> fault e = None \<Longrightarrow>
   lookup_by doc_id w (posts s) = Some d \<Longrightarrow>
   delete_blog e i s =
     (ok 200 ''Blog post deleted successfully'' (Doc d),
      s\<lparr>posts := delete_by doc_id w (posts s)\<rparr>)"
  by (simp add: delete_blog_unfold findByIdAndDelete_def isValid_iff_cast)

lemma delete_blog_missing:
  "oid_of_string i = Some w \<Longrightarrow> fault e = None \<Longrightarrow> w \<notin> ids s \<Longrightarrow>
   delete_blog e i s = (not_found, s)"
  by (simp add: delete_blog_unfold findByIdAndDelete_def isValid_iff_cast
      lookup_ids [THEN iffD2])

lemma delete_blog_fault:
  "isValid i \<Longrightarrow> fault e = Some m \<Longrightarrow> delete_blog e i s = (server_error m, s)"
  by (auto simp: delete_blog_unfold findByIdAndDelete_def isValid_iff_cast)

section \<open>Lemmas: how many documents there are after a request\<close>

lemma post_blogs_count:
  "length (posts (snd (post_blogs e b s))) =
     length (posts s) + (if success (fst (post_blogs e b s)) then 1 else 0)"
proof -
  obtain r s' where eq: "post_blogs e b s = (r, s')"
    by force
  then have "length (posts s') = length (posts s) + (if success r then 1 else 0)"
  proof (cases rule: post_blogs_cases)
    case (created dr s1 d)
    from created(5) have "posts s' = posts s1 @ [d]"
      by (auto elim: save_InrD)
    with created(4,6) show ?thesis
      by (auto simp: new_Blog_def)
  qed (auto simp: new_Blog_def failure_defs)
  with eq show ?thesis by simp
qed

lemma put_blog_count: "length (posts (snd (put_blog e i b s))) = length (posts s)"
proof -
  obtain r s' where eq: "put_blog e i b s = (r, s')"
    by force
  then have "length (posts s') = length (posts s)"
  proof (cases rule: put_blog_cases)
    case (updated d)
    from updated(3) show ?thesis
      by (cases rule: findByIdAndUpdate_cases) simp_all
  qed (auto dest: update_missing_same)
  with eq show ?thesis by simp
qed

lemma delete_blog_count:
  "length (posts (snd (delete_blog e i s))) + (if success (fst (delete_blog e i s)) then 1 else 0) =
     length (posts s)"
proof -
  obtain r s' where eq: "delete_blog e i s = (r, s')"
    by force
  then have "length (posts s') + (if success r then 1 else 0) = length (posts s)"
  proof (cases rule: delete_blog_cases)
    case (deleted d)
    from deleted(2) have "Suc (length (posts s')) = length (posts s)"
      by (cases rule: findByIdAndDelete_cases) (auto simp: length_delete_by)
    with deleted(3) show ?thesis by simp
  qed (auto dest: delete_missing_same)
  with eq show ?thesis by simp
qed

lemma handle_count:
  "int (length (posts (snd (handle e r s)))) =
     int (length (posts s)) + delta r (fst (handle e r s))"
proof (cases r)
  case (POST_blogs b)
  then show ?thesis
    by (simp add: delta_def post_blogs_count)
next
  case (PUT_blog i b)
  then show ?thesis
    by (simp add: delta_def put_blog_count)
next
  case (DELETE_blog i)
  with delete_blog_count [of e i s] show ?thesis
    by (auto simp: delta_def split: if_splits)
qed (simp_all add: delta_def)

section \<open>Lemmas: requests that reach the store and requests that do not\<close>

lemma not_isl_Inr: "\<not> isl x \<longleftrightarrow> (\<exists>g. x = Inr g)"
  by (cases x) simp_all

lemma isValid_cast: "isValid i \<Longrightarrow> \<exists>w. oid_of_string i = Some w"
  by (simp add: isValid_iff_cast)

lemma handle_fault:
  assumes "reaches_store r" and "fault e = Some m"
  shows "fst (handle e r s) = server_error m \<and> posts (snd (handle e r s)) = posts s"
proof (cases r)
  case (POST_blogs b)
  with assms show ?thesis
    by (auto simp: reaches_store_def not_isl_Inr post_blogs_fault)
next
  case GET_blogs
  with assms show ?thesis
    by (simp add: get_blogs_fault)
next
  case (GET_blog i)
  with assms show ?thesis
    by (simp add: reaches_store_def get_blog_fault)
next
  case (PUT_blog i b)
  with assms show ?thesis
    by (auto simp: reaches_store_def not_isl_Inr put_blog_fault dest!: isValid_cast)
next
  case (DELETE_blog i)
  with assms show ?thesis
    by (simp add: reaches_store_def delete_blog_fault)
qed

lemma post_blogs_offline:
  assumes "\<not> reaches_store (POST_blogs b)"
  shows "fst (post_blogs e b s) = fst (post_blogs e' b s') \<and>
    posts (snd (post_blogs e b s)) = posts s \<and> \<not> success (fst (post_blogs e b s)) \<and>
    status (fst (post_blogs e b s)) \<in> {400, 500}"
proof (cases "\<not> nullish b \<and> truthy (get_prop b ''title'') \<and> truthy (get_prop b ''body'')")
  case True
  with assms obtain es where "validated (post_fields b) = Inl es"
    by (cases "validated (post_fields b)") (auto simp: reaches_store_def)
  with True show ?thesis
    by (simp add: post_blogs_invalid)
next
  case False
  then show ?thesis
    by (cases "nullish b"; cases "truthy (get_prop b ''title'')")
      (simp_all add: post_blogs_nullish post_blogs_no_title post_blogs_no_body)
qed

lemma put_blog_offline:
  assumes "\<not> reaches_store (PUT_blog i b)"
  shows "fst (put_blog e i b s) = fst (put_blog e' i b s') \<and>
    posts (snd (put_blog e i b s)) = posts s \<and> \<not> success (fst (put_blog e i b s)) \<and>
    status (fst (put_blog e i b s)) \<in> {400, 500}"
proof (cases "\<not> nullish b \<and> isValid i \<and> truthy (get_prop b ''title'') \<and>
    truthy (get_prop b ''body'')")
  case True
  with assms obtain es where "validated_update (put_fields b) = Inl es"
    by (cases "validated_update (put_fields b)") (auto simp: reaches_store_def)
  moreover from True obtain w where "oid_of_string i = Some w"
    by (auto dest: isValid_cast)
  ultimately show ?thesis
    using True by (simp add: put_blog_rejected)
next
  case False
  then show ?thesis
    by (cases "nullish b"; cases "isValid i"; cases "truthy (get_prop b ''title'')")
      (simp_all add: put_blog_nullish put_blog_invalid put_blog_no_title put_blog_no_body)
qed

lemma handle_offline:
  assumes "\<not> reaches_store r"
  shows "fst (handle e r s) = fst (handle e' r s') \<and> posts (snd (handle e r s)) = posts s \<and>
    \<not> success (fst (handle e r s)) \<and> status (fst (handle e r s)) \<in> {400, 500}"
proof (cases r)
  case (POST_blogs b)
  from assms have "\<not> reaches_store (POST_blogs b)"
    unfolding POST_blogs .
  then show ?thesis
    unfolding POST_blogs handle.simps by (rule post_blogs_offline)
next
  case (PUT_blog i b)
  from assms have "\<not> reaches_store (PUT_blog i b)"
    unfolding PUT_blog .
  then show ?thesis
    unfolding PUT_blog handle.simps by (rule put_blog_offline)
qed (use assms in \<open>simp_all add: reaches_store_def get_blog_invalid delete_blog_invalid\<close>)

section \<open>Lemmas: what a handler writes to the console\<close>

lemma answer_handle_io: "answer (handle_io e r s) = handle e r s"
  by (cases r) (simp_all add: handler_defs)

lemma handle_io_label: "handle_io e r s = try_catch (error_label r) (handle_try e r s)"
  by (cases r) (simp_all add: handler_defs)

text \<open>No \<^verbatim>\<open>try\<close> block sends a response with status 500: that is left to the \<^verbatim>\<open>catch\<close> block.\<close>

lemma handle_try_sent:
  assumes "handle_try e r s = (Inr resp, s')"
  shows "status resp \<in> {200, 201, 400, 404}"
  using assms
  by (cases r)
    (auto simp: handler_defs split: sum.splits prod.splits option.splits if_splits)

lemma handle_io_cases [case_names sent caught]:
  obtains (sent) resp s' where "handle_io e r s = (([], resp), s')" and "status resp \<noteq> 500"
  | (caught) err s' where
      "handle_io e r s = (([Failure (error_label r) err], server_error (thrown_message err)), s')"
proof (cases "handle_try e r s")
  case (Pair a s')
  show thesis
  proof (cases a)
    case (Inl err)
    with Pair have
      "handle_io e r s = (([Failure (error_label r) err], server_error (thrown_message err)), s')"
      by (simp add: handle_io_label try_catch_def)
    then show thesis by (rule caught)
  next
    case (Inr resp)
    with Pair have "handle_io e r s = (([], resp), s')"
      by (simp add: handle_io_label try_catch_def)
    moreover from Pair Inr have "status resp \<noteq> 500"
      by (auto dest: handle_try_sent)
    ultimately show thesis by (rule sent)
  qed
qed

section \<open>Lemmas: one request after another\<close>

lemma lookup_created:
  assumes "store_inv s" and "next_oid s < 2 ^ 96"
  shows "lookup_by doc_id (fresh_oid s) (posts s @ [new_doc t (fresh_oid s) g]) =
    Some (new_doc t (fresh_oid s) g)"
proof -
  from assms have "lookup_by doc_id (fresh_oid s) (posts s) = None"
    by (simp add: lookup_ids fresh_oid_fresh)
  then show ?thesis
    by (simp add: lookup_by_append)
qed

lemma lookup_updated:
  assumes "lookup_by doc_id w (posts (s::store)) = Some d"
  shows "lookup_by doc_id w' (replace_by doc_id w (apply_update t g d) (posts s)) =
    (if w' = w then Some (apply_update t g d) else lookup_by doc_id w' (posts s))"
proof -
  from lookup_ids_Some [OF assms]
  have "w \<in> keys_of doc_id (posts s)" and "doc_id (apply_update t g d) = w"
    by (simp_all add: ids_def)
  then show ?thesis
    by (simp add: lookup_by_replace_by)
qed

lemma lookup_deleted:
  assumes "store_inv s"
  shows "lookup_by doc_id w' (delete_by doc_id w (posts s)) =
    (if w' = w then None else lookup_by doc_id w' (posts s))"
  using assms by (simp add: store_inv_def lookup_by_delete_by)

lemma get_after_post:
  assumes "store_inv s" and "next_oid s < 2 ^ 96" and "fault e = None"
    and "\<not> nullish b" and "truthy (get_prop b ''title'')" and "truthy (get_prop b ''body'')"
    and "validated (post_fields b) = Inr g" and "fault e' = None"
  shows "get_blog e' (toHexString (fresh_oid s)) (snd (post_blogs e b s)) =
    (ok 200 ''Blog retrieved successfully'' (Doc (new_doc (now e) (fresh_oid s) g)),
     snd (post_blogs e b s))"
proof -
  let ?d = "new_doc (now e) (fresh_oid s) g"
  have "lookup_by doc_id (fresh_oid s) (posts (snd (post_blogs e b s))) = Some ?d"
    by (simp add: post_blogs_created [OF assms(1-7)] lookup_created [OF assms(1,2)])
  with assms(8) show ?thesis
    by (intro get_blog_found) (simp_all add: oid_of_string_toHexString)
qed

lemma get_after_put:
  assumes "\<not> nullish b" and "truthy (get_prop b ''title'')" and "truthy (get_prop b ''body'')"
    and "oid_of_string i = Some w" and "validated_update (put_fields b) = Inr g"
    and "fault e = None" and "lookup_by doc_id w (posts s) = Some d" and "fault e' = None"
  shows "get_blog e' i (snd (put_blog e i b s)) =
    (ok 200 ''Blog retrieved successfully'' (Doc (apply_update (now e) g d)),
     snd (put_blog e i b s))"
proof -
  have "lookup_by doc_id w (posts (snd (put_blog e i b s))) = Some (apply_update (now e) g d)"
    by (simp add: put_blog_updated [OF assms(1-7)] lookup_updated [OF assms(7)])
  with assms(4,8) show ?thesis
    by (intro get_blog_found) simp_all
qed

lemma get_after_delete:
  assumes "store_inv s" and "oid_of_string i = Some w" and "fault e = None"
    and "lookup_by doc_id w (posts s) = Some d" and "fault e' = None"
  shows "get_blog e' i (snd (delete_blog e i s)) = (not_found, snd (delete_blog e i s))"
proof -
  have "lookup_by doc_id w (posts (snd (delete_blog e i s))) = None"
    by (simp add: delete_blog_deleted [OF assms(2-4)] lookup_deleted [OF assms(1)])
  with assms(2,5) show ?thesis
    by (intro get_blog_missing) (simp_all add: lookup_ids)
qed

section \<open>Lemmas: identifiers are read without regard to case\<close>

lemma isValid_lower [simp]: "isValid (map lower_hex i) \<longleftrightarrow> isValid i"
  by (simp add: isValid_iff_cast oid_of_string_lower)

lemma findById_lower: "findById e (map lower_hex i) s = findById e i s"
  by (simp add: findById_def oid_of_string_lower)

lemma findByIdAndUpdate_lower:
  "findByIdAndUpdate e (map lower_hex i) f s = findByIdAndUpdate e i f s"
  by (simp add: findByIdAndUpdate_def oid_of_string_lower)

lemma findByIdAndDelete_lower:
  "findByIdAndDelete e (map lower_hex i) s = findByIdAndDelete e i s"
  by (simp add: findByIdAndDelete_def oid_of_string_lower)

lemmas store_lower = findById_lower findByIdAndUpdate_lower findByIdAndDelete_lower

lemma get_blog_lower: "get_blog e (map lower_hex i) s = get_blog e i s"
  by (simp add: get_blog_unfold store_lower)

lemma put_blog_lower: "put_blog e (map lower_hex i) b s = put_blog e i b s"
  by (simp add: put_blog_unfold store_lower split: sum.splits prod.splits)

lemma delete_blog_lower: "delete_blog e (map lower_hex i) s = delete_blog e i s"
  by (simp add: delete_blog_unfold store_lower)

section \<open>Lemmas: a title of white space\<close>

lemma post_blogs_blank_title:
  assumes "get_prop b ''title'' = JStr t" and "t \<noteq> []" and "blank t"
    and "truthy (get_prop b ''body'')"
  shows "\<exists>es. post_blogs e b s =
    (server_error (error_message (ValidationError es)), s\<lparr>next_oid := Suc (next_oid s)\<rparr>)"
proof -
  from assms(4) have nb: "\<not> nullish b"
    by (rule truthy_get_prop_not_nullish)
  from assms(1,2) have tt: "truthy (get_prop b ''title'')"
    by simp
  from assms(1,3) obtain es where "validated (post_fields b) = Inl es"
    using validated_blank_title(1) [of t] by (auto simp: post_fields_def)
  from post_blogs_invalid [OF nb tt assms(4) this] show ?thesis ..
qed

lemma put_blog_blank_title:
  assumes "get_prop b ''title'' = JStr t" and "t \<noteq> []" and "blank t"
    and "truthy (get_prop b ''body'')" and "isValid i"
  shows "\<exists>es. put_blog e i b s = (server_error (error_message (ValidationError es)), s)"
proof -
  from assms(4) have nb: "\<not> nullish b"
    by (rule truthy_get_prop_not_nullish)
  from assms(1,2) have tt: "truthy (get_prop b ''title'')"
    by simp
  from assms(5) obtain w where w: "oid_of_string i = Some w"
    by (auto dest: isValid_cast)
  from assms(1,3) obtain es where "validated_update (put_fields b) = Inl es"
    using validated_blank_title(2) [of t] by (auto simp: put_fields_def)
  from put_blog_rejected [OF nb tt assms(4) w this] show ?thesis ..
qed

section \<open>Lemmas: the identifier counter\<close>

lemma post_blogs_next_oid: "next_oid s \<le> next_oid (snd (post_blogs e b s))"
proof -
  obtain r s' where eq: "post_blogs e b s = (r, s')"
    by force
  then have "next_oid s \<le> next_oid s'"
  proof (cases rule: post_blogs_cases)
    case (created dr s1 d)
    from created(5) have "next_oid s' = next_oid s1"
      by (auto elim: save_InrD)
    with created(4) show ?thesis
      by (auto simp: new_Blog_def)
  qed (auto simp: new_Blog_def)
  with eq show ?thesis by simp
qed

lemma put_blog_next_oid: "next_oid (snd (put_blog e i b s)) = next_oid s"
proof -
  obtain r s' where eq: "put_blog e i b s = (r, s')"
    by force
  then have "next_oid s' = next_oid s"
  proof (cases rule: put_blog_cases)
    case (updated d)
    from updated(3) show ?thesis
      by (cases rule: findByIdAndUpdate_cases) simp_all
  qed (auto dest: update_missing_same)
  with eq show ?thesis by simp
qed

lemma delete_blog_next_oid: "next_oid (snd (delete_blog e i s)) = next_oid s"
proof -
  obtain r s' where eq: "delete_blog e i s = (r, s')"
    by force
  then have "next_oid s' = next_oid s"
  proof (cases rule: delete_blog_cases)
    case (deleted d)
    from deleted(2) show ?thesis
      by (cases rule: findByIdAndDelete_cases) simp_all
  qed (auto dest: delete_missing_same)
  with eq show ?thesis by simp
qed

lemma handle_next_oid: "next_oid s \<le> next_oid (snd (handle e r s))"
  by (cases r) (simp_all add: post_blogs_next_oid put_blog_next_oid delete_blog_next_oid)

end
