(* ===== verification/Blog_Server.thy ===== *)
theory Blog_Server
  imports Blog_Handlers
begin

text \<open>
  The process around the handlers, \<^verbatim>\<open>src/index.js\<close> lines 7, 15-20 and 234-236: the server
  starts connecting to the database and listening at the same time, exits with code 1
  when the connection fails, and serves requests one handler at a time, appending to its
  console what the handler's \<^verbatim>\<open>catch\<close> block wrote. The state machine is the inductive
  relation \<open>step\<close>; \<open>next_state\<close> is the same machine as a function, for evaluation.
  \<open>reachable\<close> collects the states the server can be in when it starts on a collection
  that satisfies the invariant; \<open>server_inv\<close> is proved for all of them by rule induction.

  A request is an event at the moment it is answered. Listening does not wait for the
  connection (\<^verbatim>\<open>app.listen\<close> is called while \<^verbatim>\<open>mongoose.connect\<close> is pending), and the
  database driver holds a store call back until the connection is there. So a connected
  server answers every request, and a server that is still connecting answers a request
  whose handler makes no store call, or whose store call is given up (the driver's
  buffering timeout, a fault of the environment); \<open>accepts\<close> is this condition. The
  clock of the state is the time of the last request served; a request whose time lies
  before it is not enabled, which is the assumption that the clock of the machine does
  not run backwards.
\<close>

section \<open>State\<close>

datatype phase = Connecting | Connected | Exited nat

record server =
  phase :: phase
  listening :: bool
  db :: store
  clock :: nat
  console :: "log_line list"

datatype event = ConnectOk | ConnectFail string | Listening | Request env request

definition PORT :: nat where
  "PORT = 3000"

definition boot :: "store \<Rightarrow> nat \<Rightarrow> server" where
  "boot d t = \<lparr>phase = Connecting, listening = False, db = d, clock = t, console = []\<rparr>"

definition alive :: "server \<Rightarrow> bool" where
  "alive s \<longleftrightarrow> (case phase s of Exited c \<Rightarrow> False | _ \<Rightarrow> True)"

section \<open>Transitions\<close>

definition connect_ok :: "server \<Rightarrow> server" where
  "connect_ok s = s\<lparr>phase := Connected, console := console s @ [Info ''Connected to MongoDB'']\<rparr>"

definition connect_fail :: "string \<Rightarrow> server \<Rightarrow> server" where
  "connect_fail m s =
     s\<lparr>phase := Exited 1,
       console := console s @ [Failure ''MongoDB connection error:'' (Store_error (StoreFailure m))]\<rparr>"

definition listen :: "server \<Rightarrow> server" where
  "listen s =
     s\<lparr>listening := True,
       console := console s @
         [Info (''Server is running on http://localhost:'' @ num_to_string (int PORT))]\<rparr>"

definition serve :: "env \<Rightarrow> request \<Rightarrow> server \<Rightarrow> response \<times> server" where
  "serve e r s =
     (case handle_io e r (db s) of
        ((lines, resp), d) \<Rightarrow>
          (resp, s\<lparr>db := d, clock := now e, console := console s @ lines\<rparr>))"

definition accepts :: "server \<Rightarrow> env \<Rightarrow> request \<Rightarrow> bool" where
  "accepts s e r \<longleftrightarrow>
     listening s \<and> clock s \<le> now e \<and>
     (phase s = Connected \<or>
      phase s = Connecting \<and> (\<not> reaches_store r \<or> fault e \<noteq> None))"

inductive step :: "server \<Rightarrow> event \<Rightarrow> server \<Rightarrow> bool" where
  connected: "phase s = Connecting \<Longrightarrow> step s ConnectOk (connect_ok s)"
| exited: "phase s = Connecting \<Longrightarrow> step s (ConnectFail m) (connect_fail m s)"
| listening: "alive s \<Longrightarrow> \<not> listening s \<Longrightarrow> step s Listening (listen s)"
| served: "accepts s e r \<Longrightarrow> step s (Request e r) (snd (serve e r s))"

fun next_state :: "server \<Rightarrow> event \<Rightarrow> server option" where
  "next_state s ConnectOk = (if phase s = Connecting then Some (connect_ok s) else None)"
| "next_state s (ConnectFail m) =
     (if phase s = Connecting then Some (connect_fail m s) else None)"
| "next_state s Listening = (if alive s \<and> \<not> listening s then Some (listen s) else None)"
| "next_state s (Request e r) =
     (if accepts s e r then Some (snd (serve e r s)) else None)"

fun run :: "server \<Rightarrow> event list \<Rightarrow> server option" where
  "run s [] = Some s"
| "run s (ev # evs) = (case next_state s ev of None \<Rightarrow> None | Some s' \<Rightarrow> run s' evs)"

fun reply :: "server \<Rightarrow> event \<Rightarrow> response option" where
  "reply s (Request e r) =
     (if accepts s e r then Some (fst (serve e r s)) else None)"
| "reply s ev = None"

text \<open>The handlers applied to a sequence of requests, each on the store the previous left.\<close>

fun exec :: "(env \<times> request) list \<Rightarrow> store \<Rightarrow> response list \<times> store" where
  "exec [] s = ([], s)"
| "exec (er # ers) s =
     (case handle (fst er) (snd er) s of
        (resp, s1) \<Rightarrow> (case exec ers s1 of (resps, s2) \<Rightarrow> (resp # resps, s2)))"

definition is_create :: "request \<Rightarrow> bool" where
  "is_create r = (case r of POST_blogs b \<Rightarrow> True | _ \<Rightarrow> False)"

section \<open>Reachable states and their invariant\<close>

inductive reachable :: "server \<Rightarrow> bool" where
  start: "store_inv d \<Longrightarrow> stamped_by t d \<Longrightarrow> reachable (boot d t)"
| after: "reachable s \<Longrightarrow> step s ev s' \<Longrightarrow> reachable s'"

definition server_inv :: "server \<Rightarrow> bool" where
  "server_inv s \<longleftrightarrow>
     store_inv (db s) \<and> stamped_by (clock s) (db s) \<and>
     (case phase s of Exited c \<Rightarrow> c = 1 | _ \<Rightarrow> True)"

inductive_cases step_ConnectOkE [elim!]: "step s ConnectOk s'"
inductive_cases step_ConnectFailE [elim!]: "step s (ConnectFail m) s'"
inductive_cases step_ListeningE [elim!]: "step s Listening s'"
inductive_cases step_RequestE [elim!]: "step s (Request e r) s'"

section \<open>Lemmas: the transitions\<close>

lemma boot_simps [simp]:
  "phase (boot d t) = Connecting" "\<not> listening (boot d t)" "db (boot d t) = d"
  "clock (boot d t) = t" "console (boot d t) = []"
  by (simp_all add: boot_def)

lemma alive_simps [simp]:
  "alive s \<longleftrightarrow> phase s = Connecting \<or> phase s = Connected"
  by (cases "phase s") (simp_all add: alive_def)

lemma connect_ok_simps [simp]:
  "phase (connect_ok s) = Connected" "listening (connect_ok s) = listening s"
  "db (connect_ok s) = db s" "clock (connect_ok s) = clock s"
  "console (connect_ok s) = console s @ [Info ''Connected to MongoDB'']"
  by (simp_all add: connect_ok_def)

lemma connect_fail_simps [simp]:
  "phase (connect_fail m s) = Exited 1" "listening (connect_fail m s) = listening s"
  "db (connect_fail m s) = db s" "clock (connect_fail m s) = clock s"
  "console (connect_fail m s) =
     console s @ [Failure ''MongoDB connection error:'' (Store_error (StoreFailure m))]"
  by (simp_all add: connect_fail_def)

lemma listen_simps [simp]:
  "phase (listen s) = phase s" "listening (listen s)"
  "db (listen s) = db s" "clock (listen s) = clock s"
  by (simp_all add: listen_def)

lemma num_to_string_PORT: "num_to_string (int PORT) = ''3000''"
  unfolding PORT_def by code_simp

lemma console_listen:
  "console (listen s) = console s @ [Info ''Server is running on http://localhost:3000'']"
  by (simp add: listen_def num_to_string_PORT)

lemma serve_simps [simp]:
  "fst (serve e r s) = fst (handle e r (db s))"
  "phase (snd (serve e r s)) = phase s" "listening (snd (serve e r s)) = listening s"
  "db (snd (serve e r s)) = snd (handle e r (db s))" "clock (snd (serve e r s)) = now e"
  "console (snd (serve e r s)) = console s @ fst (fst (handle_io e r (db s)))"
  by (simp_all add: serve_def answer_handle_io [symmetric] answer_def split_beta)

lemma accepts_connected [simp]:
  "phase s = Connected \<Longrightarrow> accepts s e r \<longleftrightarrow> listening s \<and> clock s \<le> now e"
  by (simp add: accepts_def)

lemma accepts_exited [simp]: "phase s = Exited c \<Longrightarrow> \<not> accepts s e r"
  by (simp add: accepts_def)

lemma accepts_connecting:
  "phase s = Connecting \<Longrightarrow>
     accepts s e r \<longleftrightarrow> listening s \<and> clock s \<le> now e \<and> (\<not> reaches_store r \<or> fault e \<noteq> None)"
  by (simp add: accepts_def)

lemma accepts_clock: "accepts s e r \<Longrightarrow> clock s \<le> now e"
  by (simp add: accepts_def)

lemma step_iff_next_state: "step s ev s' \<longleftrightarrow> next_state s ev = Some s'"
  by (cases ev) (auto intro: step.intros)

lemma step_deterministic: "step s ev s' \<Longrightarrow> step s ev s'' \<Longrightarrow> s' = s''"
  by (simp add: step_iff_next_state)

lemma step_phase:
  assumes "step s ev s'"
  shows "phase s' = phase s \<or> (phase s = Connecting \<and> (phase s' = Connected \<or> phase s' = Exited 1))"
  using assms by cases simp_all

lemma exited_stuck: "phase s = Exited c \<Longrightarrow> \<not> step s ev s'"
  by (cases ev) auto

lemma step_clock:
  assumes "step s ev s'"
  shows "clock s \<le> clock s'"
  using assms by cases (simp_all add: accepts_clock)

lemma step_console:
  assumes "step s ev s'"
  shows "\<exists>l. console s' = console s @ l"
  using assms by cases (simp_all add: listen_def)

lemma step_db:
  assumes "step s ev s'"
  shows "db s' = (case ev of Request e r \<Rightarrow> snd (handle e r (db s)) | _ \<Rightarrow> db s)"
  using assms by cases simp_all

lemma reply_iff_step: "reply s ev \<noteq> None \<longleftrightarrow> (\<exists>e r s'. ev = Request e r \<and> step s ev s')"
  by (cases ev) (auto simp: step_iff_next_state)

section \<open>Lemmas: what the console shows\<close>

lemma serve_logged:
  "(status (fst (serve e r s)) = 500 \<longrightarrow>
      (\<exists>err. console (snd (serve e r s)) = console s @ [Failure (error_label r) err] \<and>
         message (fst (serve e r s)) = thrown_message err)) \<and>
   (status (fst (serve e r s)) \<noteq> 500 \<longrightarrow> console (snd (serve e r s)) = console s)"
  by (rule handle_io_cases [of e r "db s"]) (simp_all add: serve_def)

text \<open>While the connection is pending no request succeeds or changes the collection.\<close>

lemma serve_connecting:
  assumes "phase s = Connecting" and "accepts s e r"
  shows "\<not> success (fst (serve e r s)) \<and> posts (db (snd (serve e r s))) = posts (db s)"
proof (cases "reaches_store r")
  case True
  with assms obtain m where "fault e = Some m"
    by (auto simp: accepts_connecting)
  from handle_fault [OF True this, of "db s"] show ?thesis
    by simp
next
  case False
  from handle_offline [OF this, of e "db s" e "db s"] show ?thesis
    by simp
qed

lemma serve_refuses:
  assumes "phase s = Connecting" and "accepts s e r"
  shows "status (fst (serve e r s)) \<in> {400, 500}"
proof (cases "reaches_store r")
  case True
  with assms obtain m where "fault e = Some m"
    by (auto simp: accepts_connecting)
  from handle_fault [OF True this, of "db s"] show ?thesis
    by simp
next
  case False
  from handle_offline [OF this, of e "db s" e "db s"] show ?thesis
    by simp
qed

section \<open>Lemmas: runs\<close>

lemma run_append:
  "run s (evs @ evs') = (case run s evs of None \<Rightarrow> None | Some s' \<Rightarrow> run s' evs')"
  by (induction evs arbitrary: s) (simp_all split: option.splits)

lemma run_snoc:
  "run s (evs @ [ev]) = (case run s evs of None \<Rightarrow> None | Some s' \<Rightarrow> next_state s' ev)"
  by (simp add: run_append split: option.splits)

lemma run_step: "run s [ev] = Some s' \<longleftrightarrow> step s ev s'"
  by (simp add: step_iff_next_state split: option.splits)

lemma run_reachable:
  "reachable s \<Longrightarrow> run s evs = Some s' \<Longrightarrow> reachable s'"
proof (induction evs arbitrary: s)
  case (Cons ev evs)
  from Cons.prems(2) obtain s1 where s1: "next_state s ev = Some s1" and r: "run s1 evs = Some s'"
    by (auto split: option.splits)
  from Cons.prems(1) s1 have "reachable s1"
    by (auto intro: reachable.after simp: step_iff_next_state)
  then show ?case
    using r by (rule Cons.IH)
qed simp

lemma reachable_run:
  assumes "reachable s"
  shows "\<exists>d t evs. store_inv d \<and> stamped_by t d \<and> run (boot d t) evs = Some s"
  using assms
proof induction
  case (start d t)
  then have "store_inv d \<and> stamped_by t d \<and> run (boot d t) [] = Some (boot d t)"
    by simp
  then show ?case by blast
next
  case (after s ev s')
  then obtain d t evs where "store_inv d" "stamped_by t d" "run (boot d t) evs = Some s"
    by blast
  with after.hyps(2) have "store_inv d \<and> stamped_by t d \<and> run (boot d t) (evs @ [ev]) = Some s'"
    by (simp add: run_snoc step_iff_next_state)
  then show ?case by blast
qed

lemma run_clock: "run s evs = Some s' \<Longrightarrow> clock s \<le> clock s'"
proof (induction evs arbitrary: s)
  case (Cons ev evs)
  then obtain s1 where "step s ev s1" and "run s1 evs = Some s'"
    by (auto simp: step_iff_next_state split: option.splits)
  with Cons.IH [of s1] show ?case
    by (auto dest: step_clock)
qed simp

section \<open>Lemmas: the invariant\<close>

lemma server_inv_boot: "store_inv d \<Longrightarrow> stamped_by t d \<Longrightarrow> server_inv (boot d t)"
  by (simp add: server_inv_def)

lemma server_inv_step:
  assumes "server_inv s" and "step s ev s'"
  shows "server_inv s'"
  using assms(2,1)
  by cases (auto simp: server_inv_def intro: handle_inv handle_stamped dest: accepts_clock)

lemma reachable_server_inv: "reachable s \<Longrightarrow> server_inv s"
  by (induction rule: reachable.induct) (auto intro: server_inv_boot server_inv_step)

lemma reachable_exit_code: "reachable s \<Longrightarrow> phase s = Exited c \<Longrightarrow> c = 1"
  by (drule reachable_server_inv) (simp add: server_inv_def)

section \<open>Lemmas: sequences of requests\<close>

lemma exec_Cons:
  "fst (exec (er # ers) s) =
     fst (handle (fst er) (snd er) s) # fst (exec ers (snd (handle (fst er) (snd er) s)))"
  "snd (exec (er # ers) s) = snd (exec ers (snd (handle (fst er) (snd er) s)))"
  by (simp_all add: split_beta)

lemma exec_append:
  "exec (ers @ ers') s =
     (fst (exec ers s) @ fst (exec ers' (snd (exec ers s))), snd (exec ers' (snd (exec ers s))))"
  by (induction ers arbitrary: s) (simp_all add: split_beta)

lemma length_exec [simp]: "length (fst (exec ers s)) = length ers"
  by (induction ers arbitrary: s) (simp_all add: split_beta)

lemma exec_inv: "store_inv s \<Longrightarrow> store_inv (snd (exec ers s))"
  by (induction ers arbitrary: s) (simp_all add: split_beta handle_inv)

lemma exec_stamped:
  "stamped_by t s \<Longrightarrow> sorted (t # map (\<lambda>er. now (fst er)) ers) \<Longrightarrow>
     stamped_by (last (t # map (\<lambda>er. now (fst er)) ers)) (snd (exec ers s))"
proof (induction ers arbitrary: s t)
  case (Cons er ers)
  from Cons.prems have "stamped_by (now (fst er)) (snd (handle (fst er) (snd er) s))"
    by (auto intro: handle_stamped)
  moreover from Cons.prems(2) have "sorted (now (fst er) # map (\<lambda>er. now (fst er)) ers)"
    by simp
  ultimately show ?case
    using Cons.IH by (simp add: split_beta)
qed simp

lemma exec_count:
  "int (length (posts (snd (exec ers s)))) =
     int (length (posts s)) + sum_list (map2 delta (map snd ers) (fst (exec ers s)))"
proof (induction ers arbitrary: s)
  case (Cons er ers)
  from handle_count [of "fst er" "snd er" s] Cons.IH [of "snd (handle (fst er) (snd er) s)"]
  show ?case
    by (simp add: split_beta)
qed simp

lemma exec_next_oid: "next_oid s \<le> next_oid (snd (exec ers s))"
proof (induction ers arbitrary: s)
  case (Cons er ers)
  from handle_next_oid [of s "fst er" "snd er"] Cons.IH [of "snd (handle (fst er) (snd er) s)"]
  show ?case
    by (simp add: split_beta)
qed simp

lemma exec_creates:
  assumes "list_all (\<lambda>er. is_create (snd er)) ers" and "list_all success (fst (exec ers s))"
  shows "length (posts (snd (exec ers s))) = length (posts s) + length ers"
  using assms
proof (induction ers arbitrary: s)
  case (Cons er ers)
  from Cons.prems(1) obtain b where b: "snd er = POST_blogs b"
    by (cases "snd er") (simp_all add: is_create_def)
  from Cons.prems(2) b have "success (fst (post_blogs (fst er) b s))"
    by (simp add: split_beta)
  with post_blogs_count [of "fst er" b s]
  have "length (posts (snd (post_blogs (fst er) b s))) = Suc (length (posts s))"
    by simp
  with Cons.IH [of "snd (post_blogs (fst er) b s)"] Cons.prems b show ?case
    by (simp add: split_beta)
qed simp

lemma reachable_sample: "reachable (listen (connect_ok (boot empty_store 0)))"
proof -
  have "reachable (boot empty_store 0)"
    by (intro reachable.start store_inv_empty stamped_by_empty)
  then have "reachable (connect_ok (boot empty_store 0))"
    by (rule reachable.after [OF _ step.connected]) simp
  then show ?thesis
    by (rule reachable.after [OF _ step.listening]) simp_all
qed

section \<open>Properties of the server\<close>

text \<open>
  C25. Every state the server can reach, started on a collection that satisfies the
  invariant, satisfies it: identifiers are unique, stored records are well formed, no
  timestamp lies after the clock and no record was updated before it was created, and an
  exit code, if the process has exited, is 1.
\<close>

theorem reachable_keeps_invariant:
  assumes "reachable s"
  shows "server_inv s"
  using assms by (rule reachable_server_inv)

theorem reachable_keeps_invariant_witness:
  "server_inv (listen (connect_ok (boot empty_store 0)))"
  using reachable_keeps_invariant [OF reachable_sample] .

text \<open>
  C26. A failure of the initial connection is fatal: the process exits with code 1
  without touching the collection, and no event is taken afterwards.
\<close>

theorem connection_failure_is_fatal:
  assumes "step s (ConnectFail m) s'"
  shows "phase s' = Exited 1 \<and> db s' = db s \<and> next_state s' ev = None \<and>
    run s' (ev # evs) = None \<and> reply s' ev = None"
proof -
  from assms have "phase s' = Exited 1" and "db s' = db s"
    by auto
  moreover from this(1) have "next_state s' ev = None"
    by (cases ev) simp_all
  moreover from \<open>phase s' = Exited 1\<close> have "reply s' ev = None"
    by (cases ev) simp_all
  ultimately show ?thesis
    by simp
qed

theorem connection_failure_is_fatal_witness:
  "run (boot sample_store 0)
     [Listening, ConnectFail ''refused'', Request (quiet 1) GET_blogs] = None"
  using connection_failure_is_fatal [of "listen (boot sample_store 0)" "''refused''"
      "connect_fail ''refused'' (listen (boot sample_store 0))" "Request (quiet 1) GET_blogs" "[]"]
  by (simp add: step_iff_next_state)

text \<open>
  C27. A listening server whose connection is still pending answers a request only with
  a refusal: the answer is not a success, the collection keeps its records, and the
  server goes on waiting for the connection.
\<close>

theorem pending_connection_only_refuses:
  assumes "phase s = Connecting" and "step s (Request e r) s'"
  shows "phase s' = Connecting \<and> posts (db s') = posts (db s) \<and>
    (\<exists>resp. reply s (Request e r) = Some resp \<and> \<not> success resp \<and> status resp \<in> {400, 500})"
proof -
  from assms(2) have acc: "accepts s e r" and s': "s' = snd (serve e r s)"
    by auto
  from serve_connecting [OF assms(1) acc] s' have "posts (db s') = posts (db s)"
    and "\<not> success (fst (serve e r s))"
    by simp_all
  moreover from serve_refuses [OF assms(1) acc] have "status (fst (serve e r s)) \<in> {400, 500}" .
  ultimately show ?thesis
    using assms(1) acc s' by simp
qed

theorem pending_connection_only_refuses_witness:
  "reply (listen (boot sample_store 0)) (Request (quiet 1) (GET_blog ''x'')) = Some invalid_id \<and>
   posts (db (snd (serve (quiet 1) (GET_blog ''x'') (listen (boot sample_store 0))))) =
     posts sample_store"
  using pending_connection_only_refuses [of "listen (boot sample_store 0)" "quiet 1" "GET_blog ''x''"
      "snd (serve (quiet 1) (GET_blog ''x'') (listen (boot sample_store 0)))"]
  by (simp add: step_iff_next_state accepts_connecting reaches_store_def isValid_def
      get_blog_invalid quiet_def)

text \<open>
  C28. The number of records after a sequence of requests is the number before, plus
  the number of create requests answered with success, minus the number of delete
  requests answered with success.
\<close>

theorem count_after_requests:
  "int (length (posts (snd (exec ers s)))) =
     int (length (posts s)) + sum_list (map2 delta (map snd ers) (fst (exec ers s)))"
  by (rule exec_count)

text \<open>
  C29. After a sequence of create requests that were all answered with success, a list
  request on a store that answers reports as its count the number of records before
  plus the number of requests.
\<close>

theorem count_after_creates:
  assumes "list_all (\<lambda>er. is_create (snd er)) ers" and "list_all success (fst (exec ers s))"
    and "fault e = None"
  shows "count (fst (get_blogs e (snd (exec ers s)))) = Some (length (posts s) + length ers)"
  using exec_creates [OF assms(1,2)] assms(3) by (simp add: get_blogs_ok)

theorem count_after_creates_witness:
  "count (fst (get_blogs (quiet 3) (snd (exec
     [(quiet 1, POST_blogs (JObj [(''title'', JStr ''A''), (''body'', JStr ''B'')])),
      (quiet 2, POST_blogs (JObj [(''title'', JStr ''C''), (''body'', JStr ''D'')]))]
     empty_store)))) = Some 2"
  using count_after_creates [of
      "[(quiet 1, POST_blogs (JObj [(''title'', JStr ''A''), (''body'', JStr ''B'')])),
        (quiet 2, POST_blogs (JObj [(''title'', JStr ''C''), (''body'', JStr ''D'')]))]"
      empty_store "quiet 3"]
  by (simp add: is_create_def quiet_def empty_store_def post_blogs_unfold destructure_def
      new_Blog_def fresh_oid_def js_or_def validated_strs save_def is_space_def lookup_by_def
      new_doc_def ok_def Let_def)

text \<open>
  C30. A request that ends in the \<^verbatim>\<open>catch\<close> block of its handler, and no other, writes
  to the error console: when the response has status 500 the console has grown by one
  line, which carries the label of that route and the error whose message the response
  reports, and when the response has another status the console is as it was.
\<close>

theorem failures_are_logged:
  "(status (fst (serve e r s)) = 500 \<longrightarrow>
      (\<exists>err. console (snd (serve e r s)) = console s @ [Failure (error_label r) err] \<and>
         message (fst (serve e r s)) = thrown_message err)) \<and>
   (status (fst (serve e r s)) \<noteq> 500 \<longrightarrow> console (snd (serve e r s)) = console s)"
  by (rule serve_logged)

theorem failures_are_logged_witness:
  "status (fst (serve (failing 4 ''down'') GET_blogs (boot sample_store 0))) = 500 \<and>
   (\<exists>err. console (snd (serve (failing 4 ''down'') GET_blogs (boot sample_store 0))) =
       [Failure ''Error fetching blogs:'' err] \<and> thrown_message err = ''down'')"
  using failures_are_logged [of "failing 4 ''down''" GET_blogs "boot sample_store 0"]
  by (auto simp: get_blogs_fault failing_def)

text \<open>
  C31. Identifiers are not reused below \<open>2 ^ 96\<close> of them: after any sequence of
  requests, the identifier of the next record differs from every identifier of the
  collection as it is and as it was before the sequence.
\<close>

theorem identifiers_are_not_reused:
  assumes "store_inv s" and "next_oid (snd (exec ers s)) < 2 ^ 96"
  shows "fresh_oid (snd (exec ers s)) \<notin> ids s \<union> ids (snd (exec ers s))"
proof -
  let ?s' = "snd (exec ers s)"
  from assms(1) have "store_inv ?s'"
    by (rule exec_inv)
  from fresh_oid_fresh [OF this assms(2)] have "fresh_oid ?s' \<notin> ids ?s'" .
  moreover have "fresh_oid ?s' \<notin> ids s"
  proof
    assume "fresh_oid ?s' \<in> ids s"
    then obtain d where "d \<in> set (posts s)" and "doc_id d = fresh_oid ?s'"
      by (auto simp: ids_def keys_of_def)
    moreover from assms(2) exec_next_oid [of s ers] have "next_oid s \<le> 2 ^ 96"
      by simp
    ultimately have "unat (fresh_oid ?s') < next_oid s"
      using assms(1) by (auto simp: store_inv_def)
    moreover from assms(2) have "unat (fresh_oid ?s') = next_oid ?s'"
      by (simp add: fresh_oid_def unat_of_nat)
    ultimately show False
      using exec_next_oid [of s ers] by simp
  qed
  ultimately show ?thesis
    by simp
qed

theorem identifiers_are_not_reused_witness:
  "fresh_oid (snd (exec [(quiet 8, DELETE_blog zero_id)] sample_store)) \<notin> ids sample_store"
  using identifiers_are_not_reused [OF store_inv_sample, of "[(quiet 8, DELETE_blog zero_id)]"]
  by (simp add: split_beta delete_blog_next_oid next_oid_sample)

end
