(* ===== verification/Blog_Client.thy ===== *)
theory Blog_Client
  imports Blog_Server
begin

text \<open>
  The browser client, \<^verbatim>\<open>src/public/script.js\<close>. A \<open>page\<close> holds what the script reads and
  writes of the document: the four inputs of the form, the form's title and the label
  and state of its submit button, whether the cancel button is shown, the content of
  the list container, the toast, and the lines of the error console. Each function of
  the script is a definition of the same name. A function that calls the server takes a
  \<open>net\<close>, which says whether the call is delivered and, if it is, the environment in
  which the server handles it, and transforms a pair of the page and the server's
  store.

  The model runs each function to completion: a function and the requests it makes are
  not interleaved with other user actions. The one place where the script itself
  reorders work, the \<^verbatim>\<open>finally\<close> block of the submit handler running before the list
  request that \<open>loadBlogs\<close> started comes back, is covered by the lemma that the two
  commute. Dates are shown as their timestamps; scrolling is not modelled. The initial
  values of the inputs, which \<^verbatim>\<open>blogForm.reset()\<close> restores, are taken to be empty.
\<close>

section \<open>The page\<close>

record card =
  card_id :: string
  card_title :: string
  card_author :: string
  card_body :: string
  card_created :: nat
  card_updated :: "nat option"

datatype view = Loading | Empty_state | Cards "card list" | Load_failed

record page =
  blog_id :: string
  title_in :: string
  author_in :: string
  body_in :: string
  form_title :: string
  submit_label :: string
  submit_disabled :: bool
  cancel_shown :: bool
  container :: view
  toast_text :: string
  toast_type :: string
  toast_shown :: bool
  console_errors :: "string list"

datatype net = Unreachable | Delivered env

type_synonym world = "page \<times> store"

definition API_URL :: string where
  "API_URL = ''http://localhost:3000/blogs''"

definition initial_page :: page where
  "initial_page =
     \<lparr>blog_id = [], title_in = [], author_in = [], body_in = [],
      form_title = ''Create New Blog Post'', submit_label = ''Create Blog Post'',
      submit_disabled = False, cancel_shown = False, container = Loading, toast_text = [],
      toast_type = [], toast_shown = False, console_errors = []\<rparr>"

section \<open>Helpers of the script\<close>

definition str_or :: "string \<Rightarrow> string \<Rightarrow> string" where
  "str_or a b = (if a = [] then b else a)"

definition showToast :: "string \<Rightarrow> string \<Rightarrow> page \<Rightarrow> page" where
  "showToast m ty p = p\<lparr>toast_text := m, toast_type := ty, toast_shown := True\<rparr>"

definition hide_toast :: "page \<Rightarrow> page" where
  "hide_toast p = p\<lparr>toast_shown := False\<rparr>"

definition log_error :: "string \<Rightarrow> page \<Rightarrow> page" where
  "log_error l p = p\<lparr>console_errors := console_errors p @ [l]\<rparr>"

definition escape_char :: "char \<Rightarrow> string" where
  "escape_char c =
     (if c = CHR ''&'' then ''&amp;''
      else if c = CHR ''<'' then ''&lt;''
      else if c = CHR ''>'' then ''&gt;''
      else if c = CHR 0xA0 then ''&nbsp;''
      else [c])"

definition escapeHtml :: "string \<Rightarrow> string" where
  "escapeHtml text = concat (map escape_char text)"

text \<open>Reading escaped text back, as the browser does when it parses the markup of a card.\<close>

function unescape :: "string \<Rightarrow> string" where
  "unescape [] = []"
| "unescape (c # cs) =
     (if c = CHR ''&'' \<and> take 4 cs = ''amp;'' then CHR ''&'' # unescape (drop 4 cs)
      else if c = CHR ''&'' \<and> take 3 cs = ''lt;'' then CHR ''<'' # unescape (drop 3 cs)
      else if c = CHR ''&'' \<and> take 3 cs = ''gt;'' then CHR ''>'' # unescape (drop 3 cs)
      else if c = CHR ''&'' \<and> take 5 cs = ''nbsp;'' then CHR 0xA0 # unescape (drop 5 cs)
      else c # unescape cs)"
  by pat_completeness auto

termination unescape
  by (relation "measure length") simp_all

definition blogData :: "string \<Rightarrow> string \<Rightarrow> string \<Rightarrow> jsval" where
  "blogData t b a = JObj [(''title'', JStr t), (''body'', JStr b), (''author'', JStr a)]"

definition fetch :: "net \<Rightarrow> request \<Rightarrow> store \<Rightarrow> (response \<times> store) option" where
  "fetch n r s = (case n of Unreachable \<Rightarrow> None | Delivered e \<Rightarrow> Some (handle e r s))"

section \<open>The list\<close>

definition card_of :: "blog \<Rightarrow> card" where
  "card_of d =
     \<lparr>card_id = toHexString (doc_id d),
      card_title = escapeHtml (title d),
      card_author = escapeHtml (case author d of None \<Rightarrow> [] | Some a \<Rightarrow> a),
      card_body = escapeHtml (body d),
      card_created = createdAt d,
      card_updated = (if createdAt d \<noteq> updatedAt d then Some (updatedAt d) else None)\<rparr>"

definition displayBlogs :: "blog list \<Rightarrow> page \<Rightarrow> page" where
  "displayBlogs blogs p = p\<lparr>container := Cards (map card_of blogs)\<rparr>"

definition load_failed :: "page \<Rightarrow> page" where
  "load_failed p =
     showToast ''Error loading blogs'' ''error''
       ((log_error ''Error loading blogs:'' p)\<lparr>container := Load_failed\<rparr>)"

definition loadBlogs :: "net \<Rightarrow> world \<Rightarrow> world" where
  "loadBlogs n w =
     (case w of (p, s) \<Rightarrow>
        let p0 = p\<lparr>container := Loading\<rparr> in
        (case fetch n GET_blogs s of
           None \<Rightarrow> (load_failed p0, s)
         | Some (result, s1) \<Rightarrow>
             if success result then
               (case data result of
                  None \<Rightarrow> (load_failed p0, s1)
                | Some (Doc d) \<Rightarrow> (p0\<lparr>container := Empty_state\<rparr>, s1)
                | Some (Docs ds) \<Rightarrow>
                    if length ds > 0 then (displayBlogs ds p0, s1)
                    else (p0\<lparr>container := Empty_state\<rparr>, s1))
             else (p0\<lparr>container := Empty_state\<rparr>, s1)))"

section \<open>The form\<close>

definition resetForm :: "page \<Rightarrow> page" where
  "resetForm p =
     p\<lparr>title_in := [], author_in := [], body_in := [], blog_id := [],
       form_title := ''Create New Blog Post'', submit_label := ''Create Blog Post'',
       cancel_shown := False\<rparr>"

definition submit_finally :: "string \<Rightarrow> page \<Rightarrow> page" where
  "submit_finally blogId p =
     p\<lparr>submit_disabled := False,
       submit_label := (if blogId \<noteq> [] then ''Update Blog Post'' else ''Create Blog Post'')\<rparr>"

definition submit_request :: "page \<Rightarrow> request" where
  "submit_request p =
     (let blogId = blog_id p; ti = trim (title_in p); au = trim (author_in p);
          bo = trim (body_in p);
          bd = blogData ti bo (str_or au ''Anonymous'')
      in if blogId \<noteq> [] then PUT_blog blogId bd else POST_blogs bd)"

definition sending :: "page \<Rightarrow> page" where
  "sending p =
     p\<lparr>submit_disabled := True,
       submit_label := (if blog_id p \<noteq> [] then ''Updating...'' else ''Creating...'')\<rparr>"

definition submit :: "net \<Rightarrow> net \<Rightarrow> world \<Rightarrow> world" where
  "submit n1 n2 w =
     (case w of (p, s) \<Rightarrow>
        if trim (title_in p) = [] then (showToast ''Title is required!'' ''error'' p, s)
        else if trim (body_in p) = [] then (showToast ''Body is required!'' ''error'' p, s)
        else
          let w2 =
            (case fetch n1 (submit_request p) s of
               None \<Rightarrow>
                 (showToast ''Error saving blog post'' ''error'' (log_error ''Error:'' (sending p)),
                  s)
             | Some (result, s1) \<Rightarrow>
                 if success result then
                   loadBlogs n2 (resetForm (showToast (message result) ''success'' (sending p)), s1)
                 else
                   (showToast (str_or (message result) ''Operation failed'') ''error'' (sending p),
                    s1))
          in (submit_finally (blog_id p) (fst w2), snd w2))"

definition fill_form :: "string \<Rightarrow> string \<Rightarrow> string \<Rightarrow> string \<Rightarrow> page \<Rightarrow> page" where
  "fill_form i t a b p =
     p\<lparr>blog_id := i, title_in := t, author_in := a, body_in := b,
       form_title := ''Edit Blog Post'', submit_label := ''Update Blog Post'',
       cancel_shown := True\<rparr>"

definition edit_failed :: "page \<Rightarrow> page" where
  "edit_failed p = showToast ''Error loading blog for editing'' ''error'' (log_error ''Error:'' p)"

definition editBlog :: "net \<Rightarrow> string \<Rightarrow> world \<Rightarrow> world" where
  "editBlog n i w =
     (case w of (p, s) \<Rightarrow>
        (case fetch n (GET_blog i) s of
           None \<Rightarrow> (edit_failed p, s)
         | Some (result, s1) \<Rightarrow>
             if success result then
               (case data result of
                  None \<Rightarrow> (edit_failed p, s1)
                | Some (Doc d) \<Rightarrow>
                    (fill_form (toHexString (doc_id d)) (title d)
                       (case author d of None \<Rightarrow> [] | Some a \<Rightarrow> a) (body d) p, s1)
                | Some (Docs ds) \<Rightarrow>
                    (fill_form ''undefined'' ''undefined'' ''undefined'' ''undefined'' p, s1))
             else (showToast ''Error loading blog for editing'' ''error'' p, s1)))"

definition deleteBlog :: "bool \<Rightarrow> net \<Rightarrow> net \<Rightarrow> string \<Rightarrow> world \<Rightarrow> world" where
  "deleteBlog confirmed n1 n2 i w =
     (case w of (p, s) \<Rightarrow>
        if \<not> confirmed then (p, s)
        else
          (case fetch n1 (DELETE_blog i) s of
             None \<Rightarrow> (showToast ''Error deleting blog post'' ''error'' (log_error ''Error:'' p), s)
           | Some (result, s1) \<Rightarrow>
               if success result then
                 loadBlogs n2 (showToast (message result) ''success'' p, s1)
               else (showToast (str_or (message result) ''Delete failed'') ''error'' p, s1)))"

section \<open>User actions\<close>

datatype action =
    Open_page
  | Type_title string
  | Type_author string
  | Type_body string
  | Submit
  | Click_edit string
  | Click_delete string bool
  | Click_cancel
  | Click_refresh
  | Toast_timeout

fun act :: "net \<Rightarrow> net \<Rightarrow> action \<Rightarrow> world \<Rightarrow> world" where
  "act n1 n2 Open_page w = loadBlogs n1 w"
| "act n1 n2 (Type_title t) w = ((fst w)\<lparr>title_in := t\<rparr>, snd w)"
| "act n1 n2 (Type_author a) w = ((fst w)\<lparr>author_in := a\<rparr>, snd w)"
| "act n1 n2 (Type_body b) w = ((fst w)\<lparr>body_in := b\<rparr>, snd w)"
| "act n1 n2 Submit w = submit n1 n2 w"
| "act n1 n2 (Click_edit i) w = editBlog n1 i w"
| "act n1 n2 (Click_delete i c) w = deleteBlog c n1 n2 i w"
| "act n1 n2 Click_cancel w = (resetForm (fst w), snd w)"
| "act n1 n2 Click_refresh w = loadBlogs n1 w"
| "act n1 n2 Toast_timeout w = (hide_toast (fst w), snd w)"

text \<open>The buttons a page offers: the edit and delete buttons of the cards it shows.\<close>

definition card_ids :: "page \<Rightarrow> string set" where
  "card_ids p = (case container p of Cards cs \<Rightarrow> card_id ` set cs | _ \<Rightarrow> {})"

fun offered :: "page \<Rightarrow> action \<Rightarrow> bool" where
  "offered p (Click_edit i) \<longleftrightarrow> i \<in> card_ids p"
| "offered p (Click_delete i c) \<longleftrightarrow> i \<in> card_ids p"
| "offered p a \<longleftrightarrow> True"

definition world_inv :: "world \<Rightarrow> bool" where
  "world_inv w \<longleftrightarrow>
     store_inv (snd w) \<and> (blog_id (fst w) = [] \<or> isValid (blog_id (fst w))) \<and>
     (\<forall>i\<in>card_ids (fst w). isValid i) \<and> \<not> submit_disabled (fst w)"

section \<open>Lemmas: helpers\<close>

lemma fetch_simps [simp]:
  "fetch Unreachable r s = None" "fetch (Delivered e) r s = Some (handle e r s)"
  by (simp_all add: fetch_def)

lemma str_or_simps [simp]: "str_or [] b = b" "a \<noteq> [] \<Longrightarrow> str_or a b = a"
  by (simp_all add: str_or_def)

lemma str_or_idem [simp]: "str_or (str_or a b) b = str_or a b"
  by (simp add: str_or_def)

lemma str_or_nonempty: "b \<noteq> [] \<Longrightarrow> str_or a b \<noteq> []"
  by (simp add: str_or_def)

lemma js_or_strings: "js_or (JStr a) (JStr b) = JStr (str_or a b)"
  by (simp add: js_or_def str_or_def)

lemma API_URL_port: "API_URL = ''http://localhost:'' @ num_to_string (int PORT) @ ''/blogs''"
  by (simp add: API_URL_def num_to_string_PORT)

lemma showToast_simps [simp]:
  "toast_text (showToast m ty p) = m" "toast_type (showToast m ty p) = ty"
  "toast_shown (showToast m ty p)" "blog_id (showToast m ty p) = blog_id p"
  "container (showToast m ty p) = container p"
  "submit_disabled (showToast m ty p) = submit_disabled p"
  "submit_label (showToast m ty p) = submit_label p"
  "form_title (showToast m ty p) = form_title p"
  "cancel_shown (showToast m ty p) = cancel_shown p"
  "console_errors (showToast m ty p) = console_errors p"
  by (simp_all add: showToast_def)

lemma log_error_simps [simp]:
  "console_errors (log_error l p) = console_errors p @ [l]" "blog_id (log_error l p) = blog_id p"
  "container (log_error l p) = container p"
  "submit_disabled (log_error l p) = submit_disabled p"
  by (simp_all add: log_error_def)

lemma resetForm_simps [simp]:
  "blog_id (resetForm p) = []" "title_in (resetForm p) = []" "author_in (resetForm p) = []"
  "body_in (resetForm p) = []" "form_title (resetForm p) = ''Create New Blog Post''"
  "submit_label (resetForm p) = ''Create Blog Post''" "\<not> cancel_shown (resetForm p)"
  "container (resetForm p) = container p" "submit_disabled (resetForm p) = submit_disabled p"
  "toast_text (resetForm p) = toast_text p" "toast_type (resetForm p) = toast_type p"
  by (simp_all add: resetForm_def)

lemma submit_finally_simps [simp]:
  "\<not> submit_disabled (submit_finally b p)"
  "submit_label (submit_finally b p) =
     (if b \<noteq> [] then ''Update Blog Post'' else ''Create Blog Post'')"
  "blog_id (submit_finally b p) = blog_id p" "container (submit_finally b p) = container p"
  "form_title (submit_finally b p) = form_title p"
  "cancel_shown (submit_finally b p) = cancel_shown p"
  "title_in (submit_finally b p) = title_in p" "author_in (submit_finally b p) = author_in p"
  "body_in (submit_finally b p) = body_in p" "toast_text (submit_finally b p) = toast_text p"
  "toast_type (submit_finally b p) = toast_type p"
  by (simp_all add: submit_finally_def)

lemma card_ids_simps [simp]:
  "card_ids (showToast m ty p) = card_ids p" "card_ids (log_error l p) = card_ids p"
  "card_ids (resetForm p) = card_ids p" "card_ids (submit_finally b p) = card_ids p"
  "card_ids (hide_toast p) = card_ids p"
  "card_ids (p\<lparr>container := Cards cs\<rparr>) = card_id ` set cs"
  "card_ids (p\<lparr>container := Empty_state\<rparr>) = {}" "card_ids (p\<lparr>container := Loading\<rparr>) = {}"
  "card_ids (p\<lparr>container := Load_failed\<rparr>) = {}"
  by (simp_all add: card_ids_def hide_toast_def)

section \<open>Lemmas: escaping\<close>

lemma escapeHtml_simps [simp]:
  "escapeHtml [] = []" "escapeHtml (c # cs) = escape_char c @ escapeHtml cs"
  by (simp_all add: escapeHtml_def)

lemma escapeHtml_append [simp]: "escapeHtml (xs @ ys) = escapeHtml xs @ escapeHtml ys"
  by (simp add: escapeHtml_def)

lemma unescape_escape_char: "unescape (escape_char c @ cs) = c # unescape cs"
  by (simp add: escape_char_def)

lemma unescape_escapeHtml [simp]: "unescape (escapeHtml s) = s"
proof (induction s)
  case (Cons c cs)
  have "unescape (escape_char c @ escapeHtml cs) = c # unescape (escapeHtml cs)"
    by (rule unescape_escape_char)
  with Cons show ?case
    by (simp del: unescape.simps)
qed simp

lemma escapeHtml_inj: "escapeHtml s = escapeHtml t \<longleftrightarrow> s = t"
  by (metis unescape_escapeHtml)

lemma escape_char_no_markup: "CHR ''<'' \<notin> set (escape_char c) \<and> CHR ''>'' \<notin> set (escape_char c)"
  by (simp add: escape_char_def)

lemma escapeHtml_no_markup: "CHR ''<'' \<notin> set (escapeHtml s) \<and> CHR ''>'' \<notin> set (escapeHtml s)"
  by (induction s) (simp_all add: escape_char_no_markup)

lemma escapeHtml_plain:
  "set s \<inter> {CHR ''&'', CHR ''<'', CHR ''>'', CHR 0xA0} = {} \<Longrightarrow> escapeHtml s = s"
  by (induction s) (auto simp: escape_char_def)

lemma length_escapeHtml: "length s \<le> length (escapeHtml s)"
  by (induction s) (simp_all add: escape_char_def)

section \<open>Lemmas: the list\<close>

lemma card_of_simps [simp]:
  "card_id (card_of d) = toHexString (doc_id d)" "card_title (card_of d) = escapeHtml (title d)"
  "card_body (card_of d) = escapeHtml (body d)" "card_created (card_of d) = createdAt d"
  by (simp_all add: card_of_def)

lemma sort_desc_Nil_iff [simp]: "sort_desc f xs = [] \<longleftrightarrow> xs = []"
  using length_sort_desc [of f xs] by (metis length_0_conv)

lemma loadBlogs_unreachable:
  "loadBlogs Unreachable (p, s) = (load_failed (p\<lparr>container := Loading\<rparr>), s)"
  by (simp add: loadBlogs_def)

lemma loadBlogs_ok:
  "fault e = None \<Longrightarrow>
   loadBlogs (Delivered e) (p, s) =
     (p\<lparr>container := (if posts s = [] then Empty_state
                        else Cards (map card_of (sort_desc createdAt (posts s))))\<rparr>, s)"
  by (simp add: loadBlogs_def get_blogs_ok ok_list_def displayBlogs_def)

lemma loadBlogs_fault:
  "fault e = Some m \<Longrightarrow> loadBlogs (Delivered e) (p, s) = (p\<lparr>container := Empty_state\<rparr>, s)"
  by (simp add: loadBlogs_def get_blogs_fault)

lemma loadBlogs_cases [case_names unreachable fault ok]:
  obtains (unreachable) "n = Unreachable"
  | (fault) e m where "n = Delivered e" and "fault e = Some m"
  | (ok) e where "n = Delivered e" and "fault e = None"
proof (cases n)
  case (Delivered e)
  then show thesis
    by (cases "fault e") (auto intro: fault ok)
qed (rule unreachable)

lemmas loadBlogs_results = loadBlogs_unreachable loadBlogs_ok loadBlogs_fault

lemma loadBlogs_store [simp]: "snd (loadBlogs n w) = snd w"
  by (cases n rule: loadBlogs_cases; cases w) (simp_all add: loadBlogs_results)

lemma loadBlogs_frame [simp]:
  "blog_id (fst (loadBlogs n w)) = blog_id (fst w)"
  "title_in (fst (loadBlogs n w)) = title_in (fst w)"
  "author_in (fst (loadBlogs n w)) = author_in (fst w)"
  "body_in (fst (loadBlogs n w)) = body_in (fst w)"
  "form_title (fst (loadBlogs n w)) = form_title (fst w)"
  "submit_label (fst (loadBlogs n w)) = submit_label (fst w)"
  "submit_disabled (fst (loadBlogs n w)) = submit_disabled (fst w)"
  "cancel_shown (fst (loadBlogs n w)) = cancel_shown (fst w)"
  by (cases n rule: loadBlogs_cases; cases w;
      simp add: loadBlogs_results load_failed_def showToast_def log_error_def)+

lemma loadBlogs_card_ids: "i \<in> card_ids (fst (loadBlogs n w)) \<Longrightarrow> isValid i"
  by (cases n rule: loadBlogs_cases; cases w)
    (auto simp: loadBlogs_results load_failed_def split: if_splits)

text \<open>The \<^verbatim>\<open>finally\<close> block of the submit handler and the answer to the list request
  touch different parts of the page, so the order in which they run does not matter.\<close>

lemma loadBlogs_finally:
  "submit_finally b (fst (loadBlogs n (p, s))) = fst (loadBlogs n (submit_finally b p, s))"
  by (cases n rule: loadBlogs_cases)
    (simp_all add: loadBlogs_results load_failed_def showToast_def log_error_def
      submit_finally_def)

section \<open>Lemmas: what the form sends\<close>

lemma blogData_simps [simp]:
  "\<not> nullish (blogData t b a)" "get_prop (blogData t b a) ''title'' = JStr t"
  "get_prop (blogData t b a) ''body'' = JStr b" "get_prop (blogData t b a) ''author'' = JStr a"
  by (simp_all add: blogData_def)

lemma trim_not_blank: "trim t \<noteq> [] \<Longrightarrow> \<not> blank (trim t)"
  using trim_Nil_iff [of "trim t"] by simp

lemma trim_str_or_Anonymous: "trim (str_or (trim a) ''Anonymous'') = str_or (trim a) ''Anonymous''"
  by (simp add: str_or_def trim_Anonymous)

lemma client_fields:
  assumes "trim t \<noteq> []" and "trim b \<noteq> []"
  shows "validated (post_fields (blogData (trim t) (trim b) (str_or (trim a) ''Anonymous''))) =
      Inr (trim t, trim b, Some (str_or (trim a) ''Anonymous''))"
    and "validated_update (put_fields (blogData (trim t) (trim b) (str_or (trim a) ''Anonymous''))) =
      Inr (trim t, trim b, Some (str_or (trim a) ''Anonymous''))"
  using assms
  by (simp_all add: post_fields_def put_fields_def js_or_strings validated_strs
      validated_update_strs trim_not_blank trim_str_or_Anonymous)

lemma submit_request_POST:
  "blog_id p = [] \<Longrightarrow>
   submit_request p =
     POST_blogs (blogData (trim (title_in p)) (trim (body_in p))
       (str_or (trim (author_in p)) ''Anonymous''))"
  by (simp add: submit_request_def)

lemma submit_request_PUT:
  "blog_id p \<noteq> [] \<Longrightarrow>
   submit_request p =
     PUT_blog (blog_id p) (blogData (trim (title_in p)) (trim (body_in p))
       (str_or (trim (author_in p)) ''Anonymous''))"
  by (simp add: submit_request_def)

lemma submit_request_reaches_store:
  assumes "trim (title_in p) \<noteq> []" and "trim (body_in p) \<noteq> []"
    and "blog_id p = [] \<or> isValid (blog_id p)"
  shows "reaches_store (submit_request p)"
proof (cases "blog_id p = []")
  case True
  with assms(1,2) show ?thesis
    by (simp add: submit_request_POST reaches_store_def client_fields)
next
  case False
  with assms show ?thesis
    by (simp add: submit_request_PUT reaches_store_def client_fields)
qed

lemma sending_simps [simp]:
  "blog_id (sending p) = blog_id p" "container (sending p) = container p"
  "card_ids (sending p) = card_ids p" "console_errors (sending p) = console_errors p"
  by (simp_all add: sending_def card_ids_def)

lemma submit_blocked:
  "trim (title_in p) = [] \<Longrightarrow>
   submit n1 n2 (p, s) = (showToast ''Title is required!'' ''error'' p, s)"
  "trim (title_in p) \<noteq> [] \<Longrightarrow> trim (body_in p) = [] \<Longrightarrow>
   submit n1 n2 (p, s) = (showToast ''Body is required!'' ''error'' p, s)"
  by (simp_all add: submit_def)

lemma submit_unreachable:
  "trim (title_in p) \<noteq> [] \<Longrightarrow> trim (body_in p) \<noteq> [] \<Longrightarrow>
   submit Unreachable n2 (p, s) =
     (submit_finally (blog_id p)
        (showToast ''Error saving blog post'' ''error'' (log_error ''Error:'' (sending p))), s)"
  by (simp add: submit_def)

lemma submit_success:
  assumes "trim (title_in p) \<noteq> []" and "trim (body_in p) \<noteq> []"
    and "handle e (submit_request p) s = (r, s1)" and "success r"
  shows "submit (Delivered e) n2 (p, s) =
     (submit_finally (blog_id p)
        (fst (loadBlogs n2 (resetForm (showToast (message r) ''success'' (sending p)), s1))), s1)"
  using assms by (simp add: submit_def)

lemma submit_failure:
  assumes "trim (title_in p) \<noteq> []" and "trim (body_in p) \<noteq> []"
    and "handle e (submit_request p) s = (r, s1)" and "\<not> success r"
  shows "submit (Delivered e) n2 (p, s) =
     (submit_finally (blog_id p)
        (showToast (str_or (message r) ''Operation failed'') ''error'' (sending p)), s1)"
  using assms by (simp add: submit_def)

lemma submit_cases [consumes 0, case_names no_title no_body unreachable success failure]:
  obtains (no_title) "trim (title_in p) = []"
  | (no_body) "trim (title_in p) \<noteq> []" and "trim (body_in p) = []"
  | (unreachable) "trim (title_in p) \<noteq> []" and "trim (body_in p) \<noteq> []" and "n1 = Unreachable"
  | (success) e r s1 where "trim (title_in p) \<noteq> []" and "trim (body_in p) \<noteq> []"
      and "n1 = Delivered e" and "handle e (submit_request p) s = (r, s1)" and "success r"
  | (failure) e r s1 where "trim (title_in p) \<noteq> []" and "trim (body_in p) \<noteq> []"
      and "n1 = Delivered e" and "handle e (submit_request p) s = (r, s1)" and "\<not> success r"
proof (cases n1)
  case Unreachable
  then show thesis
    using no_title no_body unreachable by blast
next
  case (Delivered e)
  obtain r s1 where "handle e (submit_request p) s = (r, s1)"
    by force
  with Delivered show thesis
    using no_title no_body success failure by blast
qed

section \<open>Lemmas: editing and deleting\<close>

lemma get_blog_data:
  assumes "success (fst (get_blog e i s))"
  obtains d where "fst (get_blog e i s) = ok 200 ''Blog retrieved successfully'' (Doc d)"
proof -
  obtain r s' where eq: "get_blog e i s = (r, s')"
    by force
  from eq assms that show thesis
    by (cases rule: get_blog_cases) (auto simp: eq)
qed

lemma editBlog_store [simp]: "snd (editBlog n i w) = snd w"
  by (cases n; cases w)
    (simp_all add: editBlog_def split_beta split: option.splits payload.splits)

lemma editBlog_unreachable: "editBlog Unreachable i (p, s) = (edit_failed p, s)"
  by (simp add: editBlog_def)

lemma editBlog_found:
  assumes "oid_of_string i = Some w" and "fault e = None"
    and "lookup_by doc_id w (posts s) = Some d"
  shows "editBlog (Delivered e) i (p, s) =
     (fill_form (toHexString w) (title d) (case author d of None \<Rightarrow> [] | Some a \<Rightarrow> a) (body d) p,
      s)"
  using lookup_ids_Some [OF assms(3)] by (simp add: editBlog_def get_blog_found [OF assms])

lemma editBlog_refused:
  "\<not> success (fst (get_blog e i s)) \<Longrightarrow>
   editBlog (Delivered e) i (p, s) = (showToast ''Error loading blog for editing'' ''error'' p, s)"
  by (simp add: editBlog_def split_beta)

lemma editBlog_blog_id:
  "blog_id (fst (editBlog n i (p, s))) = blog_id p \<or> isValid (blog_id (fst (editBlog n i (p, s))))"
proof (cases n)
  case Unreachable
  then show ?thesis
    by (simp add: editBlog_unreachable edit_failed_def)
next
  case (Delivered e)
  show ?thesis
  proof (cases "success (fst (get_blog e i s))")
    case True
    then obtain d where "fst (get_blog e i s) = ok 200 ''Blog retrieved successfully'' (Doc d)"
      by (rule get_blog_data)
    with Delivered show ?thesis
      by (simp add: editBlog_def split_beta fill_form_def)
  next
    case False
    with Delivered show ?thesis
      by (simp add: editBlog_refused)
  qed
qed

lemma editBlog_frame [simp]:
  "container (fst (editBlog n i w)) = container (fst w)"
  "submit_disabled (fst (editBlog n i w)) = submit_disabled (fst w)"
  by (cases n; cases w;
      simp add: editBlog_def edit_failed_def fill_form_def split_beta
        split: option.splits payload.splits)+

lemma deleteBlog_declined [simp]: "deleteBlog False n1 n2 i w = w"
  by (cases w) (simp add: deleteBlog_def)

lemma deleteBlog_unreachable:
  "deleteBlog True Unreachable n2 i (p, s) =
     (showToast ''Error deleting blog post'' ''error'' (log_error ''Error:'' p), s)"
  by (simp add: deleteBlog_def)

lemma deleteBlog_success:
  "delete_blog e i s = (r, s1) \<Longrightarrow> success r \<Longrightarrow>
   deleteBlog True (Delivered e) n2 i (p, s) = loadBlogs n2 (showToast (message r) ''success'' p, s1)"
  by (simp add: deleteBlog_def)

lemma deleteBlog_failure:
  "delete_blog e i s = (r, s1) \<Longrightarrow> \<not> success r \<Longrightarrow>
   deleteBlog True (Delivered e) n2 i (p, s) =
     (showToast (str_or (message r) ''Delete failed'') ''error'' p, s1)"
  by (simp add: deleteBlog_def)

lemma deleteBlog_store:
  "snd (deleteBlog c n1 n2 i (p, s)) =
     (if c then (case n1 of Unreachable \<Rightarrow> s | Delivered e \<Rightarrow> snd (delete_blog e i s)) else s)"
  by (cases n1) (simp_all add: deleteBlog_def split_beta)

section \<open>Lemmas: a submit that the server accepts\<close>

lemma oid_of_string_nonempty: "oid_of_string i = Some w \<Longrightarrow> i \<noteq> []"
  by (auto simp: oid_of_string_def split: if_splits)

lemma submit_created:
  assumes "store_inv s" and "next_oid s < 2 ^ 96" and "blog_id p = []"
    and "trim (title_in p) \<noteq> []" and "trim (body_in p) \<noteq> []" and "fault e = None"
    and "g = (trim (title_in p), trim (body_in p), Some (str_or (trim (author_in p)) ''Anonymous''))"
    and "s1 = \<lparr>posts = posts s @ [new_doc (now e) (fresh_oid s) g], next_oid = Suc (next_oid s)\<rparr>"
  shows "submit (Delivered e) n2 (p, s) =
     (submit_finally []
        (fst (loadBlogs n2
           (resetForm (showToast ''Blog post created successfully'' ''success'' (sending p)), s1))),
      s1)"
proof -
  let ?bd = "blogData (trim (title_in p)) (trim (body_in p)) (str_or (trim (author_in p)) ''Anonymous'')"
  from assms(4,5,7) have "validated (post_fields ?bd) = Inr g"
    by (simp add: client_fields)
  with assms(1,2,4,5,6) have "post_blogs e ?bd s =
      (ok 201 ''Blog post created successfully'' (Doc (new_doc (now e) (fresh_oid s) g)), s1)"
    unfolding assms(8) by (intro post_blogs_created) simp_all
  with assms(3) have "handle e (submit_request p) s =
      (ok 201 ''Blog post created successfully'' (Doc (new_doc (now e) (fresh_oid s) g)), s1)"
    by (simp add: submit_request_POST)
  from submit_success [OF assms(4,5) this] assms(3) show ?thesis
    by simp
qed

lemma submit_updated:
  assumes "oid_of_string (blog_id p) = Some w" and "lookup_by doc_id w (posts s) = Some d"
    and "trim (title_in p) \<noteq> []" and "trim (body_in p) \<noteq> []" and "fault e = None"
    and "g = (trim (title_in p), trim (body_in p), Some (str_or (trim (author_in p)) ''Anonymous''))"
    and "s1 = s\<lparr>posts := replace_by doc_id w (apply_update (now e) g d) (posts s)\<rparr>"
  shows "submit (Delivered e) n2 (p, s) =
     (submit_finally (blog_id p)
        (fst (loadBlogs n2
           (resetForm (showToast ''Blog post updated successfully'' ''success'' (sending p)), s1))),
      s1)"
proof -
  let ?bd = "blogData (trim (title_in p)) (trim (body_in p)) (str_or (trim (author_in p)) ''Anonymous'')"
  from assms(3,4,6) have "validated_update (put_fields ?bd) = Inr g"
    by (simp add: client_fields)
  with assms(1-5) have "put_blog e (blog_id p) ?bd s =
      (ok 200 ''Blog post updated successfully'' (Doc (apply_update (now e) g d)), s1)"
    unfolding assms(7) by (intro put_blog_updated) simp_all
  moreover from assms(1) have "blog_id p \<noteq> []"
    by (rule oid_of_string_nonempty)
  ultimately have "handle e (submit_request p) s =
      (ok 200 ''Blog post updated successfully'' (Doc (apply_update (now e) g d)), s1)"
    by (simp add: submit_request_PUT)
  from submit_success [OF assms(3,4) this] show ?thesis
    by simp
qed

section \<open>Lemmas: the invariant of page and store\<close>

lemma world_inv_pair:
  "world_inv (p, s) \<longleftrightarrow>
     store_inv s \<and> (blog_id p = [] \<or> isValid (blog_id p)) \<and> (\<forall>i\<in>card_ids p. isValid i) \<and>
     \<not> submit_disabled p"
  by (simp add: world_inv_def)

lemma world_inv_initial: "store_inv s \<Longrightarrow> world_inv (initial_page, s)"
  by (simp add: world_inv_pair initial_page_def card_ids_def)

lemma card_ids_container: "container p = container q \<Longrightarrow> card_ids p = card_ids q"
  by (simp add: card_ids_def)

lemma loadBlogs_inv: "world_inv w \<Longrightarrow> world_inv (loadBlogs n w)"
  by (auto simp: world_inv_def dest: loadBlogs_card_ids)

lemma submit_inv:
  assumes "world_inv (p, s)"
  shows "world_inv (submit n1 n2 (p, s))"
proof (cases rule: submit_cases [where p = p and ?n1.0 = n1 and s = s])
  case (success e r s1)
  from assms have "store_inv (snd (handle e (submit_request p) s))"
    by (intro handle_inv) (simp add: world_inv_pair)
  with success(4) have "store_inv s1"
    by simp
  then show ?thesis
    by (auto simp: submit_success [OF success(1,2,4,5)] success(3) world_inv_pair
        dest: loadBlogs_card_ids)
next
  case (failure e r s1)
  from assms have "store_inv (snd (handle e (submit_request p) s))"
    by (intro handle_inv) (simp add: world_inv_pair)
  with failure(4) have "store_inv s1"
    by simp
  with assms show ?thesis
    by (simp add: submit_failure [OF failure(1,2,4,5)] failure(3) world_inv_pair)
qed (use assms in \<open>simp_all add: submit_blocked submit_unreachable world_inv_pair\<close>)

lemma editBlog_inv:
  assumes "world_inv (p, s)"
  shows "world_inv (editBlog n i (p, s))"
proof -
  have "card_ids (fst (editBlog n i (p, s))) = card_ids p"
    by (rule card_ids_container) simp
  with assms editBlog_blog_id [of n i p s] show ?thesis
    by (auto simp: world_inv_def)
qed

lemma deleteBlog_inv:
  assumes "world_inv (p, s)"
  shows "world_inv (deleteBlog c n1 n2 i (p, s))"
proof (cases "c \<and> n1 \<noteq> Unreachable")
  case True
  then obtain e where n1: "n1 = Delivered e" and c: c
    by (cases n1) auto
  obtain r s1 where eq: "delete_blog e i s = (r, s1)"
    by force
  from assms have "store_inv (snd (delete_blog e i s))"
    by (intro delete_blog_inv) (simp add: world_inv_pair)
  with eq assms have "world_inv (showToast m ty p, s1)" for m ty
    by (simp add: world_inv_pair)
  with eq n1 c show ?thesis
    by (cases "success r") (simp_all add: deleteBlog_success deleteBlog_failure loadBlogs_inv)
next
  case False
  with assms show ?thesis
    by (cases c; cases n1) (simp_all add: deleteBlog_unreachable world_inv_pair)
qed

lemma act_inv:
  assumes "world_inv w"
  shows "world_inv (act n1 n2 a w)"
proof (cases a)
  case Submit
  with assms submit_inv [of "fst w" "snd w" n1 n2] show ?thesis
    by simp
next
  case (Click_edit i)
  with assms editBlog_inv [of "fst w" "snd w" n1 i] show ?thesis
    by simp
next
  case (Click_delete i c)
  with assms deleteBlog_inv [of "fst w" "snd w" c n1 n2 i] show ?thesis
    by simp
next
  case Open_page
  with assms show ?thesis
    by (simp add: loadBlogs_inv)
next
  case Click_refresh
  with assms show ?thesis
    by (simp add: loadBlogs_inv)
qed (use assms in \<open>auto simp: world_inv_def card_ids_def resetForm_def hide_toast_def\<close>)

section \<open>Properties of the client\<close>

text \<open>
  C36. What a card shows of a record cannot act as markup. Escaped text contains neither
  \<^verbatim>\<open><\<close> nor \<^verbatim>\<open>>\<close> and reads back as the text it was made from, so title, author and body
  are displayed as they are stored; the identifier that a card puts into the handlers of
  its buttons is a well-formed identifier.
\<close>

theorem card_text_is_inert:
  "unescape (escapeHtml s) = s \<and> CHR ''<'' \<notin> set (escapeHtml s) \<and>
   CHR ''>'' \<notin> set (escapeHtml s) \<and> isValid (card_id (card_of d)) \<and>
   unescape (card_title (card_of d)) = title d \<and> unescape (card_body (card_of d)) = body d"
  by (simp add: escapeHtml_no_markup)

end
