(* ===== verification/Spec2Isabelle.thy ===== *)
theory Spec2Isabelle
  imports Blog_Client
begin

text \<open>
  \<^bold>\<open>A verification of the blogging platform.\<close>

  The program is a small web service with one resource. \<^verbatim>\<open>src/index.js\<close> starts an
  Express application, connects to a MongoDB database through Mongoose, and serves five
  JSON endpoints (create, list, get, update and delete a blog post) that validate their
  input, make one call on the \<^verbatim>\<open>Blog\<close> model and map the outcome to a status code and
  a uniform envelope. \<^verbatim>\<open>src/models/Blog.js\<close> declares the schema of a post.
  \<^verbatim>\<open>src/public/script.js\<close> is the browser client that calls the endpoints.

  \<^bold>\<open>The theories, in import order.\<close>

  \<^descr> \<open>Blog_Prelude\<close>: strings (\<open>trim\<close>, \<open>blank\<close>), lists of records addressed by a key
    (\<open>lookup_by\<close>, \<open>replace_by\<close>, \<open>delete_by\<close>, their reading as a finite map
    \<open>keyed_map\<close>), sorting by a descending key (\<open>sort_desc\<close>). The three operations
    on keyed lists stand for what the database engine does with a collection; they have
    no code in the repository. Its lemmas are the algebra of these operations that the
    components share.
  \<^descr> \<open>Js_Value\<close>: the values of \<^verbatim>\<open>req.body\<close> (\<open>jsval\<close>) and the three pieces of JavaScript
    the handlers run on them: truthiness (\<open>truthy\<close>, for \<^verbatim>\<open>!title\<close>), \<^verbatim>\<open>||\<close> (\<open>js_or\<close>)
    and destructuring (\<open>destructure\<close>, which throws on \<^verbatim>\<open>undefined\<close> and \<^verbatim>\<open>null\<close>).
  \<^descr> \<open>Object_Id\<close>: identifiers as \<open>96 word\<close>, the guard
    \<^verbatim>\<open>mongoose.Types.ObjectId.isValid\<close> of \<^verbatim>\<open>src/index.js\<close> (\<open>isValid\<close>), printing
    (\<open>toHexString\<close>) and the store's cast (\<open>oid_of_string\<close>). Lemmas: the round
    trips, the agreement of guard and cast, insensitivity to the case of digits.
  \<^descr> \<open>Blog_Schema\<close>: \<^verbatim>\<open>src/models/Blog.js\<close>. The three paths and the schema options as
    records; casting, the trim setter, the default and the \<^verbatim>\<open>required\<close> validator as
    functions; \<open>validated\<close> for a new document and \<open>validated_update\<close> for an update
    under \<^verbatim>\<open>runValidators\<close>. Lemmas: what each path accepts and stores, and that
    accepted fields are well formed (\<open>valid_fields\<close>).
  \<^descr> \<open>Blog_Store\<close>: the calls of \<^verbatim>\<open>src/index.js\<close> on the model, over a \<open>store\<close> (the
    collection as a list in insertion order, and the identifier counter):
    \<open>new_Blog\<close> and \<open>save\<close> (lines 45-51), \<open>find_sorted\<close> (line 71), \<open>findById\<close>
    (line 103), \<open>findByIdAndUpdate\<close> (lines 160-164), \<open>findByIdAndDelete\<close> (line 203).
    The world's part in a call is an \<open>env\<close>: the clock reading and, if the call is to
    fail, the message of the failure. Lemmas: the result of each call on each branch,
    the invariant \<open>store_inv\<close> and its preservation, the ordering of timestamps
    (\<open>stamped_by\<close>), and the refinement of the adapter's contract (\<open>create_spec\<close>,
    \<open>updateById_spec\<close>, \<open>deleteById_spec\<close>, \<open>listAll_spec\<close> on finite maps) along the
    abstraction \<open>abs_store\<close>.
  \<^descr> \<open>Blog_Handlers\<close>: the five handlers of \<^verbatim>\<open>src/index.js\<close>, at lines 24-66 (create),
    69-87 (list), 90-126 (get), 129-187 (update) and 190-226 (delete), each in three
    layers. The \<^verbatim>\<open>try\<close> block (\<open>post_blogs_try\<close>, \<open>get_blogs_try\<close>, \<open>get_blog_try\<close>,
    \<open>put_blog_try\<close>, \<open>delete_blog_try\<close>) has the checks in source order and either sends
    a response or throws (\<open>thrown\<close>). The handler with its \<^verbatim>\<open>catch\<close> block
    (\<open>post_blogs_io\<close> and so on, through \<open>try_catch\<close>) adds the call of
    \<^verbatim>\<open>console.error\<close> with the label of the route and the 500 response. \<open>post_blogs\<close>,
    \<open>get_blogs\<close>, \<open>get_blog\<close>, \<open>put_blog\<close> and \<open>delete_blog\<close> are the response and the
    store of that, which is what a client observes. The envelope is the record
    \<open>response\<close>; \<open>handle\<close>, \<open>handle_try\<close> and \<open>handle_io\<close> dispatch on a \<open>request\<close>.
    Lemmas: a case rule per handler that lists its paths, the response on each path,
    well-formedness of every response (\<open>wf_response\<close>), preservation of the invariant,
    that failures leave the collection alone, the count of documents, that no
    \<^verbatim>\<open>try\<close> block sends a 500, and the behaviour of one request after another.
  \<^descr> \<open>Blog_Server\<close>: the process, \<^verbatim>\<open>src/index.js\<close> lines 7, 15-20 and 234-236:
    connecting, connected or exited, listening or not, the collection, the clock and the
    console. The inductive relation \<open>step\<close> gives its transitions (\<open>next_state\<close> is the
    same as a function, for evaluation), \<open>reachable\<close> and \<open>run\<close> its executions, \<open>exec\<close>
    the handlers applied to a sequence of requests. \<open>accepts\<close> says when a request is
    answered: by a connected server always, by a server whose connection is pending only
    when the handler does not wait for the store.
  \<^descr> \<open>Blog_Client\<close>: \<^verbatim>\<open>src/public/script.js\<close>. The page as a record of the elements
    the script touches, and one definition per function: \<open>showToast\<close>, \<open>loadBlogs\<close>,
    \<open>displayBlogs\<close>, \<open>escapeHtml\<close>, the submit handler \<open>submit\<close>, \<open>editBlog\<close>,
    \<open>deleteBlog\<close>, \<open>resetForm\<close>; \<open>act\<close> dispatches a user action. A call of the
    server is \<open>fetch\<close>: the handler applied to the store, or a network failure.
    Lemmas: the result of each function on each path, what the form sends, that escaping
    can be read back, and the invariant \<open>world_inv\<close> of page and store.
  \<^descr> \<open>Spec2Isabelle\<close> (this theory): the properties that span the components, each
    stated for the handlers as the code composes them with the schema and the store, and
    for the client as it talks to the handlers.

  \<^bold>\<open>How the model corresponds to the code.\<close> A handler is an \<^verbatim>\<open>async\<close> function with
  a single \<^verbatim>\<open>await\<close>; everything before and after it is synchronous, so a handler is
  one atomic transition of the collection and requests interleave only as whole
  handlers. A handler is therefore a function
  \<open>env \<Rightarrow> \<dots> \<Rightarrow> store \<Rightarrow> response \<times> store\<close>. A rejected promise and a thrown exception
  are \<open>Inl\<close> values (\<open>persist_error\<close>, \<open>js_error\<close>, together \<open>thrown\<close>); the \<^verbatim>\<open>catch\<close>
  block is \<open>try_catch\<close>, which turns them into a line on the console and the 500
  response with \<^verbatim>\<open>err.message\<close>, so that only a handler whose \<^verbatim>\<open>catch\<close> block ran
  has logged, and a \<^verbatim>\<open>catch\<close> block that did not log would be a different
  definition. The behaviour of
  Mongoose that the source relies on without spelling it out (casting, trimming,
  defaults, validators, timestamps, the identifier cast) is modelled where the source
  names it: at the option in the schema or at the call in the handler.

  \<^bold>\<open>What is proved.\<close>

  \<^item> The status-mapping policy: a malformed identifier is answered 400 before the store
    is asked (\<open>malformed_id_is_400\<close>), an absent one 404 (\<open>absent_id_is_404\<close>), a
    missing field 400 (\<open>create_requires_title_and_body\<close>), a store failure 500 with the
    message passed through (\<open>store_failure_is_500\<close>); every response is a well-formed
    envelope (\<open>every_response_well_formed\<close>); an answer given before the store call
    does not depend on the store (\<open>early_answer_ignores_store\<close>).
  \<^item> The life of a record: \<open>create_returns_stored_record\<close>, \<open>read_your_write\<close>,
    \<open>update_then_get\<close>, \<open>delete_then_get\<close>, \<open>list_count_and_order\<close>.
  \<^item> Invariants: every request keeps \<open>store_inv\<close> (\<open>handle_keeps_invariant\<close>), a failed
    request keeps the collection (\<open>failed_request_keeps_collection\<close>), every reachable
    state of the server satisfies \<open>server_inv\<close>.
  \<^item> The process: a failed connection is fatal; while the connection is pending a
    request is only refused and the collection keeps its records; a response with
    status 500, and no other, comes with one line on the error console that carries the
    label of the route and the error reported; the number of records after a sequence
    of requests.
  \<^item> Where handlers and schema disagree: \<open>blank_title_is_500\<close>,
    \<open>author_default_on_create_only\<close>, \<open>missing_body_is_500\<close>.
  \<^item> Identifiers: the round trips and \<open>identifier_case_is_ignored\<close>; below \<open>2 ^ 96\<close>
    identifiers none is reused.
  \<^item> Refinement: the store implements the adapter's contract on finite maps.
  \<^item> The client with the server: creating through the form stores the trimmed fields
    and shows the new list (\<open>client_create_end_to_end\<close>); a blank title or body sends
    nothing (\<open>client_blocks_blank_fields\<close>); every user action keeps \<open>world_inv\<close>
    (\<open>client_keeps_invariant\<close>); two defects of the script, the stale label after an
    update (\<open>update_leaves_stale_label\<close>) and a failed list shown as an empty one
    (\<open>list_failure_shown_as_empty\<close>).

  \<^bold>\<open>Bounds.\<close> Identifiers are 96-bit words and the counter that generates them is a
  natural number cast modulo \<open>2 ^ 96\<close>; uniqueness of stored identifiers holds without
  a bound because \<open>save\<close> rejects a duplicate key, and freshness of the next identifier is
  proved below \<open>2 ^ 96\<close> generated identifiers. Time is a natural number supplied with
  each request; the server's step relation takes a request only when its time is not
  before the clock. While the connection is pending the driver holds a store call back;
  the model lets such a request be answered only through a fault of the environment
  (the driver giving up), and lets requests that make no store call be answered at once. Characters are the 256 of \<open>char\<close>; JSON numbers are integers. No
  definition uses fuel: every function is total, by structural recursion or, for
  \<open>unescape\<close>, by a termination proof on the length of its input.

  \<^bold>\<open>What is not modelled.\<close> The database engine and the network (they appear as the
  \<open>fault\<close> of an \<open>env\<close>); Express itself: the parsing of a request into a method, a path
  and a JSON body, route matching, static files and \<^verbatim>\<open>GET /\<close>; the text of an
  exception's message beyond its being passed through; the field \<^verbatim>\<open>__v\<close> that Mongoose
  adds to a document. Two points depend on the version of the libraries, which the
  repository does not pin: \<open>isValid\<close> accepts exactly 24 hexadecimal digits (older
  drivers also accept any string of 12 characters), and an update whose \<^verbatim>\<open>author\<close> is
  \<^verbatim>\<open>undefined\<close> clears the author (newer versions of Mongoose leave it); no property
  states the second. Of the client: the markup and style of the page (they are not
  part of the sources), the formatting of dates, scrolling, and the interleaving of a
  function with other user actions while a request of it is in flight; a response that
  is lost after the server has handled the request is not distinguished from a request
  that never arrived.
\<close>

section \<open>Sample requests\<close>

definition post_body :: "string \<Rightarrow> string \<Rightarrow> jsval" where
  "post_body t b = JObj [(''title'', JStr t), (''body'', JStr b)]"

definition full_body :: "string \<Rightarrow> string \<Rightarrow> string \<Rightarrow> jsval" where
  "full_body t b a = JObj [(''title'', JStr t), (''body'', JStr b), (''author'', JStr a)]"

lemmas sample_defs =
  quiet_def failing_def post_body_def full_body_def sample_doc_def sample_store_def
  post_fields_def put_fields_def empty_store_def js_or_def trim_def is_space_def

section \<open>The status-mapping policy\<close>

text \<open>
  C1. An identifier that is not well formed is answered with 400 and the category
  \<^verbatim>\<open>Invalid ID\<close> by the get, update and delete handlers, whatever the store holds and
  whether or not the store would fail; the store is not touched. It is never answered
  with 404. For the update handler this holds of requests that have a body
  (\<^verbatim>\<open>req.body\<close> is not \<^verbatim>\<open>undefined\<close> or \<^verbatim>\<open>null\<close>), because it reads the body first.
\<close>

theorem malformed_id_is_400:
  assumes "\<not> isValid i"
  shows "get_blog e i s = (invalid_id, s) \<and> delete_blog e i s = (invalid_id, s) \<and>
    (\<not> nullish b \<longrightarrow> put_blog e i b s = (invalid_id, s)) \<and>
    status invalid_id = 400 \<and> error invalid_id = Some ''Invalid ID''"
  using assms by (simp add: get_blog_invalid delete_blog_invalid put_blog_invalid)

theorem malformed_id_is_400_witness:
  "get_blog (failing 0 ''down'') ''42'' empty_store = (invalid_id, empty_store) \<and>
   delete_blog (failing 0 ''down'') ''42'' empty_store = (invalid_id, empty_store) \<and>
   put_blog (failing 0 ''down'') ''42'' (post_body ''T'' ''B'') empty_store =
     (invalid_id, empty_store)"
  using malformed_id_is_400 [of "''42''" "failing 0 ''down''" empty_store "post_body ''T'' ''B''"]
  by (simp add: isValid_def post_body_def)

text \<open>
  C2. A well-formed identifier that names no record is answered with 404 and the
  category \<^verbatim>\<open>Not found\<close> by the get and delete handlers, and by the update handler when
  the new fields are valid; the store is left as it was.
\<close>

theorem absent_id_is_404:
  assumes "oid_of_string i = Some w" and "w \<notin> ids s" and "fault e = None"
  shows "get_blog e i s = (not_found, s) \<and> delete_blog e i s = (not_found, s) \<and>
    (\<not> nullish b \<and> truthy (get_prop b ''title'') \<and> truthy (get_prop b ''body'') \<and>
     (\<exists>g. validated_update (put_fields b) = Inr g) \<longrightarrow> put_blog e i b s = (not_found, s)) \<and>
    status not_found = 404 \<and> error not_found = Some ''Not found''"
  using assms by (auto simp: get_blog_missing delete_blog_missing put_blog_missing)

theorem absent_id_is_404_witness:
  "get_blog (quiet 0) zero_id empty_store = (not_found, empty_store) \<and>
   delete_blog (quiet 0) zero_id empty_store = (not_found, empty_store) \<and>
   put_blog (quiet 0) zero_id (full_body ''T'' ''B'' ''A'') empty_store =
     (not_found, empty_store)"
proof -
  have "oid_of_string zero_id = Some 0"
    by (simp add: zero_id_def oid_of_string_def hex_val_def)
  from absent_id_is_404 [OF this, of empty_store "quiet 0" "full_body ''T'' ''B'' ''A''"]
  show ?thesis
    by (simp add: quiet_def full_body_def put_fields_def validated_update_strs is_space_def)
qed

section \<open>The invariant of the collection\<close>

text \<open>
  C3. Every request keeps the invariant of the collection: identifiers are unique, every
  stored title is non-empty and trimmed, every stored body is non-empty, a stored author
  is trimmed, and below \<open>2 ^ 96\<close> generated identifiers every stored identifier is below
  the counter.
\<close>

theorem handle_keeps_invariant:
  assumes "store_inv s"
  shows "store_inv (snd (handle e r s))"
  using assms by (rule handle_inv)

theorem handle_keeps_invariant_witness:
  "store_inv (snd (handle (quiet 5) (POST_blogs (post_body ''  T '' ''B'')) empty_store))"
  using handle_keeps_invariant [OF store_inv_empty] .

section \<open>Validation on creation\<close>

text \<open>
  C4. Creating with a body object (\<^verbatim>\<open>req.body\<close> is not \<^verbatim>\<open>undefined\<close> or \<^verbatim>\<open>null\<close>) whose
  \<^verbatim>\<open>title\<close> or \<^verbatim>\<open>body\<close> field is missing or falsy is answered with 400 and the
  category \<^verbatim>\<open>Validation failed\<close>, whatever the other fields are, and nothing is stored.
  The title is checked first.
\<close>

theorem create_requires_title_and_body:
  assumes "\<not> nullish b"
    and "\<not> truthy (get_prop b ''title'') \<or> \<not> truthy (get_prop b ''body'')"
  shows "post_blogs e b s =
      (if \<not> truthy (get_prop b ''title'') then title_required else body_required, s) \<and>
    status title_required = 400 \<and> status body_required = 400 \<and>
    error title_required = Some ''Validation failed'' \<and>
    error body_required = Some ''Validation failed''"
  using assms by (auto simp: post_blogs_no_title post_blogs_no_body)

theorem create_requires_title_and_body_witness:
  "post_blogs (quiet 0) (post_body ''T'' '''') empty_store = (body_required, empty_store)"
  using create_requires_title_and_body [of "post_body ''T'' ''''" "quiet 0" empty_store]
  by (simp add: post_body_def)

section \<open>Creating and reading back\<close>

text \<open>
  C5. A create request that passes the checks and the validation, on a store that
  answers, is answered with 201 and the stored record: a fresh identifier, the validated
  fields, and creation and update times both equal to the time of the request. The
  record is appended to the collection and nothing else changes.
\<close>

theorem create_returns_stored_record:
  assumes "store_inv s" and "next_oid s < 2 ^ 96" and "fault e = None"
    and "\<not> nullish b" and "truthy (get_prop b ''title'')" and "truthy (get_prop b ''body'')"
    and "validated (post_fields b) = Inr (t, bd, a)"
  shows "post_blogs e b s =
      (ok 201 ''Blog post created successfully''
         (Doc \<lparr>doc_id = fresh_oid s, title = t, body = bd, author = a, createdAt = now e,
               updatedAt = now e\<rparr>),
       \<lparr>posts = posts s @
          [\<lparr>doc_id = fresh_oid s, title = t, body = bd, author = a, createdAt = now e,
            updatedAt = now e\<rparr>],
        next_oid = Suc (next_oid s)\<rparr>) \<and>
    fresh_oid s \<notin> ids s"
  using post_blogs_created [OF assms] fresh_oid_fresh [OF assms(1,2)]
  by (simp add: new_doc_def)

theorem create_returns_stored_record_witness:
  "post_blogs (quiet 7) (post_body ''  Hello '' ''World'') empty_store =
     (ok 201 ''Blog post created successfully''
        (Doc \<lparr>doc_id = 0, title = ''Hello'', body = ''World'', author = Some ''Anonymous'',
              createdAt = 7, updatedAt = 7\<rparr>),
      \<lparr>posts = [\<lparr>doc_id = 0, title = ''Hello'', body = ''World'',
                 author = Some ''Anonymous'', createdAt = 7, updatedAt = 7\<rparr>],
       next_oid = 1\<rparr>)"
  using create_returns_stored_record [OF store_inv_empty, of "quiet 7"
      "post_body ''  Hello '' ''World''" "''Hello''" "''World''" "Some ''Anonymous''"]
  by (simp add: sample_defs validated_strs fresh_oid_def)

text \<open>
  C6. Reading a record back: after a successful create, a get request with the
  identifier of the new record is answered with 200 and exactly the record that was
  stored.
\<close>

theorem read_your_write:
  assumes "store_inv s" and "next_oid s < 2 ^ 96" and "fault e = None"
    and "\<not> nullish b" and "truthy (get_prop b ''title'')" and "truthy (get_prop b ''body'')"
    and "validated (post_fields b) = Inr g" and "fault e' = None"
  shows "\<exists>d. fst (post_blogs e b s) = ok 201 ''Blog post created successfully'' (Doc d) \<and>
    get_blog e' (toHexString (doc_id d)) (snd (post_blogs e b s)) =
      (ok 200 ''Blog retrieved successfully'' (Doc d), snd (post_blogs e b s))"
  using get_after_post [OF assms] post_blogs_created [OF assms(1-7)]
  by (intro exI [of _ "new_doc (now e) (fresh_oid s) g"]) simp

theorem read_your_write_witness:
  "\<exists>d. fst (post_blogs (quiet 7) (post_body ''T'' ''B'') empty_store) =
       ok 201 ''Blog post created successfully'' (Doc d) \<and>
     get_blog (quiet 9) (toHexString (doc_id d))
         (snd (post_blogs (quiet 7) (post_body ''T'' ''B'') empty_store)) =
       (ok 200 ''Blog retrieved successfully'' (Doc d),
        snd (post_blogs (quiet 7) (post_body ''T'' ''B'') empty_store))"
  using read_your_write [OF store_inv_empty, of "quiet 7" "post_body ''T'' ''B''"
      "(''T'', ''B'', Some ''Anonymous'')" "quiet 9"]
  by (simp add: sample_defs validated_strs)

section \<open>Updating and deleting\<close>

text \<open>
  C7. An update of an existing record with valid fields is answered with 200 and the
  record after the update: the three fields replaced, the update time set to the time of
  the request, identifier and creation time kept. A get request for the same identifier
  afterwards returns that record. The update time lies after the creation time when the
  clock has advanced since the creation.
\<close>

theorem update_then_get:
  assumes "\<not> nullish b" and "truthy (get_prop b ''title'')" and "truthy (get_prop b ''body'')"
    and "oid_of_string i = Some w" and "validated_update (put_fields b) = Inr (t, bd, a)"
    and "fault e = None" and "lookup_by doc_id w (posts s) = Some d" and "fault e' = None"
  shows "fst (put_blog e i b s) =
      ok 200 ''Blog post updated successfully''
        (Doc (d\<lparr>title := t, body := bd, author := a, updatedAt := now e\<rparr>)) \<and>
    get_blog e' i (snd (put_blog e i b s)) =
      (ok 200 ''Blog retrieved successfully''
         (Doc (d\<lparr>title := t, body := bd, author := a, updatedAt := now e\<rparr>)),
       snd (put_blog e i b s)) \<and>
    (createdAt d < now e \<longrightarrow>
       createdAt (d\<lparr>title := t, body := bd, author := a, updatedAt := now e\<rparr>) <
       updatedAt (d\<lparr>title := t, body := bd, author := a, updatedAt := now e\<rparr>))"
  using put_blog_updated [OF assms(1-7)] get_after_put [OF assms]
  by (simp add: apply_update_def)

theorem update_then_get_witness:
  "fst (put_blog (quiet 8) zero_id (full_body '' New '' ''Body'' ''Bob'') sample_store) =
     ok 200 ''Blog post updated successfully''
       (Doc \<lparr>doc_id = 0, title = ''New'', body = ''Body'', author = Some ''Bob'',
             createdAt = 3, updatedAt = 8\<rparr>) \<and>
   fst (get_blog (quiet 9) zero_id
          (snd (put_blog (quiet 8) zero_id (full_body '' New '' ''Body'' ''Bob'') sample_store))) =
     ok 200 ''Blog retrieved successfully''
       (Doc \<lparr>doc_id = 0, title = ''New'', body = ''Body'', author = Some ''Bob'',
             createdAt = 3, updatedAt = 8\<rparr>)"
  using update_then_get [OF _ _ _ oid_zero _ _ lookup_sample,
      of "full_body '' New '' ''Body'' ''Bob''" "''New''" "''Body''" "Some ''Bob''"
        "quiet 8" "quiet 9"]
  by (simp add: sample_defs validated_update_strs)

text \<open>
  C8. A delete of an existing record is answered with 200 and the record as it was
  before the deletion. Afterwards a get or a delete request for the same identifier is
  answered with 404, and every other record is still found as before.
\<close>

theorem delete_then_get:
  assumes "store_inv s" and "oid_of_string i = Some w" and "fault e = None"
    and "lookup_by doc_id w (posts s) = Some d" and "fault e' = None"
  shows "fst (delete_blog e i s) = ok 200 ''Blog post deleted successfully'' (Doc d) \<and>
    get_blog e' i (snd (delete_blog e i s)) = (not_found, snd (delete_blog e i s)) \<and>
    delete_blog e' i (snd (delete_blog e i s)) = (not_found, snd (delete_blog e i s)) \<and>
    (\<forall>w'. w' \<noteq> w \<longrightarrow>
       lookup_by doc_id w' (posts (snd (delete_blog e i s))) = lookup_by doc_id w' (posts s))"
proof -
  from assms(1) have "w \<notin> ids (s\<lparr>posts := delete_by doc_id w (posts s)\<rparr>)"
    by (simp add: store_inv_def ids_def keys_of_delete_by)
  with assms(2,5) have "delete_blog e' i (s\<lparr>posts := delete_by doc_id w (posts s)\<rparr>) =
      (not_found, s\<lparr>posts := delete_by doc_id w (posts s)\<rparr>)"
    by (simp add: delete_blog_missing)
  with get_after_delete [OF assms] assms(1) show ?thesis
    by (simp add: delete_blog_deleted [OF assms(2-4)] lookup_deleted)
qed

theorem delete_then_get_witness:
  "fst (delete_blog (quiet 8) zero_id sample_store) =
     ok 200 ''Blog post deleted successfully'' (Doc sample_doc) \<and>
   fst (get_blog (quiet 9) zero_id (snd (delete_blog (quiet 8) zero_id sample_store))) =
     not_found"
  using delete_then_get [OF store_inv_sample oid_zero _ lookup_sample, of "quiet 8" "quiet 9"]
  by (simp add: quiet_def)

section \<open>Listing\<close>

text \<open>
  C9. When the store answers, the list request is answered with 200, every record of the
  collection exactly once, newest creation time first, and a count equal to the number
  of records. The collection is not changed.
\<close>

theorem list_count_and_order:
  assumes "fault e = None"
  shows "\<exists>ds. get_blogs e s = (ok_list ds, s) \<and> status (ok_list ds) = 200 \<and>
    data (ok_list ds) = Some (Docs ds) \<and> count (ok_list ds) = Some (length (posts s)) \<and>
    mset ds = mset (posts s) \<and> descending createdAt ds"
  using assms
  by (intro exI [of _ "sort_desc createdAt (posts s)"])
    (simp add: get_blogs_ok descending_sort_desc)

theorem list_count_and_order_witness:
  "\<exists>ds. get_blogs (quiet 9) sample_store = (ok_list ds, sample_store) \<and>
     count (ok_list ds) = Some 1 \<and> mset ds = {#sample_doc#}"
  using list_count_and_order [of "quiet 9" sample_store]
  by (auto simp: sample_defs)

section \<open>The envelope and the failure paths\<close>

text \<open>
  C10. Every response of every handler is a well-formed envelope: a success carries
  status 200 or 201, data and no error category; a failure carries no data and no count
  and an error category that belongs to its status (400 with \<^verbatim>\<open>Validation failed\<close> or
  \<^verbatim>\<open>Invalid ID\<close>, 404 with \<^verbatim>\<open>Not found\<close>, 500 with \<^verbatim>\<open>Server error\<close>); a count, when
  present, is the length of the data.
\<close>

theorem every_response_well_formed:
  "wf_response (fst (handle e r s)) \<and> status (fst (handle e r s)) \<in> {200, 201, 400, 404, 500}"
proof -
  have wf: "wf_response (fst (handle e r s))"
    by (rule handle_wf)
  then have "status (fst (handle e r s)) \<in> {200, 201, 400, 404, 500}"
    by (auto simp: wf_response_def category_def split: if_splits option.splits)
  with wf show ?thesis ..
qed

text \<open>
  C11. A failure of the store is answered with 500, the category \<^verbatim>\<open>Server error\<close> and
  the message of the failure, by every request that gets as far as its store call, and
  the collection is left as it was.
\<close>

theorem store_failure_is_500:
  assumes "reaches_store r" and "fault e = Some m"
  shows "fst (handle e r s) = server_error m \<and> posts (snd (handle e r s)) = posts s \<and>
    status (server_error m) = 500 \<and> error (server_error m) = Some ''Server error'' \<and>
    message (server_error m) = m"
  using handle_fault [OF assms] by simp

theorem store_failure_is_500_witness:
  "fst (handle (failing 4 ''connection lost'') (DELETE_blog zero_id) sample_store) =
     server_error ''connection lost'' \<and>
   posts (snd (handle (failing 4 ''connection lost'') (DELETE_blog zero_id) sample_store)) =
     posts sample_store"
  using store_failure_is_500 [of "DELETE_blog zero_id" "failing 4 ''connection lost''"
      "''connection lost''" sample_store]
  by (simp add: reaches_store_def isValid_def zero_id_def failing_def is_hex_def hex_val_def)

text \<open>
  C12. A request that is answered with a failure leaves the collection as it was.
\<close>

theorem failed_request_keeps_collection:
  assumes "\<not> success (fst (handle e r s))"
  shows "posts (snd (handle e r s)) = posts s"
  using assms by (rule handle_failure)

theorem failed_request_keeps_collection_witness:
  "posts (snd (handle (quiet 4) (PUT_blog ''xyz'' (post_body ''T'' ''B'')) sample_store)) =
     posts sample_store"
  using failed_request_keeps_collection [of "quiet 4" "PUT_blog ''xyz'' (post_body ''T'' ''B'')"
      sample_store]
  by (simp add: put_blog_invalid isValid_def post_body_def)

text \<open>
  C13. A request that does not get as far as its store call is answered with a failure
  that depends on the request alone: the answer is the same whatever the collection
  holds, whatever the time is and whether or not the store would fail, and the
  collection is left as it was.
\<close>

theorem early_answer_ignores_store:
  assumes "\<not> reaches_store r"
  shows "fst (handle e r s) = fst (handle e' r s') \<and> posts (snd (handle e r s)) = posts s \<and>
    \<not> success (fst (handle e r s))"
  using handle_offline [OF assms, of e s e' s'] by blast

theorem early_answer_ignores_store_witness:
  "fst (handle (quiet 4) (POST_blogs (post_body [] ''B'')) sample_store) =
   fst (handle (failing 9 ''down'') (POST_blogs (post_body [] ''B'')) empty_store)"
  using early_answer_ignores_store [of "POST_blogs (post_body [] ''B'')" "quiet 4"
      sample_store "failing 9 ''down''" empty_store]
  by (simp add: reaches_store_def post_body_def)

section \<open>Where the handlers and the schema disagree\<close>

text \<open>
  C14. A title that consists of white space only passes the handler's check for a
  missing title, because a non-empty string is truthy, and is then rejected by the
  schema, whose setter trims it to the empty string. The request is answered with 500
  and the category \<^verbatim>\<open>Server error\<close>, not with 400, by the create handler and, for a
  well-formed identifier, by the update handler; nothing is stored.
\<close>

theorem blank_title_is_500:
  assumes "get_prop b ''title'' = JStr t" and "t \<noteq> []" and "blank t"
    and "truthy (get_prop b ''body'')"
  shows "status (fst (post_blogs e b s)) = 500 \<and>
    error (fst (post_blogs e b s)) = Some ''Server error'' \<and>
    posts (snd (post_blogs e b s)) = posts s \<and>
    (isValid i \<longrightarrow> status (fst (put_blog e i b s)) = 500 \<and> snd (put_blog e i b s) = s)"
  using post_blogs_blank_title [OF assms, of e s] put_blog_blank_title [OF assms, of i e s]
  by auto

theorem blank_title_is_500_witness:
  "status (fst (post_blogs (quiet 1) (post_body ''  '' ''B'') empty_store)) = 500 \<and>
   status (fst (put_blog (quiet 1) zero_id (post_body ''  '' ''B'') sample_store)) = 500"
  using blank_title_is_500 [of "post_body ''  '' ''B''" "''  ''" "quiet 1" empty_store zero_id]
    blank_title_is_500 [of "post_body ''  '' ''B''" "''  ''" "quiet 1" sample_store zero_id]
  by (simp add: post_body_def is_space_def isValid_def zero_id_def is_hex_def hex_val_def)

text \<open>
  C15. The create handler replaces a missing or empty author by \<^verbatim>\<open>Anonymous\<close>; the
  update handler does not. With the same title, body and empty author, the fields that
  a create stores have the author \<^verbatim>\<open>Anonymous\<close> and the fields that an update stores have
  the empty author. An author of white space only is stored as the empty string by
  both.
\<close>

theorem author_default_on_create_only:
  assumes "\<not> blank t" and "bd \<noteq> []"
  shows "validated (post_fields (full_body t bd [])) = Inr (trim t, bd, Some ''Anonymous'') \<and>
    validated (post_fields (post_body t bd)) = Inr (trim t, bd, Some ''Anonymous'') \<and>
    validated_update (put_fields (full_body t bd [])) = Inr (trim t, bd, Some []) \<and>
    (a \<noteq> [] \<and> blank a \<longrightarrow>
       validated (post_fields (full_body t bd a)) = Inr (trim t, bd, Some []) \<and>
       validated_update (put_fields (full_body t bd a)) = Inr (trim t, bd, Some []))"
  using assms
  by (simp add: full_body_def post_body_def post_fields_def put_fields_def validated_strs
      validated_update_strs validated_update_no_author trim_Anonymous trim_blank)

theorem author_default_on_create_only_witness:
  "validated (post_fields (full_body ''T'' ''B'' [])) = Inr (''T'', ''B'', Some ''Anonymous'') \<and>
   validated_update (put_fields (full_body ''T'' ''B'' [])) = Inr (''T'', ''B'', Some [])"
  using author_default_on_create_only [of "''T''" "''B''" "'' ''"]
  by (simp add: trim_def is_space_def)

text \<open>
  C16. The update handler reads the fields of the request body before it checks the
  identifier. A request without a body is therefore answered with 500 and the category
  \<^verbatim>\<open>Server error\<close> even when its identifier is malformed; the create handler answers it
  the same way. The store is not touched.
\<close>

theorem missing_body_is_500:
  assumes "nullish b"
  shows "status (fst (put_blog e i b s)) = 500 \<and>
    error (fst (put_blog e i b s)) = Some ''Server error'' \<and> snd (put_blog e i b s) = s \<and>
    status (fst (post_blogs e b s)) = 500 \<and> snd (post_blogs e b s) = s"
  using assms by (simp add: put_blog_nullish post_blogs_nullish)

theorem missing_body_is_500_witness:
  "status (fst (put_blog (quiet 1) ''42'' JUndefined sample_store)) = 500 \<and>
   \<not> isValid ''42''"
  using missing_body_is_500 [of JUndefined "quiet 1" "''42''" sample_store]
  by (simp add: isValid_def)

text \<open>
  C17. Identifiers are read without regard to the case of their hexadecimal digits: a
  request with an identifier in upper case is answered exactly as the request with the
  identifier in lower case.
\<close>

theorem identifier_case_is_ignored:
  "handle e (GET_blog (map lower_hex i)) s = handle e (GET_blog i) s \<and>
   handle e (PUT_blog (map lower_hex i) b) s = handle e (PUT_blog i b) s \<and>
   handle e (DELETE_blog (map lower_hex i)) s = handle e (DELETE_blog i) s"
  by (simp add: get_blog_lower put_blog_lower delete_blog_lower)

section \<open>The client and the server together\<close>

text \<open>
  C34. Creating through the form, end to end. When the form is in create mode, title and
  body are not blank, and the server answers both the create request and the list
  request that follows, the collection gains exactly one record: a fresh identifier, the
  trimmed title and body, the trimmed author or \<^verbatim>\<open>Anonymous\<close> if that is empty, and both
  timestamps equal to the time of the request. The page shows the success message and
  the new list, and the form is reset.
\<close>

theorem client_create_end_to_end:
  assumes "store_inv s" and "next_oid s < 2 ^ 96" and "blog_id p = []"
    and "trim (title_in p) \<noteq> []" and "trim (body_in p) \<noteq> []"
    and "fault e = None" and "fault e' = None"
    and "d = \<lparr>doc_id = fresh_oid s, title = trim (title_in p), body = trim (body_in p),
           author = Some (str_or (trim (author_in p)) ''Anonymous''), createdAt = now e,
           updatedAt = now e\<rparr>"
    and "w' = submit (Delivered e) (Delivered e') (p, s)"
  shows "snd w' = \<lparr>posts = posts s @ [d], next_oid = Suc (next_oid s)\<rparr> \<and>
    (\<exists>ds. container (fst w') = Cards (map card_of ds) \<and> mset ds = mset (posts s @ [d]) \<and>
       descending createdAt ds) \<and>
    toast_text (fst w') = ''Blog post created successfully'' \<and> toast_type (fst w') = ''success'' \<and>
    blog_id (fst w') = [] \<and> title_in (fst w') = [] \<and> body_in (fst w') = [] \<and>
    submit_label (fst w') = ''Create Blog Post'' \<and> \<not> submit_disabled (fst w')"
proof -
  have "d = new_doc (now e) (fresh_oid s)
      (trim (title_in p), trim (body_in p), Some (str_or (trim (author_in p)) ''Anonymous''))"
    by (simp add: assms(8) new_doc_def)
  moreover have "\<exists>ds. map card_of (sort_desc createdAt (posts s @ [d])) = map card_of ds \<and>
      mset ds = mset (posts s @ [d]) \<and> descending createdAt ds"
    by (intro exI [of _ "sort_desc createdAt (posts s @ [d])"]) (simp add: descending_sort_desc)
  ultimately show ?thesis
    using submit_created [OF assms(1-6) refl refl, of "Delivered e'"] assms(7,9)
    by (simp add: loadBlogs_ok)
qed

theorem client_create_end_to_end_witness:
  "posts (snd (submit (Delivered (quiet 7)) (Delivered (quiet 8))
       (initial_page\<lparr>title_in := '' Hi '', body_in := ''There''\<rparr>, empty_store))) =
     [\<lparr>doc_id = 0, title = ''Hi'', body = ''There'', author = Some ''Anonymous'',
       createdAt = 7, updatedAt = 7\<rparr>]"
  using client_create_end_to_end [OF store_inv_empty _ _ _ _ _ _ refl refl,
      of "initial_page\<lparr>title_in := '' Hi '', body_in := ''There''\<rparr>" "quiet 7" "quiet 8"]
  by (simp add: initial_page_def quiet_def empty_store_def fresh_oid_def trim_def is_space_def)

text \<open>
  C35. The form sends nothing when the title or the body is blank: the page shows the
  error toast and the collection is as it was, whatever the network and the server
  would do. The server itself is less strict about the body: asked directly, it accepts
  a body of white space and stores it as it is.
\<close>

theorem client_blocks_blank_fields:
  assumes "blank (title_in p) \<or> blank (body_in p)"
  shows "submit n1 n2 (p, s) =
      (showToast (if blank (title_in p) then ''Title is required!'' else ''Body is required!'')
         ''error'' p, s) \<and>
    (\<not> blank t \<and> bd \<noteq> [] \<and> blank bd \<longrightarrow>
       validated (post_fields (blogData t bd a)) =
         Inr (trim t, bd, Some (trim (str_or a ''Anonymous''))))"
  using assms
  by (auto simp: submit_blocked trim_Nil_iff post_fields_def js_or_strings validated_strs)

theorem client_blocks_blank_fields_witness:
  "submit (Delivered (quiet 7)) (Delivered (quiet 8))
       (initial_page\<lparr>title_in := ''T'', body_in := ''  ''\<rparr>, empty_store) =
     (showToast ''Body is required!'' ''error'' (initial_page\<lparr>title_in := ''T'', body_in := ''  ''\<rparr>),
      empty_store) \<and>
   validated (post_fields (blogData ''T'' ''  '' [])) = Inr (''T'', ''  '', Some ''Anonymous'')"
  using client_blocks_blank_fields [of "initial_page\<lparr>title_in := ''T'', body_in := ''  ''\<rparr>"
      "Delivered (quiet 7)" "Delivered (quiet 8)" empty_store "''T''" "''  ''" "[]"]
  by (simp add: is_space_def trim_def)

text \<open>
  C37. After a successful update the form is back in create mode, with an empty hidden
  identifier, the title of the create form and no cancel button, but the submit button
  is labelled \<^verbatim>\<open>Update Blog Post\<close>: the \<^verbatim>\<open>finally\<close> block of the submit handler runs
  after \<open>resetForm\<close> and sets the label from the identifier it read at the start.
\<close>

theorem update_leaves_stale_label:
  assumes "oid_of_string (blog_id p) = Some w" and "lookup_by doc_id w (posts s) = Some d"
    and "trim (title_in p) \<noteq> []" and "trim (body_in p) \<noteq> []" and "fault e = None"
    and "p' = fst (submit (Delivered e) n2 (p, s))"
  shows "blog_id p' = [] \<and> form_title p' = ''Create New Blog Post'' \<and> \<not> cancel_shown p' \<and>
    title_in p' = [] \<and> submit_label p' = ''Update Blog Post''"
  using submit_updated [OF assms(1-5) refl refl, of n2] oid_of_string_nonempty [OF assms(1)]
  by (simp add: assms(6))

theorem update_leaves_stale_label_witness:
  "submit_label (fst (submit (Delivered (quiet 8)) Unreachable
     (fill_form zero_id ''New'' ''Ann'' ''Text'' initial_page, sample_store))) =
     ''Update Blog Post'' \<and>
   blog_id (fst (submit (Delivered (quiet 8)) Unreachable
     (fill_form zero_id ''New'' ''Ann'' ''Text'' initial_page, sample_store))) = []"
  using update_leaves_stale_label [OF _ lookup_sample _ _ _ refl,
      of "fill_form zero_id ''New'' ''Ann'' ''Text'' initial_page" "quiet 8" Unreachable]
  by (simp add: fill_form_def oid_zero quiet_def trim_def is_space_def)

text \<open>
  C38. When the server answers the list request with a failure, the page shows the
  empty list, \<^verbatim>\<open>No blog posts yet\<close>, and neither a toast nor a line on the console: the
  script tests \<^verbatim>\<open>result.success && result.data.length > 0\<close> and treats every other answer
  as an empty collection.
\<close>

theorem list_failure_shown_as_empty:
  assumes "fault e = Some m"
  shows "fst (get_blogs e s) = server_error m \<and>
    loadBlogs (Delivered e) (p, s) = (p\<lparr>container := Empty_state\<rparr>, s)"
  using assms by (simp add: get_blogs_fault loadBlogs_fault)

theorem list_failure_shown_as_empty_witness:
  "loadBlogs (Delivered (failing 3 ''down'')) (initial_page, sample_store) =
     (initial_page\<lparr>container := Empty_state\<rparr>, sample_store)"
  using list_failure_shown_as_empty [of "failing 3 ''down''" "''down''" sample_store initial_page]
  by (simp add: failing_def)

text \<open>
  C39. Every user action keeps the invariant of page and store: the collection satisfies
  its invariant, the hidden identifier of the form is empty or well formed, every card
  carries a well-formed identifier, and the submit button is enabled again when the
  action is over. So an update or delete request that the page sends through its own
  buttons is never answered with \<^verbatim>\<open>Invalid ID\<close>.
\<close>

theorem client_keeps_invariant:
  assumes "world_inv w" and "offered (fst w) a"
  shows "world_inv (act n1 n2 a w) \<and>
    (a = Submit \<and> blog_id (fst w) \<noteq> [] \<longrightarrow> isValid (blog_id (fst w))) \<and>
    (\<forall>i c. a = Click_edit i \<or> a = Click_delete i c \<longrightarrow> isValid i)"
proof -
  from assms have "\<forall>i c. a = Click_edit i \<or> a = Click_delete i c \<longrightarrow> isValid i"
    by (auto simp: world_inv_def)
  with assms(1) act_inv [OF assms(1), of n1 n2 a] show ?thesis
    by (auto simp: world_inv_def)
qed

theorem client_keeps_invariant_witness:
  "world_inv (act (Delivered (quiet 1)) Unreachable Open_page (initial_page, sample_store))"
  using client_keeps_invariant [OF world_inv_initial [OF store_inv_sample],
      of Open_page "Delivered (quiet 1)" Unreachable]
  by simp

end
